(* ===== verification/Prelude.thy ===== *)
theory Prelude
  imports
    Main
    "HOL-Library.AList"
    "HOL-Library.List_Lexorder"
    "HOL-Library.Monad_Syntax"
    "HOL-Library.Multiset"
    "HOL-Library.Sublist"
    "HOL-Library.Word"
begin

text \<open>
  Shared vocabulary of the development: the machine integers the program uses, Rust's panicking
  vector accesses as partial functions, hash maps as association lists behind a keyed-store
  interface, and the two generic shapes in which state machines are verified (a partial step
  function that must not panic, and a step relation with reachable states).
  A result of type \<open>'a option\<close> means: \<open>Some\<close> the value, \<open>None\<close> a Rust panic (or a loop that
  does not end), unless the source itself returns an \<open>Option\<close>.
\<close>

section \<open>Machine types\<close>

type_synonym byte = "8 word"
type_synonym bytes = "8 word list"
type_synonym u16 = "16 word"
type_synonym u64 = "64 word"
type_synonym i64 = "64 word"
type_synonym i32 = "32 word"

type_synonym ('e, 'a) result = "'e + 'a"

named_theorems wf_intros \<open>preservation of the components' well-formedness invariants\<close>

section \<open>Vectors: panicking accesses\<close>

definition vec_get :: "'a list \<Rightarrow> nat \<Rightarrow> 'a option" where
  "vec_get xs i = (if i < length xs then Some (xs ! i) else None)"

definition vec_insert :: "'a list \<Rightarrow> nat \<Rightarrow> 'a \<Rightarrow> 'a list option" where
  "vec_insert xs i x = (if i \<le> length xs then Some (take i xs @ x # drop i xs) else None)"

definition vec_remove :: "'a list \<Rightarrow> nat \<Rightarrow> ('a \<times> 'a list) option" where
  "vec_remove xs i =
     (if i < length xs then Some (xs ! i, take i xs @ drop (Suc i) xs) else None)"

lemma vec_get_in [simp]: "i < length xs \<Longrightarrow> vec_get xs i = Some (xs ! i)"
  by (simp add: vec_get_def)

lemma vec_get_eq_Some: "vec_get xs i = Some x \<longleftrightarrow> i < length xs \<and> xs ! i = x"
  by (auto simp: vec_get_def)

lemma vec_insert_in [simp]: "i \<le> length xs \<Longrightarrow> vec_insert xs i x = Some (take i xs @ x # drop i xs)"
  by (simp add: vec_insert_def)

lemma vec_remove_in [simp]:
  "i < length xs \<Longrightarrow> vec_remove xs i = Some (xs ! i, take i xs @ drop (Suc i) xs)"
  by (simp add: vec_remove_def)

lemma take_Suc_update: "i < length xs \<Longrightarrow> take (Suc i) (xs[i := x]) = take i xs @ [x]"
  by (simp add: take_Suc_conv_app_nth)

lemma update_take_Suc: "i < length xs \<Longrightarrow> (take (Suc i) xs)[i := x] = take i xs @ [x]"
  by (simp add: take_Suc_conv_app_nth list_update_append)

section \<open>Integer helpers\<close>

definition clamp :: "int \<Rightarrow> int \<Rightarrow> int \<Rightarrow> int" where
  "clamp x lo hi = (if x < lo then lo else if hi < x then hi else x)"

lemma clamp_bounds: "lo \<le> hi \<Longrightarrow> lo \<le> clamp x lo hi \<and> clamp x lo hi \<le> hi"
  by (simp add: clamp_def)

lemma nat_clamp_less: "0 < n \<Longrightarrow> nat (clamp x 0 (int n - 1)) < n"
  using clamp_bounds [of 0 "int n - 1" x] by linarith

section \<open>Sorting\<close>

text \<open>Sorting by a key that is unique forgets the order of the input.\<close>

lemma sort_key_mset_unique:
  assumes "mset xs = mset ys" "distinct (map f ys)"
  shows "sort_key f xs = sort_key f ys"
proof (rule map_sorted_distinct_set_unique [of f])
  have "mset (map f (sort_key f zs)) = mset (map f ys)" if "mset zs = mset ys" for zs
    using that by simp
  then have "distinct (map f (sort_key f zs))" if "mset zs = mset ys" for zs
    using assms(2) that by (metis mset_eq_imp_distinct_iff)
  then show "distinct (map f (sort_key f xs))" "distinct (map f (sort_key f ys))"
    using assms(1) by simp_all
  have "set xs = set ys" using assms(1) by (rule mset_eq_setD)
  moreover have "inj_on f (set ys)" using assms(2) by (simp add: distinct_map)
  ultimately show "inj_on f (set (sort_key f xs) \<union> set (sort_key f ys))" by simp
  show "set (sort_key f xs) = set (sort_key f ys)" using \<open>set xs = set ys\<close> by simp
qed simp_all

lemma sort_key_strict: "distinct (map f xs) \<Longrightarrow> sorted_wrt (<) (map f (sort_key f xs))"
proof -
  assume "distinct (map f xs)"
  moreover have "mset (map f (sort_key f xs)) = mset (map f xs)" by simp
  ultimately have "distinct (map f (sort_key f xs))"
    by (metis mset_eq_imp_distinct_iff)
  then show ?thesis by (simp add: strict_sorted_iff)
qed

section \<open>Hash maps\<close>

text \<open>
  A \<open>HashMap\<close> is an association list with distinct keys; the order of the list stands for the
  iteration order, which the source must not depend on. The operations are those of
  \<open>HOL-Library.AList\<close>.
\<close>

type_synonym ('k, 'v) hashmap = "('k \<times> 'v) list"

definition hm_empty :: "('k, 'v) hashmap" where
  "hm_empty = []"

definition hm_get :: "('k, 'v) hashmap \<Rightarrow> 'k \<Rightarrow> 'v option" where
  "hm_get m k = map_of m k"

definition hm_insert :: "'k \<Rightarrow> 'v \<Rightarrow> ('k, 'v) hashmap \<Rightarrow> ('k, 'v) hashmap" where
  "hm_insert k v m = AList.update k v m"

definition hm_remove :: "'k \<Rightarrow> ('k, 'v) hashmap \<Rightarrow> ('k, 'v) hashmap" where
  "hm_remove k m = AList.delete k m"

definition hm_keys :: "('k, 'v) hashmap \<Rightarrow> 'k list" where
  "hm_keys m = map fst m"

definition hm_len :: "('k, 'v) hashmap \<Rightarrow> nat" where
  "hm_len m = length m"

definition hm_wf :: "('k, 'v) hashmap \<Rightarrow> bool" where
  "hm_wf m = distinct (map fst m)"

lemmas hm_defs = hm_empty_def hm_get_def hm_insert_def hm_remove_def hm_keys_def hm_len_def hm_wf_def

text \<open>The interface the clients rely on: what a lookup returns after each update.\<close>

locale keyed_store =
  fixes empty :: "'m"
    and get :: "'m \<Rightarrow> 'k \<Rightarrow> 'v option"
    and insert :: "'k \<Rightarrow> 'v \<Rightarrow> 'm \<Rightarrow> 'm"
    and remove :: "'k \<Rightarrow> 'm \<Rightarrow> 'm"
    and keys :: "'m \<Rightarrow> 'k list"
    and len :: "'m \<Rightarrow> nat"
    and invar :: "'m \<Rightarrow> bool"
  assumes get_empty: "get empty k = None"
    and get_insert: "get (insert k v m) k' = (if k' = k then Some v else get m k')"
    and get_remove: "get (remove k m) k' = (if k' = k then None else get m k')"
    and keys_get: "set (keys m) = {k. get m k \<noteq> None}"
    and keys_distinct: "invar m \<Longrightarrow> distinct (keys m)"
    and len_keys: "len m = length (keys m)"
    and invar_empty: "invar empty"
    and invar_insert: "invar m \<Longrightarrow> invar (insert k v m)"
    and invar_remove: "invar m \<Longrightarrow> invar (remove k m)"
begin

lemma get_insert_same: "get (insert k v m) k = Some v"
  by (simp add: get_insert)

lemma get_remove_same: "get (remove k m) k = None"
  by (simp add: get_remove)

lemma get_remove_Some: "get (remove k m) k' = Some v \<longleftrightarrow> k' \<noteq> k \<and> get m k' = Some v"
  by (simp add: get_remove)

lemma finite_dom: "finite {k. get m k \<noteq> None}"
  using finite_set [of "keys m"] by (simp only: keys_get)

lemma len_card: "invar m \<Longrightarrow> len m = card {k. get m k \<noteq> None}"
  using distinct_card [OF keys_distinct] by (simp add: len_keys keys_get)

lemma set_keys_insert: "set (keys (insert k v m)) = {k} \<union> set (keys m)"
  by (auto simp: keys_get get_insert)

lemma set_keys_remove: "set (keys (remove k m)) = set (keys m) - {k}"
  by (auto simp: keys_get get_remove)

lemma len_insert:
  assumes "invar m"
  shows "len (insert k v m) = (if get m k = None then Suc (len m) else len m)"
proof -
  have "{k'. get (insert k v m) k' \<noteq> None} = {k} \<union> {k'. get m k' \<noteq> None}"
    by (auto simp: get_insert)
  moreover have "finite {k'. get m k' \<noteq> None}"
    by (rule finite_dom)
  ultimately show ?thesis
    using assms by (simp add: len_card invar_insert card_insert_if)
qed

lemma len_remove:
  assumes "invar m"
  shows "len (remove k m) = (if get m k = None then len m else len m - 1)"
proof -
  have "{k'. get (remove k m) k' \<noteq> None} = {k'. get m k' \<noteq> None} - {k}"
    by (auto simp: get_remove)
  moreover have "finite {k'. get m k' \<noteq> None}"
    by (rule finite_dom)
  ultimately show ?thesis
    using assms by (simp add: len_card invar_remove)
qed

end

interpretation hm: keyed_store hm_empty hm_get hm_insert hm_remove hm_keys hm_len hm_wf
proof (unfold_locales, goal_cases)
  case (4 m)
  show ?case by (auto simp: hm_defs map_of_eq_None_iff)
qed (auto simp: hm_defs AList.update_conv' AList.delete_conv' distinct_update AList.distinct_delete)

lemmas hm_get_simps [simp] =
  hm.get_empty hm.get_insert hm.get_remove

lemmas hm_wf_simps [simp, wf_intros] =
  hm.invar_empty hm.invar_insert hm.invar_remove

section \<open>Machines\<close>

text \<open>
  A handler that may panic is \<open>'e \<Rightarrow> 's \<Rightarrow> 's option\<close>. A run stops at the first panic.
\<close>

fun run :: "('e \<Rightarrow> 's \<Rightarrow> 's option) \<Rightarrow> 'e list \<Rightarrow> 's \<Rightarrow> 's option" where
  "run step [] s = Some s"
| "run step (e # es) s = step e s \<bind> run step es"

lemma run_single: "run step [e] s = step e s"
  by (cases "step e s") simp_all

lemma run_append: "run step (es @ es') s = run step es s \<bind> run step es'"
  by (induction es arbitrary: s) (auto split: Option.bind_splits)

text \<open>
  The contract of a panic-free handler: from a good state, an admissible event yields a good
  state. Its client lemma is that no sequence of admissible events panics.
\<close>

locale safe_machine =
  fixes step :: "'e \<Rightarrow> 's \<Rightarrow> 's option"
    and inv :: "'s \<Rightarrow> bool"
    and ok :: "'e \<Rightarrow> bool"
  assumes step_safe: "inv s \<Longrightarrow> ok e \<Longrightarrow> \<exists>s'. step e s = Some s' \<and> inv s'"
begin

lemma run_safe: "inv s \<Longrightarrow> list_all ok es \<Longrightarrow> \<exists>s'. run step es s = Some s' \<and> inv s'"
proof (induction es arbitrary: s)
  case Nil
  then show ?case by simp
next
  case (Cons e es)
  then obtain s1 where "step e s = Some s1" "inv s1"
    using step_safe by fastforce
  with Cons show ?case by simp
qed

lemma run_inv: "inv s \<Longrightarrow> list_all ok es \<Longrightarrow> run step es s = Some s' \<Longrightarrow> inv s'"
  using run_safe by fastforce

end

text \<open>A machine with choice is a labelled step relation; its reachable states.\<close>

inductive reachable :: "('s \<Rightarrow> 'l \<Rightarrow> 's \<Rightarrow> bool) \<Rightarrow> 's \<Rightarrow> 's \<Rightarrow> bool"
  for step :: "'s \<Rightarrow> 'l \<Rightarrow> 's \<Rightarrow> bool" and s0 :: 's where
  reach_init: "reachable step s0 s0"
| reach_step: "reachable step s0 s \<Longrightarrow> step s l t \<Longrightarrow> reachable step s0 t"

locale invariant_system =
  fixes step :: "'s \<Rightarrow> 'l \<Rightarrow> 's \<Rightarrow> bool"
    and s0 :: 's
    and inv :: "'s \<Rightarrow> bool"
  assumes inv_init: "inv s0"
    and inv_step: "inv s \<Longrightarrow> step s l t \<Longrightarrow> inv t"
begin

lemma reachable_inv: "reachable step s0 s \<Longrightarrow> inv s"
  by (induction rule: reachable.induct) (blast intro: inv_init inv_step)+

end

end
