(* ===== verification/Rust_String.thy ===== *)
theory Rust_String
  imports Prelude
begin

text \<open>
  Rust's strings. A \<open>String\<close> or \<open>&str\<close> is the list of its \<open>char\<close>s, each given by its code
  point; the length of a string in bytes and its byte offsets follow from the UTF-8 length of a
  code point. An operation that takes a byte offset panics (\<open>None\<close>) when the offset is not on a
  character boundary, as the standard library does. Rust orders strings by their bytes, which
  for UTF-8 is the lexicographic order of the code points, the order of
  \<open>HOL-Library.List_Lexorder\<close>.
\<close>

type_synonym rchar = nat
type_synonym rstring = "nat list"

section \<open>Literals\<close>

definition lit :: "string \<Rightarrow> rstring" where
  "lit s = map of_char s"

lemma lit_eq_iff [simp]: "lit s = lit t \<longleftrightarrow> s = t"
  unfolding lit_def by (rule inj_map_eq_map) (simp add: inj_def)

lemma lit_Nil [simp]: "lit [] = []"
  by (simp add: lit_def)

lemma lit_eq_Nil [simp]: "lit s = [] \<longleftrightarrow> s = []"
  by (simp add: lit_def)

lemma lit_Nil_eq [simp]: "[] = lit s \<longleftrightarrow> s = []"
  by (auto simp: lit_def)

section \<open>UTF-8 lengths and byte offsets\<close>

definition utf8_len :: "rchar \<Rightarrow> nat" where
  "utf8_len c = (if c < 0x80 then 1 else if c < 0x800 then 2 else if c < 0x10000 then 3 else 4)"

lemma utf8_len_pos [simp]: "0 < utf8_len c" "utf8_len c \<noteq> 0" "Suc 0 \<le> utf8_len c"
  by (simp_all add: utf8_len_def)

text \<open>\<open>str::len\<close> counts bytes; \<open>chars().count()\<close> is the length of the list.\<close>

definition str_len :: "rstring \<Rightarrow> nat" where
  "str_len s = sum_list (map utf8_len s)"

lemma str_len_simps [simp]:
  "str_len [] = 0"
  "str_len (c # s) = utf8_len c + str_len s"
  "str_len (s @ t) = str_len s + str_len t"
  by (simp_all add: str_len_def)

lemma length_le_str_len: "length s \<le> str_len s"
proof (induction s)
  case (Cons c s)
  have "length (c # s) = 1 + length s" by simp
  also have "\<dots> \<le> utf8_len c + str_len s"
    using Cons utf8_len_pos(3) [of c] by (intro add_mono) simp_all
  finally show ?case by simp
qed simp

definition is_ascii :: "rstring \<Rightarrow> bool" where
  "is_ascii s = list_all (\<lambda>c. c < 0x80) s"

lemma is_ascii_simps [simp]:
  "is_ascii []"
  "is_ascii (c # s) \<longleftrightarrow> c < 0x80 \<and> is_ascii s"
  "is_ascii (s @ t) \<longleftrightarrow> is_ascii s \<and> is_ascii t"
  by (simp_all add: is_ascii_def)

lemma is_ascii_take [simp]: "is_ascii s \<Longrightarrow> is_ascii (take n s)"
  and is_ascii_drop [simp]: "is_ascii s \<Longrightarrow> is_ascii (drop n s)"
  by (auto simp: is_ascii_def list_all_iff dest: in_set_takeD in_set_dropD)

lemma str_len_ascii: "is_ascii s \<Longrightarrow> str_len s = length s"
  by (induction s) (auto simp: utf8_len_def)

lemma str_len_eq_length_iff: "str_len s = length s \<longleftrightarrow> is_ascii s"
proof (induction s)
  case (Cons c s)
  then show ?case using length_le_str_len [of s] by (auto simp: utf8_len_def)
qed simp

lemma str_len_take_mono: "i \<le> j \<Longrightarrow> str_len (take i s) \<le> str_len (take j s)"
proof -
  assume "i \<le> j"
  then have "take j s = take i s @ take (j - i) (drop i s)"
    by (metis le_add_diff_inverse take_add)
  then show ?thesis by simp
qed

text \<open>\<open>split_at_byte s n\<close>: the parts before and after byte offset \<open>n\<close>, if it is a boundary.\<close>

fun split_at_byte :: "rstring \<Rightarrow> nat \<Rightarrow> (rstring \<times> rstring) option" where
  "split_at_byte s 0 = Some ([], s)"
| "split_at_byte [] (Suc n) = None"
| "split_at_byte (c # s) (Suc n) =
     (if utf8_len c \<le> Suc n
      then map_option (\<lambda>(a, b). (c # a, b)) (split_at_byte s (Suc n - utf8_len c))
      else None)"

lemma split_at_byte_prefix: "split_at_byte (a @ b) (str_len a) = Some (a, b)"
proof (induction a)
  case Nil
  then show ?case by simp
next
  case (Cons c a)
  obtain n where "utf8_len c + str_len a = Suc n"
    by (metis add_is_0 not0_implies_Suc utf8_len_pos(2))
  with Cons show ?case
    by (simp, metis diff_add_inverse le_add1)
qed

lemma split_at_byte_Some:
  "split_at_byte s n = Some (a, b) \<Longrightarrow> s = a @ b \<and> n = str_len a"
  by (induction s n arbitrary: a b rule: split_at_byte.induct) (auto split: if_splits)

lemma split_at_byte_take:
  "split_at_byte s (str_len (take i s)) = Some (take i s, drop i s)"
  using split_at_byte_prefix [of "take i s" "drop i s"] by simp

section \<open>String operations at byte offsets\<close>

definition string_insert :: "rstring \<Rightarrow> nat \<Rightarrow> rchar \<Rightarrow> rstring option" where
  "string_insert s idx c = map_option (\<lambda>(a, b). a @ c # b) (split_at_byte s idx)"

definition string_split_off :: "rstring \<Rightarrow> nat \<Rightarrow> (rstring \<times> rstring) option" where
  "string_split_off s idx = split_at_byte s idx"

definition string_remove :: "rstring \<Rightarrow> nat \<Rightarrow> (rchar \<times> rstring) option" where
  "string_remove s idx =
     (case split_at_byte s idx of Some (a, c # b) \<Rightarrow> Some (c, a @ b) | _ \<Rightarrow> None)"

lemma string_remove_end: "string_remove s (str_len s) = None"
  using split_at_byte_prefix [of s "[]"] by (simp add: string_remove_def)

section \<open>Splitting and joining\<close>

text \<open>\<open>s.split(sep)\<close> for a \<open>char\<close> separator: there is always at least one piece.\<close>

fun split_char :: "rchar \<Rightarrow> rstring \<Rightarrow> rstring list" where
  "split_char sep [] = [[]]"
| "split_char sep (c # s) =
     (if c = sep then [] # split_char sep s
      else case split_char sep s of [] \<Rightarrow> [[c]] | l # ls \<Rightarrow> (c # l) # ls)"

fun join :: "rstring \<Rightarrow> rstring list \<Rightarrow> rstring" where
  "join sep [] = []"
| "join sep [l] = l"
| "join sep (l # m # ls) = l @ sep @ join sep (m # ls)"

text \<open>\<open>s.rsplit(sep).next()\<close>: the last piece (the iterator is never empty).\<close>

definition rsplit_next :: "rchar \<Rightarrow> rstring \<Rightarrow> rstring" where
  "rsplit_next sep s = last (split_char sep s)"

lemma split_char_nonempty [simp]: "split_char sep s \<noteq> []"
  by (induction s) (auto split: list.splits)

lemma join_Cons_ne: "ls \<noteq> [] \<Longrightarrow> join sep (l # ls) = l @ sep @ join sep ls"
  by (cases ls) auto

lemma join_split_char: "join [sep] (split_char sep s) = s"
proof (induction s)
  case Nil
  then show ?case by simp
next
  case (Cons c s)
  obtain l ls where split: "split_char sep s = l # ls"
    by (meson list.exhaust split_char_nonempty)
  then have "join [sep] ((c # l) # ls) = c # join [sep] (l # ls)"
    by (cases ls) auto
  with Cons split show ?case by (auto simp: join_Cons_ne)
qed

lemma split_char_no_sep: "l \<in> set (split_char sep s) \<Longrightarrow> sep \<notin> set l"
proof (induction s arbitrary: l)
  case (Cons c s)
  then show ?case by (cases "split_char sep s") (auto split: if_splits)
qed simp

lemma split_char_chars: "l \<in> set (split_char sep s) \<Longrightarrow> set l \<subseteq> set s"
proof (induction s arbitrary: l)
  case (Cons c s)
  then show ?case by (cases "split_char sep s") (fastforce split: if_splits)+
qed simp

lemma split_char_clean: "sep \<notin> set s \<Longrightarrow> split_char sep s = [s]"
  by (induction s) auto

lemma split_char_append_sep:
  "sep \<notin> set a \<Longrightarrow> split_char sep (a @ sep # b) = a # split_char sep b"
  by (induction a) auto

lemma split_char_join:
  "ls \<noteq> [] \<Longrightarrow> \<forall>l \<in> set ls. sep \<notin> set l \<Longrightarrow> split_char sep (join [sep] ls) = ls"
  by (induction "[sep]" ls rule: join.induct) (auto simp: split_char_clean split_char_append_sep)

section \<open>Search and formatting\<close>

fun str_contains :: "rstring \<Rightarrow> rstring \<Rightarrow> bool" where
  "str_contains [] needle = (needle = [])"
| "str_contains (c # s) needle = (prefix needle (c # s) \<or> str_contains s needle)"

lemma str_contains_sublist: "str_contains s needle \<longleftrightarrow> sublist needle s"
  by (induction s) (auto simp: sublist_Cons_right)

fun nat_to_string :: "nat \<Rightarrow> rstring" where
  "nat_to_string n =
     (if n < 10 then [48 + n] else nat_to_string (n div 10) @ [48 + n mod 10])"

declare nat_to_string.simps [simp del]

definition int_to_string :: "int \<Rightarrow> rstring" where
  "int_to_string i = (if i < 0 then 45 # nat_to_string (nat (- i)) else nat_to_string (nat i))"

definition bool_to_string :: "bool \<Rightarrow> rstring" where
  "bool_to_string b = (if b then lit ''true'' else lit ''false'')"

end
