(* ===== verification/Opamp_Proto.thy ===== *)
theory Opamp_Proto
  imports Rust_String
begin

text \<open>
  The OpAMP messages of \<open>proto/opamp.proto\<close> and \<open>proto/anyvalue.proto\<close>, as far as the program
  reads or writes them. An optional message field is an \<open>option\<close>, a protobuf map a hash map, an
  enum its 32-bit number where the message stores the number. Every message the program builds
  leaves the fields that are not listed here at their protobuf default, and it reads none of them.
\<close>

type_synonym f64 = "64 word"  \<comment> \<open>the bits of an IEEE double\<close>

section \<open>Attribute values\<close>

datatype any_value = AnyValue (av_value: "any_value_kind option")
  and any_value_kind =
    StringValue rstring
  | BoolValue bool
  | IntValue i64
  | DoubleValue f64
  | ArrayValue "any_value list"
  | KvlistValue "(rstring \<times> any_value option) list"
  | BytesValue bytes

record key_value =
  kv_key :: rstring
  kv_value :: "any_value option"

section \<open>Agent to server\<close>

record agent_description =
  identifying_attributes :: "key_value list"
  non_identifying_attributes :: "key_value list"

datatype component_health =
  ComponentHealth
    (ch_healthy: bool)
    (ch_start_time_unix_nano: u64)
    (ch_last_error: rstring)
    (ch_status: rstring)
    (ch_status_time_unix_nano: u64)
    (component_health_map: "(rstring \<times> component_health) list")

record agent_config_file =
  body :: bytes
  content_type :: rstring

type_synonym agent_config_map = "(rstring, agent_config_file) hashmap"

record effective_config_msg =
  ec_config_map :: "agent_config_map option"

record remote_config_status_msg =
  last_remote_config_hash :: bytes
  rcs_status :: i32
  error_message :: rstring

record agent_to_server =
  a2s_instance_uid :: bytes
  a2s_sequence_num :: u64
  a2s_agent_description :: "agent_description option"
  a2s_capabilities :: u64
  a2s_health :: "component_health option"
  a2s_effective_config :: "effective_config_msg option"
  a2s_remote_config_status :: "remote_config_status_msg option"
  a2s_agent_disconnect :: "unit option"

definition agent_to_server_default :: agent_to_server where
  "agent_to_server_default =
     \<lparr>a2s_instance_uid = [], a2s_sequence_num = 0, a2s_agent_description = None,
      a2s_capabilities = 0, a2s_health = None, a2s_effective_config = None,
      a2s_remote_config_status = None, a2s_agent_disconnect = None\<rparr>"

datatype remote_config_statuses = StatusUnset | Applied | Applying | Failed

fun remote_config_statuses_i32 :: "remote_config_statuses \<Rightarrow> i32" where
  "remote_config_statuses_i32 StatusUnset = 0"
| "remote_config_statuses_i32 Applied = 1"
| "remote_config_statuses_i32 Applying = 2"
| "remote_config_statuses_i32 Failed = 3"

section \<open>Server to agent\<close>

record agent_remote_config =
  arc_config :: "agent_config_map option"
  config_hash_field :: bytes

record telemetry_connection_settings =
  destination_endpoint :: rstring

record connection_settings_offers =
  own_metrics :: "telemetry_connection_settings option"
  own_traces :: "telemetry_connection_settings option"
  own_logs :: "telemetry_connection_settings option"

datatype command_type = Restart

fun command_type_i32 :: "command_type \<Rightarrow> i32" where
  "command_type_i32 Restart = 0"

record server_to_agent_command =
  cmd_type :: i32

record server_to_agent =
  s2a_instance_uid :: bytes
  s2a_remote_config :: "agent_remote_config option"
  s2a_connection_settings :: "connection_settings_offers option"
  s2a_capabilities :: u64
  s2a_command :: "server_to_agent_command option"

definition server_to_agent_default :: server_to_agent where
  "server_to_agent_default =
     \<lparr>s2a_instance_uid = [], s2a_remote_config = None, s2a_connection_settings = None,
      s2a_capabilities = 0, s2a_command = None\<rparr>"

section \<open>Capability bits\<close>

datatype agent_capability =
    AgentUnspecified | ReportsStatus | AcceptsRemoteConfig | ReportsEffectiveConfig
  | AcceptsPackages | ReportsPackageStatuses | ReportsOwnTraces | ReportsOwnMetrics
  | ReportsOwnLogs | AcceptsOpAmpConnectionSettings | AcceptsOtherConnectionSettings
  | AcceptsRestartCommand | ReportsHealth | ReportsRemoteConfig | ReportsHeartbeat
  | ReportsAvailableComponents | ReportsConnectionSettingsStatus

fun agent_capability_u64 :: "agent_capability \<Rightarrow> u64" where
  "agent_capability_u64 AgentUnspecified = 0"
| "agent_capability_u64 ReportsStatus = 0x1"
| "agent_capability_u64 AcceptsRemoteConfig = 0x2"
| "agent_capability_u64 ReportsEffectiveConfig = 0x4"
| "agent_capability_u64 AcceptsPackages = 0x8"
| "agent_capability_u64 ReportsPackageStatuses = 0x10"
| "agent_capability_u64 ReportsOwnTraces = 0x20"
| "agent_capability_u64 ReportsOwnMetrics = 0x40"
| "agent_capability_u64 ReportsOwnLogs = 0x80"
| "agent_capability_u64 AcceptsOpAmpConnectionSettings = 0x100"
| "agent_capability_u64 AcceptsOtherConnectionSettings = 0x200"
| "agent_capability_u64 AcceptsRestartCommand = 0x400"
| "agent_capability_u64 ReportsHealth = 0x800"
| "agent_capability_u64 ReportsRemoteConfig = 0x1000"
| "agent_capability_u64 ReportsHeartbeat = 0x2000"
| "agent_capability_u64 ReportsAvailableComponents = 0x4000"
| "agent_capability_u64 ReportsConnectionSettingsStatus = 0x8000"

datatype server_capability =
    ServerUnspecified | AcceptsStatus | OffersRemoteConfig | AcceptsEffectiveConfig
  | OffersPackages | AcceptsPackagesStatus | OffersConnectionSettings
  | AcceptsConnectionSettingsRequest

fun server_capability_u64 :: "server_capability \<Rightarrow> u64" where
  "server_capability_u64 ServerUnspecified = 0"
| "server_capability_u64 AcceptsStatus = 0x1"
| "server_capability_u64 OffersRemoteConfig = 0x2"
| "server_capability_u64 AcceptsEffectiveConfig = 0x4"
| "server_capability_u64 OffersPackages = 0x8"
| "server_capability_u64 AcceptsPackagesStatus = 0x10"
| "server_capability_u64 OffersConnectionSettings = 0x20"
| "server_capability_u64 AcceptsConnectionSettingsRequest = 0x40"

end
