(* ===== verification/Capabilities.thy ===== *)
theory Capabilities
  imports Opamp_Proto
begin

text \<open>
  The capability bitmasks of \<open>crates/otelc-opamp/src/capabilities.rs\<close>, read as sets of
  capabilities: each named capability owns one bit of the 64.
\<close>

unbundle bit_operations_syntax

section \<open>Definitions\<close>

definition agent_has :: "u64 \<Rightarrow> agent_capability \<Rightarrow> bool" where
  "agent_has caps cap =
     (let b = agent_capability_u64 cap in b \<noteq> 0 \<and> caps AND b = b)"

definition server_capabilities :: u64 where
  "server_capabilities =
     server_capability_u64 AcceptsStatus
     OR server_capability_u64 OffersRemoteConfig
     OR server_capability_u64 AcceptsEffectiveConfig
     OR server_capability_u64 OffersConnectionSettings"

definition described_capabilities :: "(rstring \<times> agent_capability) list" where
  "described_capabilities =
     [(lit ''ReportsStatus'', ReportsStatus),
      (lit ''AcceptsRemoteConfig'', AcceptsRemoteConfig),
      (lit ''ReportsEffectiveConfig'', ReportsEffectiveConfig),
      (lit ''ReportsHealth'', ReportsHealth),
      (lit ''ReportsRemoteConfig'', ReportsRemoteConfig),
      (lit ''ReportsOwnMetrics'', ReportsOwnMetrics),
      (lit ''ReportsOwnLogs'', ReportsOwnLogs),
      (lit ''ReportsOwnTraces'', ReportsOwnTraces),
      (lit ''AcceptsRestartCommand'', AcceptsRestartCommand),
      (lit ''AcceptsOpAMPConnectionSettings'', AcceptsOpAmpConnectionSettings),
      (lit ''ReportsAvailableComponents'', ReportsAvailableComponents)]"

definition describe :: "u64 \<Rightarrow> (rstring \<times> bool) list" where
  "describe caps = map (\<lambda>(label, cap). (label, agent_has caps cap)) described_capabilities"

section \<open>Masks as sets\<close>

text \<open>The bit of a capability; \<open>None\<close> for the unspecified one.\<close>

fun cap_bit :: "agent_capability \<Rightarrow> nat option" where
  "cap_bit AgentUnspecified = None"
| "cap_bit ReportsStatus = Some 0"
| "cap_bit AcceptsRemoteConfig = Some 1"
| "cap_bit ReportsEffectiveConfig = Some 2"
| "cap_bit AcceptsPackages = Some 3"
| "cap_bit ReportsPackageStatuses = Some 4"
| "cap_bit ReportsOwnTraces = Some 5"
| "cap_bit ReportsOwnMetrics = Some 6"
| "cap_bit ReportsOwnLogs = Some 7"
| "cap_bit AcceptsOpAmpConnectionSettings = Some 8"
| "cap_bit AcceptsOtherConnectionSettings = Some 9"
| "cap_bit AcceptsRestartCommand = Some 10"
| "cap_bit ReportsHealth = Some 11"
| "cap_bit ReportsRemoteConfig = Some 12"
| "cap_bit ReportsHeartbeat = Some 13"
| "cap_bit ReportsAvailableComponents = Some 14"
| "cap_bit ReportsConnectionSettingsStatus = Some 15"

lemma cap_bit_u64: "cap_bit c = Some n \<Longrightarrow> agent_capability_u64 c = 2 ^ n \<and> n < 64"
  by (cases c) auto

lemma cap_bit_None: "cap_bit c = None \<longleftrightarrow> c = AgentUnspecified"
  by (cases c) auto

lemma cap_bit_inj: "cap_bit c = Some n \<Longrightarrow> cap_bit d = Some n \<Longrightarrow> c = d"
  by (cases c) (cases d; simp)+

lemma and_power2_eq_iff: "n < 64 \<Longrightarrow> ((w::u64) AND 2 ^ n = 2 ^ n) = bit w n"
  by (simp add: and_exp_eq_0_iff_not_bit bit_eq_iff [of _ "2 ^ n"] bit_simps) blast

lemma agent_has_bit: "cap_bit c = Some n \<Longrightarrow> agent_has caps c = bit caps n"
  using cap_bit_u64 [of c n] by (auto simp: agent_has_def Let_def and_power2_eq_iff)

lemma agent_has_unspecified: "\<not> agent_has caps AgentUnspecified"
  by (simp add: agent_has_def)

text \<open>Adding one capability to a mask.\<close>

lemma agent_has_or:
  "agent_has (agent_capability_u64 c OR caps) d
     \<longleftrightarrow> (c = d \<and> d \<noteq> AgentUnspecified) \<or> agent_has caps d"
proof (cases "cap_bit d")
  case None
  then show ?thesis by (simp add: cap_bit_None agent_has_unspecified)
next
  case (Some n)
  then have n: "n < 64" and d: "d \<noteq> AgentUnspecified"
    using cap_bit_u64 [of d n] by auto
  show ?thesis
  proof (cases "cap_bit c")
    case None
    then have "c = AgentUnspecified" by (simp add: cap_bit_None)
    then show ?thesis by auto
  next
    case c: (Some m)
    then have "agent_capability_u64 c = 2 ^ m" "m < 64"
      using cap_bit_u64 [of c m] by auto
    moreover have "m = n \<longleftrightarrow> c = d"
      using c Some cap_bit_inj by auto
    ultimately show ?thesis
      using Some n d by (auto simp: agent_has_bit bit_simps)
  qed
qed

lemma agent_has_zero: "\<not> agent_has 0 c"
  by (simp add: agent_has_def Let_def)

definition caps_mask :: "agent_capability list \<Rightarrow> u64" where
  "caps_mask cs = foldr (\<lambda>c m. agent_capability_u64 c OR m) cs 0"

lemma agent_has_mask: "agent_has (caps_mask cs) c \<longleftrightarrow> c \<in> set cs \<and> c \<noteq> AgentUnspecified"
  by (induction cs) (auto simp: caps_mask_def agent_has_or agent_has_zero)

section \<open>Properties\<close>

text \<open>
  A mask built by or-ing capability values advertises exactly the named capabilities it was
  built from: no capability is implied by another, and the unspecified one is never advertised.
\<close>

theorem agent_has_caps_mask:
  "agent_has (caps_mask cs) c \<longleftrightarrow> c \<in> set cs \<and> c \<noteq> AgentUnspecified"
  by (rule agent_has_mask)

text \<open>
  The capability list shown for an agent has eleven distinct labels, in a fixed order, and
  each entry is ticked exactly when the agent's mask has the bit of that capability.
\<close>

theorem describe_faithful:
  "map fst (describe caps) = map fst described_capabilities
   \<and> distinct (map fst (describe caps)) \<and> length (describe caps) = 11
   \<and> map_of (describe caps) l = map_option (agent_has caps) (map_of described_capabilities l)"
  by (simp add: describe_def described_capabilities_def)

end
