(* ===== verification/Utf8.thy ===== *)
theory Utf8
  imports Rust_String
begin

text \<open>
  The bytes of a Rust string (\<open>str::as_bytes\<close>) and the lossy decoding the program applies to
  configuration bodies (\<open>String::from_utf8_lossy\<close>): an invalid sequence becomes one U+FFFD per
  maximal valid prefix, as the standard library does. A \<open>char\<close> is a Unicode scalar value.
\<close>

definition scalar :: "rchar \<Rightarrow> bool" where
  "scalar c \<longleftrightarrow> c < 0xD800 \<or> 0xE000 \<le> c \<and> c < 0x110000"

definition replacement :: rchar where
  "replacement = 0xFFFD"

section \<open>Encoding\<close>

definition enc_char :: "rchar \<Rightarrow> nat list" where
  "enc_char c =
     (if c < 0x80 then [c]
      else if c < 0x800 then [0xC0 + c div 64, 0x80 + c mod 64]
      else if c < 0x10000 then [0xE0 + c div 4096, 0x80 + c div 64 mod 64, 0x80 + c mod 64]
      else [0xF0 + c div 262144, 0x80 + c div 4096 mod 64, 0x80 + c div 64 mod 64, 0x80 + c mod 64])"

definition as_bytes :: "rstring \<Rightarrow> bytes" where
  "as_bytes s = map of_nat (concat (map enc_char s))"

section \<open>Lossy decoding\<close>

definition cont :: "nat \<Rightarrow> bool" where
  "cont b \<longleftrightarrow> 0x80 \<le> b \<and> b < 0xC0"

text \<open>The admissible second bytes after a given first byte.\<close>

definition second_ok :: "nat \<Rightarrow> nat \<Rightarrow> bool" where
  "second_ok b0 b1 \<longleftrightarrow>
     cont b1 \<and> (b0 = 0xE0 \<longrightarrow> 0xA0 \<le> b1) \<and> (b0 = 0xED \<longrightarrow> b1 < 0xA0)
     \<and> (b0 = 0xF0 \<longrightarrow> 0x90 \<le> b1) \<and> (b0 = 0xF4 \<longrightarrow> b1 < 0x90)"

text \<open>The character at the front, and how many bytes after the first one it takes.\<close>

definition dec_char :: "nat \<Rightarrow> nat list \<Rightarrow> rchar \<times> nat" where
  "dec_char b0 bs =
     (if b0 < 0x80 then (b0, 0)
      else if 0xC2 \<le> b0 \<and> b0 < 0xE0 then
        (case bs of b1 # _ \<Rightarrow>
            if cont b1 then ((b0 - 0xC0) * 64 + (b1 - 0x80), 1) else (replacement, 0)
         | [] \<Rightarrow> (replacement, 0))
      else if 0xE0 \<le> b0 \<and> b0 < 0xF0 then
        (case bs of b1 # bs1 \<Rightarrow>
            if second_ok b0 b1 then
              (case bs1 of b2 # _ \<Rightarrow>
                  if cont b2 then ((b0 - 0xE0) * 4096 + (b1 - 0x80) * 64 + (b2 - 0x80), 2)
                  else (replacement, 1)
               | [] \<Rightarrow> (replacement, 1))
            else (replacement, 0)
         | [] \<Rightarrow> (replacement, 0))
      else if 0xF0 \<le> b0 \<and> b0 < 0xF5 then
        (case bs of b1 # bs1 \<Rightarrow>
            if second_ok b0 b1 then
              (case bs1 of b2 # bs2 \<Rightarrow>
                  if cont b2 then
                    (case bs2 of b3 # _ \<Rightarrow>
                        if cont b3 then
                          ((b0 - 0xF0) * 262144 + (b1 - 0x80) * 4096 + (b2 - 0x80) * 64 + (b3 - 0x80), 3)
                        else (replacement, 2)
                     | [] \<Rightarrow> (replacement, 2))
                  else (replacement, 1)
               | [] \<Rightarrow> (replacement, 1))
            else (replacement, 0)
         | [] \<Rightarrow> (replacement, 0))
      else (replacement, 0))"

function dec_lossy :: "nat list \<Rightarrow> rstring" where
  "dec_lossy [] = []"
| "dec_lossy (b # bs) = (let (c, n) = dec_char b bs in c # dec_lossy (drop n bs))"
  by pat_completeness auto
termination
  by (relation "measure length") auto

definition from_utf8_lossy :: "bytes \<Rightarrow> rstring" where
  "from_utf8_lossy bs = dec_lossy (map unat bs)"

section \<open>Lemmas\<close>

lemma enc_char_bytes: "scalar c \<Longrightarrow> b \<in> set (enc_char c) \<Longrightarrow> b < 256"
  by (auto simp: enc_char_def scalar_def split: if_splits)

lemma length_enc_char: "length (enc_char c) = utf8_len c"
  by (simp add: enc_char_def utf8_len_def)

text \<open>\<open>str_len\<close> is the number of bytes of the encoding.\<close>

lemma length_as_bytes: "length (as_bytes s) = str_len s"
  by (induction s) (simp_all add: as_bytes_def length_enc_char)

lemma div64: "(c::nat) div 64 * 64 + c mod 64 = c"
  by simp

lemma div_4096: "(c::nat) div 64 = c div 4096 * 64 + c div 64 mod 64"
  using div_mult2_eq [of c 64 64] div64 [of "c div 64"] by simp

lemma div_262144: "(c::nat) div 4096 = c div 262144 * 64 + c div 4096 mod 64"
  using div_mult2_eq [of c 4096 64] div64 [of "c div 4096"] by simp

lemma dec_char_2:
  assumes "0x80 \<le> c" "c < 0x800"
  shows "dec_char (0xC0 + c div 64) ((0x80 + c mod 64) # rest) = (c, 1)"
proof -
  have "2 \<le> c div 64" "c div 64 < 32" "c mod 64 < 64"
    using assms by auto
  then show ?thesis by (simp add: dec_char_def cont_def)
qed

lemma dec_char_3:
  assumes "0x800 \<le> c" "c < 0x10000" "scalar c"
  shows "dec_char (0xE0 + c div 4096) ((0x80 + c div 64 mod 64) # (0x80 + c mod 64) # rest) = (c, 2)"
proof -
  have hi: "c div 4096 < 16" and mid: "c div 64 mod 64 < 64" and lo: "c mod 64 < 64"
    using assms by auto
  note split = div_4096 [of c]
  have "c div 4096 = 0 \<Longrightarrow> 32 \<le> c div 64 mod 64"
    using assms(1) split by linarith
  moreover have "c div 4096 = 13 \<Longrightarrow> c div 64 mod 64 < 32"
    using assms(3) split by (auto simp: scalar_def)
  moreover have "c div 4096 * 4096 + c div 64 mod 64 * 64 + c mod 64 = c"
    using split div64 [of c] by linarith
  ultimately show ?thesis
    using hi mid lo by (auto simp: dec_char_def cont_def second_ok_def)
qed

lemma dec_char_4:
  assumes "0x10000 \<le> c" "c < 0x110000"
  shows "dec_char (0xF0 + c div 262144)
           ((0x80 + c div 4096 mod 64) # (0x80 + c div 64 mod 64) # (0x80 + c mod 64) # rest) = (c, 3)"
proof -
  have hi: "c div 262144 < 5" and m: "c div 4096 mod 64 < 64" "c div 64 mod 64 < 64" "c mod 64 < 64"
    using assms by auto
  note s1 = div_4096 [of c] and s2 = div_262144 [of c]
  have "c div 262144 = 0 \<Longrightarrow> 16 \<le> c div 4096 mod 64"
    using assms(1) s2 by linarith
  moreover have "c div 262144 = 4 \<Longrightarrow> c div 4096 mod 64 < 16"
    using assms(2) s2 by linarith
  moreover have "c div 262144 * 262144 + c div 4096 mod 64 * 4096 + c div 64 mod 64 * 64 + c mod 64 = c"
    using s1 s2 div64 [of c] by linarith
  ultimately show ?thesis
    using hi m by (auto simp: dec_char_def cont_def second_ok_def)
qed

lemma dec_lossy_enc_char: "scalar c \<Longrightarrow> dec_lossy (enc_char c @ rest) = c # dec_lossy rest"
  by (auto simp: enc_char_def dec_char_2 dec_char_3 dec_char_4 scalar_def)
    (simp_all add: dec_char_def)

lemma dec_lossy_encode: "list_all scalar s \<Longrightarrow> dec_lossy (concat (map enc_char s)) = s"
  by (induction s) (simp_all add: dec_lossy_enc_char)

lemma unat_of_nat_bytes:
  assumes "list_all scalar s"
  shows "map (unat :: byte \<Rightarrow> nat) (map of_nat (concat (map enc_char s))) = concat (map enc_char s)"
proof -
  have "b < 256" if "b \<in> set (concat (map enc_char s))" for b
    using that assms enc_char_bytes by (auto simp: list_all_iff)
  then have "unat (of_nat b :: byte) = b" if "b \<in> set (concat (map enc_char s))" for b
    using that by (simp add: unat_of_nat take_bit_eq_mod)
  then show ?thesis
    by (simp only: map_map comp_def) (rule map_idI, simp)
qed

text \<open>Decoding the bytes of a Rust string gives the string back.\<close>

lemma from_utf8_lossy_as_bytes:
  assumes "list_all scalar s"
  shows "from_utf8_lossy (as_bytes s) = s"
  using dec_lossy_encode [OF assms] unat_of_nat_bytes [OF assms]
  by (simp only: from_utf8_lossy_def as_bytes_def)

lemma dec_char_scalar: "scalar (fst (dec_char b bs))"
proof -
  have rep: "scalar replacement" by (simp add: scalar_def replacement_def)
  have two: "scalar ((b - 0xC0) * 64 + (b1 - 0x80))" if "b < 0xE0" "cont b1" for b1
  proof -
    have "b1 < 0xC0" using that by (simp add: cont_def)
    then have "(b - 0xC0) * 64 + (b1 - 0x80) \<le> 31 * 64 + 63" using that by (intro add_mono mult_mono) auto
    then show ?thesis by (simp add: scalar_def)
  qed
  have three: "scalar ((b - 0xE0) * 4096 + (b1 - 0x80) * 64 + (b2 - 0x80))"
    if "0xE0 \<le> b" "b < 0xF0" "second_ok b b1" "cont b2" for b1 b2
  proof -
    have m: "b1 - 0x80 \<le> 63" "b2 - 0x80 \<le> 63" using that by (auto simp: second_ok_def cont_def)
    consider "b < 0xED" | "b = 0xED" | "0xED < b" by linarith
    then have "b - 0xE0 \<le> 12 \<or> b - 0xE0 = 13 \<and> b1 - 0x80 \<le> 31 \<or> 14 \<le> b - 0xE0 \<and> b - 0xE0 \<le> 15"
      using that by cases (auto simp: second_ok_def)
    then consider "b - 0xE0 \<le> 12" | "b - 0xE0 = 13" "b1 - 0x80 \<le> 31" | "14 \<le> b - 0xE0" "b - 0xE0 \<le> 15"
      by blast
    then show ?thesis using m by cases (auto simp: scalar_def)
  qed
  have four: "scalar ((b - 0xF0) * 262144 + (b1 - 0x80) * 4096 + (b2 - 0x80) * 64 + (b3 - 0x80))"
    if "0xF0 \<le> b" "b < 0xF5" "second_ok b b1" "cont b2" "cont b3" for b1 b2 b3
  proof -
    have m: "b1 - 0x80 \<le> 63" "b2 - 0x80 \<le> 63" "b3 - 0x80 \<le> 63"
      using that by (auto simp: second_ok_def cont_def)
    have "b = 0xF0 \<or> 0xF0 < b \<and> b < 0xF4 \<or> b = 0xF4" using that by linarith
    then have "b - 0xF0 = 0 \<and> 16 \<le> b1 - 0x80 \<or> 1 \<le> b - 0xF0 \<and> b - 0xF0 \<le> 3
        \<or> b - 0xF0 = 4 \<and> b1 - 0x80 \<le> 15"
      using that by (elim disjE) (auto simp: second_ok_def)
    then show ?thesis using m by (elim disjE conjE) (auto simp: scalar_def)
  qed
  have one: "scalar b" if "b < 0x80" using that by (simp add: scalar_def)
  show ?thesis
    unfolding dec_char_def by (simp add: rep one two three four split: list.split)
qed

lemma dec_lossy_scalar: "list_all scalar (dec_lossy bs)"
proof (induction bs rule: dec_lossy.induct)
  case (2 b bs)
  then show ?case using dec_char_scalar [of b bs] by (cases "dec_char b bs") simp
qed simp

text \<open>A lossy decoding is a Rust string, whatever the bytes.\<close>

lemma from_utf8_lossy_scalar: "list_all scalar (from_utf8_lossy bs)"
  by (simp add: from_utf8_lossy_def dec_lossy_scalar)

end
