(* ===== verification/Wire.thy ===== *)
theory Wire
  imports Capabilities Utf8
begin

text \<open>
  The parts of \<open>crates/otelc-opamp/src\<close> around the messages: instance UIDs
  (\<open>instance_uid.rs\<close>), the message builders (\<open>message.rs\<close>), the errors (\<open>error.rs\<close>) and the
  WebSocket framing (\<open>framing.rs\<close>).
  The protobuf and varint codecs (\<open>prost\<close>), SHA-256 (\<open>sha2\<close>) and the textual form of a UUID
  (\<open>uuid\<close>) are third-party code: they are the fields of \<open>deps\<close>, a parameter of the definitions.
\<close>

section \<open>Third-party functions\<close>

record deps =
  d_encode_varint :: "u64 \<Rightarrow> bytes"
  d_decode_varint :: "bytes \<Rightarrow> (rstring, u64 \<times> bytes) result"
  d_encode_a2s :: "agent_to_server \<Rightarrow> bytes"
  d_decode_a2s :: "bytes \<Rightarrow> (rstring, agent_to_server) result"
  d_encode_s2a :: "server_to_agent \<Rightarrow> bytes"
  d_decode_s2a :: "bytes \<Rightarrow> (rstring, server_to_agent) result"
  d_sha256 :: "bytes \<Rightarrow> bytes"
  d_uuid_display :: "bytes \<Rightarrow> rstring"

section \<open>Errors\<close>

datatype opamp_error = Framing rstring | Decode rstring | Ws rstring | Io rstring

section \<open>Instance UIDs\<close>

datatype instance_uid = InstanceUid (uid_bytes: bytes)

definition from_bytes :: "bytes \<Rightarrow> instance_uid option" where
  "from_bytes bs = (if length bs \<noteq> 16 then None else Some (InstanceUid bs))"

definition uid_to_vec :: "instance_uid \<Rightarrow> bytes" where
  "uid_to_vec uid = uid_bytes uid"

definition uid_to_string :: "deps \<Rightarrow> instance_uid \<Rightarrow> rstring" where
  "uid_to_string d uid = d_uuid_display d (uid_bytes uid)"

definition uid_short :: "deps \<Rightarrow> instance_uid \<Rightarrow> rstring" where
  "uid_short d uid = rsplit_next 45 (uid_to_string d uid)"

lemma from_bytes_Some: "from_bytes bs = Some u \<longleftrightarrow> length bs = 16 \<and> u = InstanceUid bs"
  by (auto simp: from_bytes_def)

text \<open>
  An instance UID is accepted exactly when it has 16 bytes, and the bytes put back on the
  wire are the ones received.
\<close>

theorem from_bytes_roundtrip:
  "map_option uid_to_vec (from_bytes bs) = (if length bs = 16 then Some bs else None)"
  by (simp add: from_bytes_def uid_to_vec_def)

section \<open>Message builders\<close>

definition config_hash :: "deps \<Rightarrow> bytes \<Rightarrow> bytes" where
  "config_hash d b = d_sha256 d b"

definition yaml_config_map :: "rstring \<Rightarrow> agent_config_map" where
  "yaml_config_map yaml =
     hm_insert [] \<lparr>body = as_bytes yaml, content_type = lit ''text/yaml''\<rparr> hm_empty"

lemma yaml_config_map_get:
  "hm_get (yaml_config_map yaml) k =
     (if k = [] then Some \<lparr>body = as_bytes yaml, content_type = lit ''text/yaml''\<rparr> else None)"
  by (simp add: yaml_config_map_def)

section \<open>Framing\<close>

definition framing_encode :: "deps \<Rightarrow> ('m \<Rightarrow> bytes) \<Rightarrow> 'm \<Rightarrow> bytes" where
  "framing_encode d encode msg = d_encode_varint d 0 @ encode msg"

definition framing_decode ::
    "deps \<Rightarrow> (bytes \<Rightarrow> (rstring, 'm) result) \<Rightarrow> bytes \<Rightarrow> (opamp_error, 'm) result" where
  "framing_decode d decode data =
     (case d_decode_varint d data of
        Inl e \<Rightarrow> Inl (Framing (lit ''invalid frame header: '' @ e))
      | Inr (_, buf) \<Rightarrow>
          (case decode buf of Inl e \<Rightarrow> Inl (Decode e) | Inr m \<Rightarrow> Inr m))"

text \<open>The varint codec reads back the header it wrote, and stops right behind it.\<close>

definition varint_ok :: "deps \<Rightarrow> bool" where
  "varint_ok d \<longleftrightarrow> (\<forall>n rest. d_decode_varint d (d_encode_varint d n @ rest) = Inr (n, rest))"

lemma framing_roundtrip:
  "varint_ok d \<Longrightarrow> decode (encode m) = Inr m \<Longrightarrow>
     framing_decode d decode (framing_encode d encode m) = Inr m"
  by (simp add: framing_decode_def framing_encode_def varint_ok_def)

text \<open>
  A frame decodes to the message it was built from, and to the same message whatever number
  its header holds (a future non-zero header is skipped); a frame whose header cannot be read is
  a framing error, and one whose payload cannot be decoded is a decode error.
\<close>

theorem framing_decode_spec:
  assumes "varint_ok d" "decode (encode m) = Inr m"
  shows "framing_decode d decode (framing_encode d encode m) = Inr m
    \<and> framing_decode d decode (d_encode_varint d n @ encode m) = Inr m
    \<and> (decode junk = Inl e \<longrightarrow>
         framing_decode d decode (d_encode_varint d n @ junk) = Inl (Decode e))
    \<and> (d_decode_varint d junk = Inl e \<longrightarrow>
         framing_decode d decode junk = Inl (Framing (lit ''invalid frame header: '' @ e)))"
  using assms by (simp add: framing_decode_def framing_encode_def varint_ok_def)

text \<open>
  A concrete choice of the third-party functions, to show that what is assumed of them can hold:
  a unary varint (the header 0 is the byte 0), and codecs that keep the instance UID.
\<close>

definition sample_deps :: deps where
  "sample_deps =
     \<lparr>d_encode_varint = (\<lambda>n. replicate (unat n) 1 @ [0]),
      d_decode_varint = (\<lambda>bs. let k = length (takeWhile (\<lambda>b. b \<noteq> 0) bs) in
         if k = length bs then Inl (lit ''invalid varint'') else Inr (of_nat k, drop (Suc k) bs)),
      d_encode_a2s = (\<lambda>m. a2s_instance_uid m),
      d_decode_a2s = (\<lambda>bs. if bs = [] then Inl (lit ''empty'')
         else Inr (agent_to_server_default\<lparr>a2s_instance_uid := bs\<rparr>)),
      d_encode_s2a = (\<lambda>m. s2a_instance_uid m),
      d_decode_s2a = (\<lambda>bs. Inr (server_to_agent_default\<lparr>s2a_instance_uid := bs\<rparr>)),
      d_sha256 = (\<lambda>bs. bs),
      d_uuid_display = map unat\<rparr>"

lemma takeWhile_unary: "takeWhile (\<lambda>b. b \<noteq> (0::byte)) (replicate k 1 @ 0 # rest) = replicate k 1"
  by (induction k) simp_all

lemma varint_ok_sample: "varint_ok sample_deps"
  by (simp add: varint_ok_def sample_deps_def takeWhile_unary Let_def)

theorem framing_decode_spec_witness:
  "framing_decode sample_deps (d_decode_a2s sample_deps)
      (framing_encode sample_deps (d_encode_a2s sample_deps)
         (agent_to_server_default\<lparr>a2s_instance_uid := [7]\<rparr>))
     = Inr (agent_to_server_default\<lparr>a2s_instance_uid := [7]\<rparr>)
   \<and> framing_decode sample_deps (d_decode_a2s sample_deps) []
     = Inl (Framing (lit ''invalid frame header: invalid varint''))"
proof -
  have "d_decode_a2s sample_deps
      (d_encode_a2s sample_deps (agent_to_server_default\<lparr>a2s_instance_uid := [7]\<rparr>))
      = Inr (agent_to_server_default\<lparr>a2s_instance_uid := [7]\<rparr>)"
    by (simp add: sample_deps_def)
  from framing_decode_spec [OF varint_ok_sample, of "d_decode_a2s sample_deps"
      "d_encode_a2s sample_deps", OF this, of 5 "[]" _]
  show ?thesis by (simp add: sample_deps_def lit_def)
qed

end
