(* ===== verification/Channel.thy ===== *)
theory Channel
  imports Prelude
begin

text \<open>
  The bounded channels the program's tasks communicate over (\<open>tokio::sync::mpsc\<close>): a FIFO of
  bounded capacity with one receiver. \<open>try_send\<close> fails when the buffer is full or the receiver is
  gone; an awaited \<open>send\<close> happens when there is room. The interface states what the clients rely
  on; the server's push and event channels are instances.
\<close>

record 'a chan =
  ch_cap :: nat
  ch_buf :: "'a list"
  ch_open :: bool

definition chan_new :: "nat \<Rightarrow> 'a chan" where
  "chan_new n = \<lparr>ch_cap = n, ch_buf = [], ch_open = True\<rparr>"

definition chan_try_send :: "'a \<Rightarrow> 'a chan \<Rightarrow> 'a chan option" where
  "chan_try_send x ch =
     (if ch_open ch \<and> length (ch_buf ch) < ch_cap ch
      then Some (ch\<lparr>ch_buf := ch_buf ch @ [x]\<rparr>) else None)"

definition chan_recv :: "'a chan \<Rightarrow> ('a \<times> 'a chan) option" where
  "chan_recv ch = (case ch_buf ch of [] \<Rightarrow> None | x # xs \<Rightarrow> Some (x, ch\<lparr>ch_buf := xs\<rparr>))"

definition chan_close :: "'a chan \<Rightarrow> 'a chan" where
  "chan_close ch = ch\<lparr>ch_open := False\<rparr>"

definition chan_ok :: "nat \<Rightarrow> 'a chan \<Rightarrow> bool" where
  "chan_ok n ch \<longleftrightarrow> ch_cap ch = n \<and> length (ch_buf ch) \<le> n"

locale bounded_fifo =
  fixes send :: "'a \<Rightarrow> 'c \<Rightarrow> 'c option"
    and recv :: "'c \<Rightarrow> ('a \<times> 'c) option"
    and contents :: "'c \<Rightarrow> 'a list"
    and room :: "'c \<Rightarrow> nat"
    and invar :: "'c \<Rightarrow> bool"
  assumes send_room: "invar c \<Longrightarrow> 0 < room c \<Longrightarrow> \<exists>c'. send x c = Some c'"
    and send_contents: "invar c \<Longrightarrow> send x c = Some c' \<Longrightarrow>
          contents c' = contents c @ [x] \<and> room c = Suc (room c') \<and> invar c'"
    and recv_None: "invar c \<Longrightarrow> recv c = None \<longleftrightarrow> contents c = []"
    and recv_contents: "invar c \<Longrightarrow> recv c = Some (x, c') \<Longrightarrow> contents c = x # contents c' \<and> invar c'"
begin

fun send_all :: "'a list \<Rightarrow> 'c \<Rightarrow> 'c option" where
  "send_all [] c = Some c"
| "send_all (x # xs) c = send x c \<bind> send_all xs"

fun recv_n :: "nat \<Rightarrow> 'c \<Rightarrow> 'a list" where
  "recv_n 0 c = []"
| "recv_n (Suc n) c = (case recv c of None \<Rightarrow> [] | Some (x, c') \<Rightarrow> x # recv_n n c')"

lemma send_all_room:
  "invar c \<Longrightarrow> length xs \<le> room c \<Longrightarrow>
     \<exists>c'. send_all xs c = Some c' \<and> contents c' = contents c @ xs \<and> invar c'"
proof (induction xs arbitrary: c)
  case Nil
  then show ?case by simp
next
  case (Cons x xs)
  then obtain c1 where c1: "send x c = Some c1"
    using send_room [of c x] by auto
  with Cons.prems have "contents c1 = contents c @ [x]" "length xs \<le> room c1" "invar c1"
    using send_contents [of c x c1] by auto
  with Cons.IH [of c1] c1 show ?case by auto
qed

lemma recv_n_take: "invar c \<Longrightarrow> recv_n n c = take n (contents c)"
proof (induction n arbitrary: c)
  case 0
  then show ?case by simp
next
  case (Suc n)
  show ?case
  proof (cases "recv c")
    case None
    with Suc.prems have "contents c = []" using recv_None by blast
    with None show ?thesis by simp
  next
    case (Some r)
    with Suc show ?thesis
      using recv_contents [of c "fst r" "snd r"] by (cases r) auto
  qed
qed

text \<open>What is sent into an empty channel with enough room is received in the order it was sent.\<close>

lemma fifo_order:
  "invar c \<Longrightarrow> contents c = [] \<Longrightarrow> length xs \<le> room c \<Longrightarrow>
     \<exists>c'. send_all xs c = Some c' \<and> recv_n (length xs) c' = xs"
  using send_all_room [of c xs] by (auto simp: recv_n_take)

end

definition chan_room :: "'a chan \<Rightarrow> nat" where
  "chan_room ch = (if ch_open ch then ch_cap ch - length (ch_buf ch) else 0)"

interpretation chan: bounded_fifo chan_try_send chan_recv ch_buf chan_room "\<lambda>ch. ch_open ch"
  by unfold_locales
    (auto simp: chan_try_send_def chan_recv_def chan_room_def split: if_splits list.splits)

lemma chan_ok_new [simp]: "chan_ok n (chan_new n)"
  by (simp add: chan_ok_def chan_new_def)

lemma chan_ok_try_send: "chan_ok n ch \<Longrightarrow> chan_try_send x ch = Some ch' \<Longrightarrow> chan_ok n ch'"
  by (auto simp: chan_ok_def chan_try_send_def split: if_splits)

lemma chan_ok_recv: "chan_ok n ch \<Longrightarrow> chan_recv ch = Some (x, ch') \<Longrightarrow> chan_ok n ch'"
  by (auto simp: chan_ok_def chan_recv_def split: list.splits)

lemma chan_ok_close [simp]: "chan_ok n (chan_close ch) = chan_ok n ch"
  by (simp add: chan_ok_def chan_close_def)

lemma chan_try_send_closed [simp]: "\<not> ch_open ch \<Longrightarrow> chan_try_send x ch = None"
  by (simp add: chan_try_send_def)

lemma ch_open_close [simp]: "\<not> ch_open (chan_close ch)"
  by (simp add: chan_close_def)

lemma ch_buf_close [simp]: "ch_buf (chan_close ch) = ch_buf ch"
  by (simp add: chan_close_def)

lemma chan_try_send_buf: "chan_try_send x ch = Some ch' \<Longrightarrow> ch_buf ch' = ch_buf ch @ [x]"
  and chan_try_send_open: "chan_try_send x ch = Some ch' \<Longrightarrow> ch_open ch' = ch_open ch"
  by (auto simp: chan_try_send_def split: if_splits)

lemma chan_recv_buf: "chan_recv ch = Some (x, ch') \<Longrightarrow> ch_buf ch = x # ch_buf ch'"
  and chan_recv_open: "chan_recv ch = Some (x, ch') \<Longrightarrow> ch_open ch' = ch_open ch"
  by (auto simp: chan_recv_def split: list.splits)

lemma chan_new_simps [simp]: "ch_buf (chan_new n) = []" "ch_open (chan_new n)"
  by (simp_all add: chan_new_def)

end
