(* ===== verification/Server.thy ===== *)
theory Server
  imports Wire Channel
begin

text \<open>
  The embedded OpAMP server of \<open>crates/otelc-opamp/src/server\<close>: the routing table
  (\<open>registry.rs\<close>), the task that serves one agent connection (\<open>ws.rs\<close>, function \<open>serve\<close>) and the
  handle that pushes offers and commands (\<open>mod.rs\<close>).
  A connection task is a state machine whose phases are the points where \<open>serve\<close> awaits: between
  two awaits it runs without interruption, at an await other tasks may run. Its own push channel
  is named by the connection's number, so the registry maps an instance UID to a connection.
  The system's steps are the tasks' steps, the handle's calls and the consumer's receives; the
  socket and the scheduler decide which happens.
\<close>

section \<open>State\<close>

datatype opamp_event =
    Message instance_uid agent_to_server
  | Disconnected instance_uid

datatype ws_message = WsBinary bytes | WsPing bytes | WsPong bytes | WsClose | WsOther

text \<open>What \<open>read.next()\<close> yields: the end of the stream, an error, or a message.\<close>

datatype read_result = ReadEnd | ReadErr rstring | ReadOk ws_message

datatype out_msg = OutMsg server_to_agent | OutPong bytes

datatype phase =
    Handshake                              \<comment> \<open>\<open>accept_async\<close>\<close>
  | Select                                 \<comment> \<open>the \<open>select!\<close> of the loop\<close>
  | SendEvent instance_uid agent_to_server \<comment> \<open>\<open>events.send(Message)\<close>\<close>
  | SendReply server_to_agent bool         \<comment> \<open>the reply; whether the agent is disconnecting\<close>
  | SendPong bytes
  | SendPush server_to_agent
  | Closing                                \<comment> \<open>behind the loop\<close>
  | SendGone instance_uid                  \<comment> \<open>\<open>events.send(Disconnected)\<close>\<close>
  | Finished "(opamp_error, unit) result"

record conn =
  c_uid :: "instance_uid option"
  c_first :: bool
  c_phase :: phase
  c_push :: "server_to_agent chan"
  c_out :: "out_msg list"  \<comment> \<open>what the socket accepted, in order\<close>

type_synonym conn_id = nat
type_synonym registry = "(instance_uid, conn_id) hashmap"

record server =
  registry :: registry
  conns :: "conn_id \<rightharpoonup> conn"
  events :: "opamp_event chan"

section \<open>The routing table\<close>

definition registry_insert :: "instance_uid \<Rightarrow> conn_id \<Rightarrow> registry \<Rightarrow> registry" where
  "registry_insert uid tx r = hm_insert uid tx r"

definition registry_remove :: "instance_uid \<Rightarrow> registry \<Rightarrow> registry" where
  "registry_remove uid r = hm_remove uid r"

definition registry_sender :: "instance_uid \<Rightarrow> registry \<Rightarrow> conn_id option" where
  "registry_sender uid r = hm_get r uid"

definition registry_count :: "registry \<Rightarrow> nat" where
  "registry_count r = hm_len r"

lemmas registry_defs =
  registry_insert_def registry_remove_def registry_sender_def registry_count_def

section \<open>One connection\<close>

definition conn_new :: conn where
  "conn_new = \<lparr>c_uid = None, c_first = True, c_phase = Handshake, c_push = chan_new 64, c_out = []\<rparr>"

text \<open>When \<open>serve\<close> returns, its receiver is dropped and the push channel closes.\<close>

definition finish :: "(opamp_error, unit) result \<Rightarrow> conn \<Rightarrow> conn" where
  "finish r c = c\<lparr>c_phase := Finished r, c_push := chan_close (c_push c)\<rparr>"

definition reports_own_telemetry :: "u64 \<Rightarrow> bool" where
  "reports_own_telemetry caps \<longleftrightarrow>
     agent_has caps ReportsOwnMetrics \<or> agent_has caps ReportsOwnLogs
     \<or> agent_has caps ReportsOwnTraces"

definition own_telemetry_offer :: "rstring \<Rightarrow> connection_settings_offers" where
  "own_telemetry_offer otlp_endpoint =
     (let settings = \<lparr>destination_endpoint = otlp_endpoint\<rparr>
      in \<lparr>own_metrics = Some settings, own_traces = Some settings, own_logs = Some settings\<rparr>)"

text \<open>
  An item from the socket. \<open>fresh\<close> is the UID that \<open>InstanceUid::new_v7\<close> would generate. The
  first message with a decodable frame registers the connection; a malformed frame is dropped.
\<close>

definition on_read ::
    "deps \<Rightarrow> instance_uid \<Rightarrow> conn_id \<Rightarrow> read_result \<Rightarrow> registry \<times> conn \<Rightarrow> registry \<times> conn" where
  "on_read d fresh i r rc =
     (let (reg, c) = rc in
      case r of
        ReadEnd \<Rightarrow> (reg, c\<lparr>c_phase := Closing\<rparr>)
      | ReadErr e \<Rightarrow> (reg, finish (Inl (Ws e)) c)
      | ReadOk (WsBinary data) \<Rightarrow>
          (case framing_decode d (d_decode_a2s d) data of
             Inl _ \<Rightarrow> (reg, c)
           | Inr a2s \<Rightarrow>
               (let agent_uid = (case from_bytes (a2s_instance_uid a2s) of
                                   Some u \<Rightarrow> u | None \<Rightarrow> fresh);
                    (reg, c) = (if c_uid c = None
                                then (registry_insert agent_uid i reg, c\<lparr>c_uid := Some agent_uid\<rparr>)
                                else (reg, c))
                in (reg, c\<lparr>c_phase := SendEvent agent_uid a2s\<rparr>)))
      | ReadOk (WsPing payload) \<Rightarrow> (reg, c\<lparr>c_phase := SendPong payload\<rparr>)
      | ReadOk WsClose \<Rightarrow> (reg, c\<lparr>c_phase := Closing\<rparr>)
      | ReadOk _ \<Rightarrow> (reg, c))"

text \<open>Behind \<open>events.send\<close>: build the reply, with the telemetry offer on the first message.\<close>

definition make_reply :: "rstring option \<Rightarrow> instance_uid \<Rightarrow> u64 \<Rightarrow> bool \<Rightarrow> server_to_agent" where
  "make_reply otlp_offer uid caps first =
     (let reply = server_to_agent_default
            \<lparr>s2a_instance_uid := uid_to_vec uid, s2a_capabilities := server_capabilities\<rparr>
      in if first then
           (case otlp_offer of
              Some endpoint \<Rightarrow>
                (if reports_own_telemetry caps
                 then reply\<lparr>s2a_connection_settings := Some (own_telemetry_offer endpoint)\<rparr>
                 else reply)
            | None \<Rightarrow> reply)
         else reply)"

definition after_event :: "rstring option \<Rightarrow> instance_uid \<Rightarrow> agent_to_server \<Rightarrow> conn \<Rightarrow> conn" where
  "after_event otlp_offer uid a2s c =
     (let closing = (a2s_agent_disconnect a2s \<noteq> None);
          reply = make_reply otlp_offer uid (a2s_capabilities a2s) (c_first c)
      in c\<lparr>c_first := False, c_phase := SendReply reply closing\<rparr>)"

text \<open>Behind a successful write: back to the loop, or out of it when the agent disconnects.\<close>

fun after_write :: "phase \<Rightarrow> conn \<Rightarrow> conn option" where
  "after_write (SendReply reply closing) c =
     Some (c\<lparr>c_out := c_out c @ [OutMsg reply], c_phase := if closing then Closing else Select\<rparr>)"
| "after_write (SendPong p) c = Some (c\<lparr>c_out := c_out c @ [OutPong p], c_phase := Select\<rparr>)"
| "after_write (SendPush m) c = Some (c\<lparr>c_out := c_out c @ [OutMsg m], c_phase := Select\<rparr>)"
| "after_write _ c = None"

fun write_error :: "phase \<Rightarrow> rstring \<Rightarrow> opamp_error option" where
  "write_error (SendReply _ _) e = Some (Ws (lit ''failed to send frame''))"
| "write_error (SendPush _) e = Some (Ws (lit ''failed to send frame''))"
| "write_error (SendPong _) e = Some (Ws e)"
| "write_error _ e = None"

text \<open>The bytes a message has on the wire.\<close>

fun ws_of_out :: "deps \<Rightarrow> out_msg \<Rightarrow> ws_message" where
  "ws_of_out d (OutMsg m) = WsBinary (framing_encode d (d_encode_s2a d) m)"
| "ws_of_out d (OutPong p) = WsPong p"

section \<open>The handle\<close>

datatype send_error = NotConnected | ChannelFull

fun send_error_display :: "send_error \<Rightarrow> rstring" where
  "send_error_display NotConnected = lit ''agent is not connected''"
| "send_error_display ChannelFull = lit ''agent outbound channel is full''"

definition handle_push ::
    "instance_uid \<Rightarrow> server_to_agent \<Rightarrow> server \<Rightarrow> (send_error, unit) result \<times> server" where
  "handle_push uid msg s =
     (case registry_sender uid (registry s) of
        None \<Rightarrow> (Inl NotConnected, s)
      | Some i \<Rightarrow>
          (case conns s i of
             None \<Rightarrow> (Inl ChannelFull, s)
           | Some c \<Rightarrow>
               (case chan_try_send msg (c_push c) of
                  None \<Rightarrow> (Inl ChannelFull, s)
                | Some ch \<Rightarrow> (Inr (), s\<lparr>conns := (conns s)(i \<mapsto> c\<lparr>c_push := ch\<rparr>)\<rparr>))))"

definition config_offer :: "deps \<Rightarrow> instance_uid \<Rightarrow> rstring \<Rightarrow> server_to_agent" where
  "config_offer d uid yaml =
     server_to_agent_default
       \<lparr>s2a_instance_uid := uid_to_vec uid, s2a_capabilities := server_capabilities,
        s2a_remote_config := Some \<lparr>arc_config = Some (yaml_config_map yaml),
                                   config_hash_field = config_hash d (as_bytes yaml)\<rparr>\<rparr>"

definition offer_remote_config ::
    "deps \<Rightarrow> instance_uid \<Rightarrow> rstring \<Rightarrow> server \<Rightarrow> (send_error, bytes) result \<times> server" where
  "offer_remote_config d uid yaml s =
     (let hash = config_hash d (as_bytes yaml) in
      case handle_push uid (config_offer d uid yaml) s of
        (Inl e, s') \<Rightarrow> (Inl e, s')
      | (Inr _, s') \<Rightarrow> (Inr hash, s'))"

definition restart_command :: "instance_uid \<Rightarrow> server_to_agent" where
  "restart_command uid =
     server_to_agent_default
       \<lparr>s2a_instance_uid := uid_to_vec uid, s2a_capabilities := server_capabilities,
        s2a_command := Some \<lparr>cmd_type = command_type_i32 Restart\<rparr>\<rparr>"

definition send_restart :: "instance_uid \<Rightarrow> server \<Rightarrow> (send_error, unit) result \<times> server" where
  "send_restart uid s = handle_push uid (restart_command uid) s"

definition agent_count :: "server \<Rightarrow> nat" where
  "agent_count s = registry_count (registry s)"

section \<open>The system\<close>

definition server_new :: server where
  "server_new = \<lparr>registry = hm_empty, conns = Map.empty, events = chan_new 256\<rparr>"

definition set_conn :: "conn_id \<Rightarrow> conn \<Rightarrow> server \<Rightarrow> server" where
  "set_conn i c s = s\<lparr>conns := (conns s)(i \<mapsto> c)\<rparr>"

datatype label =
    LAccept conn_id | LHandshake conn_id "rstring option" | LRead conn_id read_result instance_uid
  | LEvent conn_id | LWrote conn_id | LWriteErr conn_id rstring | LPushRecv conn_id
  | LDeregister conn_id | LGone conn_id
  | LOffer instance_uid rstring | LRestart instance_uid | LTake

inductive server_step :: "deps \<Rightarrow> rstring option \<Rightarrow> server \<Rightarrow> label \<Rightarrow> server \<Rightarrow> bool"
  for d :: deps and offer :: "rstring option" where
  accept: "conns s i = None \<Longrightarrow> server_step d offer s (LAccept i) (set_conn i conn_new s)"
| handshake_ok: "conns s i = Some c \<Longrightarrow> c_phase c = Handshake \<Longrightarrow>
    server_step d offer s (LHandshake i None) (set_conn i (c\<lparr>c_phase := Select\<rparr>) s)"
| handshake_err: "conns s i = Some c \<Longrightarrow> c_phase c = Handshake \<Longrightarrow>
    server_step d offer s (LHandshake i (Some e)) (set_conn i (finish (Inl (Ws e)) c) s)"
| read: "conns s i = Some c \<Longrightarrow> c_phase c = Select \<Longrightarrow>
    on_read d fresh i r (registry s, c) = (reg', c') \<Longrightarrow>
    server_step d offer s (LRead i r fresh) (set_conn i c' (s\<lparr>registry := reg'\<rparr>))"
| event_sent: "conns s i = Some c \<Longrightarrow> c_phase c = SendEvent uid a2s \<Longrightarrow>
    chan_try_send (Message uid a2s) (events s) = Some ev' \<Longrightarrow>
    server_step d offer s (LEvent i) (set_conn i (after_event offer uid a2s c) (s\<lparr>events := ev'\<rparr>))"
| wrote: "conns s i = Some c \<Longrightarrow> after_write (c_phase c) c = Some c' \<Longrightarrow>
    server_step d offer s (LWrote i) (set_conn i c' s)"
| write_err: "conns s i = Some c \<Longrightarrow> write_error (c_phase c) e = Some err \<Longrightarrow>
    server_step d offer s (LWriteErr i e) (set_conn i (finish (Inl err) c) s)"
| push_recv: "conns s i = Some c \<Longrightarrow> c_phase c = Select \<Longrightarrow>
    chan_recv (c_push c) = Some (m, ch') \<Longrightarrow>
    server_step d offer s (LPushRecv i) (set_conn i (c\<lparr>c_phase := SendPush m, c_push := ch'\<rparr>) s)"
| deregister: "conns s i = Some c \<Longrightarrow> c_phase c = Closing \<Longrightarrow> c_uid c = Some uid \<Longrightarrow>
    server_step d offer s (LDeregister i)
      (set_conn i (c\<lparr>c_phase := SendGone uid\<rparr>) (s\<lparr>registry := registry_remove uid (registry s)\<rparr>))"
| unnamed: "conns s i = Some c \<Longrightarrow> c_phase c = Closing \<Longrightarrow> c_uid c = None \<Longrightarrow>
    server_step d offer s (LDeregister i) (set_conn i (finish (Inr ()) c) s)"
| gone: "conns s i = Some c \<Longrightarrow> c_phase c = SendGone uid \<Longrightarrow>
    chan_try_send (Disconnected uid) (events s) = Some ev' \<Longrightarrow>
    server_step d offer s (LGone i) (set_conn i (finish (Inr ()) c) (s\<lparr>events := ev'\<rparr>))"
| offer: "offer_remote_config d uid yaml s = (res, s') \<Longrightarrow>
    server_step d offer s (LOffer uid yaml) s'"
| restart: "send_restart uid s = (res, s') \<Longrightarrow> server_step d offer s (LRestart uid) s'"
| take: "chan_recv (events s) = Some (e, ev') \<Longrightarrow>
    server_step d offer s LTake (s\<lparr>events := ev'\<rparr>)"

inductive_cases deregisterE: "server_step d offer s (LDeregister i) t"
inductive_cases goneE: "server_step d offer s (LGone i) t"
inductive_cases readE: "server_step d offer s (LRead i r fresh) t"

end
