(* ===== verification/Server_Inv.thy ===== *)
theory Server_Inv
  imports Server
begin

text \<open>
  The invariant of the embedded server and what follows from it in every reachable state: the
  routing table only names connections that registered under that UID and have not left, every
  queued push is addressed to the agent of its connection, no agent is offered telemetry settings
  twice, and the channels stay within their capacity. Then the two ways in which an agent can be
  connected and the console not reach it, or gone and still listed.
\<close>

section \<open>The invariant\<close>

definition has_offer :: "server_to_agent \<Rightarrow> bool" where
  "has_offer m \<longleftrightarrow> s2a_connection_settings m \<noteq> None"

fun out_offer :: "out_msg \<Rightarrow> bool" where
  "out_offer (OutMsg m) = has_offer m"
| "out_offer (OutPong p) = False"

fun phase_offers :: "phase \<Rightarrow> nat" where
  "phase_offers (SendReply r _) = (if has_offer r then 1 else 0)"
| "phase_offers _ = 0"

text \<open>Telemetry offers written to the socket or about to be.\<close>

definition offers :: "conn \<Rightarrow> nat" where
  "offers c = length (filter out_offer (c_out c)) + phase_offers (c_phase c)"

fun is_finished :: "phase \<Rightarrow> bool" where
  "is_finished (Finished _) = True"
| "is_finished _ = False"

text \<open>The phases behind \<open>registry.remove\<close>.\<close>

fun has_left :: "phase \<Rightarrow> bool" where
  "has_left (SendGone _) = True"
| "has_left (Finished (Inr _)) = True"
| "has_left _ = False"

text \<open>A pushed message: addressed to the connection's agent, and not a telemetry offer.\<close>

definition push_ok :: "instance_uid option \<Rightarrow> server_to_agent \<Rightarrow> bool" where
  "push_ok u m \<longleftrightarrow> \<not> has_offer m \<and> s2a_capabilities m = server_capabilities
     \<and> map_option uid_bytes u = Some (s2a_instance_uid m)"

fun phase_ok :: "instance_uid option \<Rightarrow> phase \<Rightarrow> bool" where
  "phase_ok u (SendPush m) = push_ok u m"
| "phase_ok u (SendGone v) = (u = Some v)"
| "phase_ok u (SendEvent _ _) = (u \<noteq> None)"
| "phase_ok u (SendReply r _) = (u \<noteq> None \<and> s2a_capabilities r = server_capabilities)"
| "phase_ok u _ = True"

definition conn_inv :: "conn \<Rightarrow> bool" where
  "conn_inv c \<longleftrightarrow>
     chan_ok 64 (c_push c) \<and> list_all (push_ok (c_uid c)) (ch_buf (c_push c))
     \<and> phase_ok (c_uid c) (c_phase c)
     \<and> offers c \<le> (if c_first c then 0 else 1)
     \<and> ch_open (c_push c) = (\<not> is_finished (c_phase c))"

definition server_inv :: "server \<Rightarrow> bool" where
  "server_inv s \<longleftrightarrow>
     hm_wf (registry s) \<and> chan_ok 256 (events s)
     \<and> (\<forall>u i. hm_get (registry s) u = Some i \<longrightarrow>
          (\<exists>c. conns s i = Some c \<and> c_uid c = Some u \<and> \<not> has_left (c_phase c)))
     \<and> (\<forall>i c. conns s i = Some c \<longrightarrow> conn_inv c)"

lemma set_conn_simps [simp]:
  "registry (set_conn i c s) = registry s"
  "events (set_conn i c s) = events s"
  "conns (set_conn i c s) = (conns s)(i \<mapsto> c)"
  by (simp_all add: set_conn_def)

lemma server_inv_conn: "server_inv s \<Longrightarrow> conns s i = Some c \<Longrightarrow> conn_inv c"
  by (auto simp: server_inv_def)

lemma server_inv_route:
  "server_inv s \<Longrightarrow> hm_get (registry s) u = Some i \<Longrightarrow>
     \<exists>c. conns s i = Some c \<and> c_uid c = Some u \<and> \<not> has_left (c_phase c)"
  by (auto simp: server_inv_def)

lemma server_inv_basic: "server_inv s \<Longrightarrow> hm_wf (registry s) \<and> chan_ok 256 (events s)"
  by (auto simp: server_inv_def)

lemma server_inv_init: "server_inv server_new"
  by (simp add: server_inv_def server_new_def)

text \<open>A step that replaces connection \<open>i\<close> keeps the invariant when the new connection is good and
  the routes of the new table are old routes of other connections or name \<open>i\<close> rightly.\<close>

lemma server_inv_update:
  assumes "server_inv s" and "conns t = (conns s)(i \<mapsto> c')"
    and "hm_wf (registry t)" and "chan_ok 256 (events t)" and "conn_inv c'"
    and "\<And>u j. hm_get (registry t) u = Some j \<Longrightarrow>
          j = i \<and> c_uid c' = Some u \<and> \<not> has_left (c_phase c')
          \<or> j \<noteq> i \<and> hm_get (registry s) u = Some j"
  shows "server_inv t"
  unfolding server_inv_def
proof (intro conjI allI impI)
  fix u j
  assume "hm_get (registry t) u = Some j"
  then show "\<exists>c. conns t j = Some c \<and> c_uid c = Some u \<and> \<not> has_left (c_phase c)"
    using assms(6) [of u j] assms(2) server_inv_route [OF assms(1)] by auto
next
  fix j c
  assume "conns t j = Some c"
  then show "conn_inv c"
    using assms(2,5) server_inv_conn [OF assms(1)] by (auto split: if_splits)
qed (use assms in auto)

text \<open>The common case: the table is untouched and the connection keeps its UID.\<close>

lemma server_inv_same_routes:
  assumes "server_inv s" and "conns s i = Some c" and "conns t = (conns s)(i \<mapsto> c')"
    and "registry t = registry s" and "chan_ok 256 (events t)" and "conn_inv c'"
    and "c_uid c' = c_uid c" and "has_left (c_phase c') \<Longrightarrow> has_left (c_phase c)"
  shows "server_inv t"
proof (rule server_inv_update [OF assms(1,3)])
  fix u j
  assume "hm_get (registry t) u = Some j"
  then have g: "hm_get (registry s) u = Some j" using assms(4) by simp
  from server_inv_route [OF assms(1) this] g assms(2,7,8)
  show "j = i \<and> c_uid c' = Some u \<and> \<not> has_left (c_phase c')
          \<or> j \<noteq> i \<and> hm_get (registry s) u = Some j"
    by auto
qed (use assms server_inv_basic in auto)

lemma server_inv_set_conn:
  assumes inv: "server_inv s" and "conns s i = Some c" and "conn_inv c'"
    and "c_uid c' = c_uid c" and "has_left (c_phase c') \<Longrightarrow> has_left (c_phase c)"
  shows "server_inv (set_conn i c' s)"
  by (rule server_inv_same_routes [OF assms(1,2), of _ c'])
    (use assms server_inv_basic [OF inv] in simp_all)

lemma server_inv_set_conn_events:
  assumes inv: "server_inv s" and "conns s i = Some c" and "conn_inv c'"
    and "c_uid c' = c_uid c" and "has_left (c_phase c') \<Longrightarrow> has_left (c_phase c)"
    and "chan_try_send e (events s) = Some ev'"
  shows "server_inv (set_conn i c' (s\<lparr>events := ev'\<rparr>))"
  by (rule server_inv_same_routes [OF assms(1,2), of _ c'])
    (use assms server_inv_basic [OF inv] chan_ok_try_send [OF _ assms(6)] in simp_all)

section \<open>Every step keeps it\<close>

lemma make_reply_simps [simp]:
  "s2a_instance_uid (make_reply offer uid caps first) = uid_bytes uid"
  "s2a_capabilities (make_reply offer uid caps first) = server_capabilities"
  "s2a_remote_config (make_reply offer uid caps first) = None"
  "s2a_command (make_reply offer uid caps first) = None"
  "s2a_connection_settings (make_reply offer uid caps first) =
     (case offer of Some endpoint \<Rightarrow>
        (if first \<and> reports_own_telemetry caps then Some (own_telemetry_offer endpoint) else None)
      | None \<Rightarrow> None)"
  by (auto simp: make_reply_def Let_def uid_to_vec_def server_to_agent_default_def
      split: option.splits)

lemma conn_inv_new: "conn_inv conn_new"
  by (simp add: conn_inv_def conn_new_def offers_def)

lemma conn_inv_finish:
  "conn_inv c \<Longrightarrow> phase_offers (c_phase c) = 0 \<or> True \<Longrightarrow> conn_inv (finish r c)"
  by (auto simp: conn_inv_def finish_def offers_def split: if_splits)

lemma conn_inv_after_event:
  "conn_inv c \<Longrightarrow> c_phase c = SendEvent uid a2s \<Longrightarrow> conn_inv (after_event offer uid a2s c)"
  by (auto simp: conn_inv_def after_event_def offers_def has_offer_def Let_def
      split: option.splits if_splits)

lemma conn_inv_after_write:
  "conn_inv c \<Longrightarrow> after_write (c_phase c) c = Some c' \<Longrightarrow>
     conn_inv c' \<and> c_uid c' = c_uid c \<and> \<not> has_left (c_phase c')"
  by (cases "c_phase c") (auto simp: conn_inv_def offers_def push_ok_def split: if_splits)

lemma conn_inv_push_recv:
  "conn_inv c \<Longrightarrow> c_phase c = Select \<Longrightarrow> chan_recv (c_push c) = Some (m, ch') \<Longrightarrow>
     conn_inv (c\<lparr>c_phase := SendPush m, c_push := ch'\<rparr>)"
  using chan_ok_recv [of 64 "c_push c" m ch'] chan_recv_buf [of "c_push c" m ch']
    chan_recv_open [of "c_push c" m ch']
  by (auto simp: conn_inv_def offers_def)

lemma conn_inv_try_send:
  "conn_inv c \<Longrightarrow> push_ok (c_uid c) m \<Longrightarrow> chan_try_send m (c_push c) = Some ch' \<Longrightarrow>
     conn_inv (c\<lparr>c_push := ch'\<rparr>)"
  using chan_ok_try_send [of 64 "c_push c" m ch'] chan_try_send_buf [of m "c_push c" ch']
    chan_try_send_open [of m "c_push c" ch']
  by (auto simp: conn_inv_def offers_def)

lemma push_ok_offer: "push_ok (Some uid) (config_offer d uid yaml)"
  and push_ok_restart: "push_ok (Some uid) (restart_command uid)"
  by (simp_all add: push_ok_def has_offer_def config_offer_def restart_command_def
      server_to_agent_default_def uid_to_vec_def)

lemma handle_push_inv:
  assumes inv: "server_inv s" and ok: "push_ok (Some uid) m"
    and push: "handle_push uid m s = (res, s')"
  shows "server_inv s'"
proof (cases "s' = s")
  case True
  with inv show ?thesis by simp
next
  case False
  then obtain i c ch where
    i: "hm_get (registry s) uid = Some i" and c: "conns s i = Some c"
    and ch: "chan_try_send m (c_push c) = Some ch"
    and s': "s' = s\<lparr>conns := (conns s)(i \<mapsto> c\<lparr>c_push := ch\<rparr>)\<rparr>"
    using push by (auto simp: handle_push_def registry_sender_def split: option.splits)
  from server_inv_route [OF inv i] c have "c_uid c = Some uid" by auto
  with conn_inv_try_send [OF server_inv_conn [OF inv c]] ok ch
  have "conn_inv (c\<lparr>c_push := ch\<rparr>)" by simp
  then show ?thesis
    using server_inv_same_routes [OF inv c, of s' "c\<lparr>c_push := ch\<rparr>"] s' server_inv_basic [OF inv]
    by simp
qed

lemma offer_remote_config_push:
  "offer_remote_config d uid yaml s = (res, s') \<Longrightarrow>
     \<exists>r. handle_push uid (config_offer d uid yaml) s = (r, s')"
  by (cases "handle_push uid (config_offer d uid yaml) s"; cases "fst (handle_push uid (config_offer d uid yaml) s)")
    (simp_all add: offer_remote_config_def Let_def)

lemma offer_inv: "server_inv s \<Longrightarrow> offer_remote_config d uid yaml s = (res, s') \<Longrightarrow> server_inv s'"
  by (drule offer_remote_config_push) (auto intro: handle_push_inv [OF _ push_ok_offer])

lemma restart_inv: "server_inv s \<Longrightarrow> send_restart uid s = (res, s') \<Longrightarrow> server_inv s'"
  by (auto simp: send_restart_def intro: handle_push_inv [OF _ push_ok_restart])

text \<open>What an item from the socket does to the connection and the table.\<close>

lemma on_read_binary:
  "on_read d fresh i (ReadOk (WsBinary data)) (reg, c) =
     (case framing_decode d (d_decode_a2s d) data of
        Inl _ \<Rightarrow> (reg, c)
      | Inr a2s \<Rightarrow>
          (let u = (case from_bytes (a2s_instance_uid a2s) of Some u \<Rightarrow> u | None \<Rightarrow> fresh)
           in if c_uid c = None
              then (hm_insert u i reg, c\<lparr>c_uid := Some u, c_phase := SendEvent u a2s\<rparr>)
              else (reg, c\<lparr>c_phase := SendEvent u a2s\<rparr>)))"
  by (cases "c_uid c") (simp_all add: on_read_def registry_insert_def Let_def split: sum.split)

lemma on_read_other:
  "on_read d fresh i ReadEnd (reg, c) = (reg, c\<lparr>c_phase := Closing\<rparr>)"
  "on_read d fresh i (ReadErr e) (reg, c) = (reg, finish (Inl (Ws e)) c)"
  "on_read d fresh i (ReadOk (WsPing p)) (reg, c) = (reg, c\<lparr>c_phase := SendPong p\<rparr>)"
  "on_read d fresh i (ReadOk (WsPong p)) (reg, c) = (reg, c)"
  "on_read d fresh i (ReadOk WsClose) (reg, c) = (reg, c\<lparr>c_phase := Closing\<rparr>)"
  "on_read d fresh i (ReadOk WsOther) (reg, c) = (reg, c)"
  by (simp_all add: on_read_def)

lemmas on_read_simps [simp] = on_read_binary on_read_other

lemma on_read_cases:
  assumes "on_read d fresh i r (reg, c) = (reg', c')"
  obtains
    (quiet) p where "reg' = reg" "c' = c\<lparr>c_phase := p\<rparr>"
      "p = c_phase c \<or> p = Closing \<or> (\<exists>b. p = SendPong b)"
  | (failed) e where "reg' = reg" "c' = finish (Inl e) c"
  | (named) u a2s where "c_uid c \<noteq> None" "reg' = reg" "c' = c\<lparr>c_phase := SendEvent u a2s\<rparr>"
  | (first) u a2s where "c_uid c = None" "reg' = hm_insert u i reg"
      "c' = c\<lparr>c_uid := Some u, c_phase := SendEvent u a2s\<rparr>"
proof -
  have idle: thesis if "reg' = reg" "c' = c"
    using that quiet [of "c_phase c"] by simp
  show thesis
  proof (cases r)
    case ReadEnd
    with assms show thesis using quiet [of Closing] by simp
  next
    case (ReadErr e)
    with assms show thesis using failed [of "Ws e"] by simp
  next
    case (ReadOk m)
    show thesis
    proof (cases m)
      case (WsBinary data)
      note eqs = assms [unfolded ReadOk WsBinary on_read_binary Let_def]
      show thesis
      proof (cases "framing_decode d (d_decode_a2s d) data")
        case (Inl e)
        with eqs show thesis by (intro idle) simp_all
      next
        case (Inr a2s)
        show thesis
        proof (cases "c_uid c")
          case None
          with eqs Inr show thesis by (intro first) auto
        next
          case (Some v)
          with eqs Inr show thesis by (intro named) auto
        qed
      qed
    next
      case (WsPing p)
      with ReadOk assms show thesis using quiet [of "SendPong p"] by simp
    next
      case WsClose
      with ReadOk assms show thesis using quiet [of Closing] by simp
    qed (use ReadOk assms idle in simp_all)
  qed
qed

lemma on_read_inv:
  assumes inv: "server_inv s" and c: "conns s i = Some c" and sel: "c_phase c = Select"
    and r: "on_read d fresh i r (registry s, c) = (reg', c')"
  shows "server_inv (set_conn i c' (s\<lparr>registry := reg'\<rparr>))"
  using r
proof (cases rule: on_read_cases)
  case (quiet p)
  then have "conn_inv c'"
    using server_inv_conn [OF inv c] sel by (auto simp: conn_inv_def offers_def)
  then show ?thesis
    using server_inv_set_conn [OF inv c, of c'] quiet sel by auto
next
  case (failed e)
  then have "conn_inv c'" using server_inv_conn [OF inv c] by (simp add: conn_inv_finish)
  then show ?thesis
    using server_inv_set_conn [OF inv c, of c'] failed by (simp add: finish_def)
next
  case (named u a2s)
  then have "conn_inv c'"
    using server_inv_conn [OF inv c] sel by (auto simp: conn_inv_def offers_def)
  then show ?thesis
    using server_inv_set_conn [OF inv c, of c'] named by simp
next
  case (first u a2s)
  have none: "hm_get (registry s) v \<noteq> Some i" for v
    using server_inv_route [OF inv, of v i] c first(1) by auto
  have "list_all (push_ok None) (ch_buf (c_push c))" "conn_inv c"
    using server_inv_conn [OF inv c] first(1) by (simp_all add: conn_inv_def)
  then have "ch_buf (c_push c) = []"
    by (cases "ch_buf (c_push c)") (simp_all add: push_ok_def)
  then have "conn_inv c'"
    using \<open>conn_inv c\<close> sel first(3) by (auto simp: conn_inv_def offers_def)
  then show ?thesis
    by (rule server_inv_update [OF inv, of _ i c', rotated 3])
      (use first none server_inv_basic [OF inv] in \<open>auto split: if_splits\<close>)
qed

lemma server_inv_step:
  assumes inv: "server_inv s" and step: "server_step d offer s l t"
  shows "server_inv t"
  using step
proof cases
  case (accept i)
  have none: "hm_get (registry s) v \<noteq> Some i" for v
    using server_inv_route [OF inv, of v i] accept by auto
  show ?thesis
    unfolding accept(2)
    by (rule server_inv_update [OF inv, of _ i conn_new])
      (use none conn_inv_new server_inv_basic [OF inv] in auto)
next
  case (handshake_ok i c)
  show ?thesis
    unfolding handshake_ok(2)
    by (rule server_inv_set_conn [OF inv handshake_ok(3)])
      (use handshake_ok server_inv_conn [OF inv handshake_ok(3)] in
        \<open>auto simp: conn_inv_def offers_def\<close>)
next
  case (handshake_err i c e)
  show ?thesis
    unfolding handshake_err(2)
    by (rule server_inv_set_conn [OF inv handshake_err(3)])
      (use conn_inv_finish server_inv_conn [OF inv handshake_err(3)] in \<open>auto simp: finish_def\<close>)
next
  case (read i c fresh r reg' c')
  then show ?thesis using on_read_inv [OF inv] by simp
next
  case (event_sent i c uid a2s ev')
  show ?thesis
    unfolding event_sent(2)
    by (rule server_inv_set_conn_events [OF inv event_sent(3) _ _ _ event_sent(5)])
      (use conn_inv_after_event [OF server_inv_conn [OF inv event_sent(3)] event_sent(4)] in
        \<open>auto simp: after_event_def Let_def\<close>)
next
  case (wrote i c c')
  show ?thesis
    unfolding wrote(2)
    by (rule server_inv_set_conn [OF inv wrote(3)])
      (use conn_inv_after_write [OF server_inv_conn [OF inv wrote(3)] wrote(4)] in auto)
next
  case (write_err i c e err)
  show ?thesis
    unfolding write_err(2)
    by (rule server_inv_set_conn [OF inv write_err(3)])
      (use conn_inv_finish server_inv_conn [OF inv write_err(3)] in \<open>auto simp: finish_def\<close>)
next
  case (push_recv i c m ch')
  show ?thesis
    unfolding push_recv(2)
    by (rule server_inv_set_conn [OF inv push_recv(3)])
      (use conn_inv_push_recv [OF server_inv_conn [OF inv push_recv(3)] push_recv(4,5)] in auto)
next
  case (deregister i c uid)
  have "conn_inv (c\<lparr>c_phase := SendGone uid\<rparr>)"
    using server_inv_conn [OF inv deregister(3)] deregister
    by (auto simp: conn_inv_def offers_def)
  then show ?thesis
    unfolding deregister(2)
    by (rule server_inv_update [OF inv, of _ i "c\<lparr>c_phase := SendGone uid\<rparr>", rotated 3])
      (use deregister server_inv_basic [OF inv] server_inv_route [OF inv] in
        \<open>fastforce simp: registry_remove_def split: if_splits\<close>)+
next
  case (unnamed i c)
  have none: "hm_get (registry s) v \<noteq> Some i" for v
    using server_inv_route [OF inv, of v i] unnamed by auto
  show ?thesis
    unfolding unnamed(2)
    by (rule server_inv_update [OF inv, of _ i "finish (Inr ()) c"])
      (use none conn_inv_finish server_inv_conn [OF inv unnamed(3)] server_inv_basic [OF inv] in auto)
next
  case (gone i c uid ev')
  show ?thesis
    unfolding gone(2)
    by (rule server_inv_set_conn_events [OF inv gone(3) _ _ _ gone(5)])
      (use gone conn_inv_finish server_inv_conn [OF inv gone(3)] in \<open>auto simp: finish_def\<close>)
next
  case (offer uid yaml res)
  then show ?thesis using offer_inv [OF inv] by simp
next
  case (restart uid res)
  then show ?thesis using restart_inv [OF inv] by simp
next
  case (take e ev')
  then show ?thesis
    using inv chan_ok_recv by (fastforce simp: server_inv_def)
qed

interpretation srv: invariant_system "server_step d offer" server_new server_inv for d offer
  by unfold_locales (use server_inv_init server_inv_step in auto)

section \<open>A sample run\<close>

text \<open>
  One agent with the UID of sixteen zero bytes connects and reports once. The states are given
  explicitly, so that the properties below can be applied to a reachable state.
\<close>

definition sample_uid :: instance_uid where
  "sample_uid = InstanceUid (replicate 16 0)"

definition sample_a2s :: agent_to_server where
  "sample_a2s = agent_to_server_default\<lparr>a2s_instance_uid := replicate 16 0\<rparr>"

definition sample_frame :: bytes where
  "sample_frame = framing_encode sample_deps (d_encode_a2s sample_deps) sample_a2s"

definition sample_conn :: conn where
  "sample_conn =
     \<lparr>c_uid = Some sample_uid, c_first = False, c_phase = Select, c_push = chan_new 64,
      c_out = [OutMsg (make_reply None sample_uid 0 True)]\<rparr>"

definition sample_server :: server where
  "sample_server =
     \<lparr>registry = [(sample_uid, 0)], conns = [0 \<mapsto> sample_conn],
      events = \<lparr>ch_cap = 256, ch_buf = [Message sample_uid sample_a2s], ch_open = True\<rparr>\<rparr>"

lemma framing_sample:
  "framing_decode sample_deps (d_decode_a2s sample_deps) sample_frame = Inr sample_a2s"
  unfolding sample_frame_def
  by (rule framing_roundtrip [OF varint_ok_sample])
    (simp add: sample_deps_def sample_a2s_def agent_to_server_default_def)

text \<open>The run needs a frame that decodes to the sample report, whatever the codecs.\<close>

lemma sample_reachable_of:
  assumes "framing_decode d (d_decode_a2s d) frame = Inr sample_a2s"
  shows "reachable (server_step d None) server_new sample_server"
proof -
  let ?c2 = "conn_new\<lparr>c_phase := Select\<rparr>"
  let ?c3 = "conn_new\<lparr>c_uid := Some sample_uid, c_phase := SendEvent sample_uid sample_a2s\<rparr>"
  let ?s1 = "set_conn 0 conn_new server_new" and ?s2 = "set_conn 0 ?c2 server_new"
  let ?s3 = "set_conn 0 ?c3 (server_new\<lparr>registry := [(sample_uid, 0)]\<rparr>)"
  let ?c4 = "after_event None sample_uid sample_a2s ?c3"
  let ?s4 = "set_conn 0 ?c4 (sample_server\<lparr>conns := Map.empty\<rparr>)"
  let ?step = "server_step d None"
  have "?step server_new (LAccept 0) ?s1"
    by (rule server_step.accept) (simp add: server_new_def)
  then have r1: "reachable ?step server_new ?s1"
    by (rule reach_step [OF reach_init])
  have "?step ?s1 (LHandshake 0 None) (set_conn 0 ?c2 ?s1)"
    by (rule server_step.handshake_ok) (simp_all add: conn_new_def)
  then have r2: "reachable ?step server_new ?s2"
    using reach_step [OF r1] by (simp add: set_conn_def)
  have "?step ?s2 (LRead 0 (ReadOk (WsBinary frame)) sample_uid)
      (set_conn 0 ?c3 (?s2\<lparr>registry := [(sample_uid, 0)]\<rparr>))"
    by (rule server_step.read [where c = ?c2])
      (simp_all add: assms conn_new_def server_new_def from_bytes_def sample_a2s_def
        sample_uid_def agent_to_server_default_def hm_defs Let_def)
  then have r3: "reachable ?step server_new ?s3"
    using reach_step [OF r2] by (simp add: set_conn_def)
  have "?step ?s3 (LEvent 0) (set_conn 0 ?c4 (?s3\<lparr>events := events sample_server\<rparr>))"
    by (rule server_step.event_sent [where c = ?c3])
      (simp_all add: chan_try_send_def server_new_def sample_server_def chan_new_def)
  then have r4: "reachable ?step server_new ?s4"
    using reach_step [OF r3] by (simp add: set_conn_def sample_server_def server_new_def)
  have "?step ?s4 (LWrote 0) (set_conn 0 sample_conn ?s4)"
    by (rule server_step.wrote [where c = ?c4])
      (simp_all add: after_event_def conn_new_def sample_conn_def sample_a2s_def
        agent_to_server_default_def Let_def)
  then show ?thesis
    using reach_step [OF r4] by (simp add: set_conn_def sample_server_def)
qed

lemma sample_reachable: "reachable (server_step sample_deps None) server_new sample_server"
  by (rule sample_reachable_of [OF framing_sample])

lemma sample_conns [simp]: "conns sample_server 0 = Some sample_conn"
  by (simp add: sample_server_def)

lemma sample_route [simp]: "hm_get (registry sample_server) sample_uid = Some 0"
  by (simp add: sample_server_def hm_defs)

section \<open>Properties\<close>

text \<open>
  C9: in every reachable state of the server, an agent UID in the routing table names a
  connection that registered under that UID and has not deregistered; so a connection that went
  through its clean-up is never routed to.
\<close>

theorem routes_are_live:
  assumes "reachable (server_step d offer) server_new s" "registry_sender uid (registry s) = Some i"
  shows "\<exists>c. conns s i = Some c \<and> c_uid c = Some uid
            \<and> (\<forall>u. c_phase c \<noteq> SendGone u) \<and> c_phase c \<noteq> Finished (Inr ())"
proof -
  have "server_inv s" using assms(1) by (rule srv.reachable_inv)
  from server_inv_route [OF this] assms(2) obtain c where
    "conns s i = Some c" "c_uid c = Some uid" "\<not> has_left (c_phase c)"
    by (auto simp: registry_sender_def)
  then show ?thesis by (cases "c_phase c") auto
qed

theorem routes_are_live_witness:
  "\<exists>c. conns sample_server 0 = Some c \<and> c_uid c = Some sample_uid
            \<and> (\<forall>u. c_phase c \<noteq> SendGone u) \<and> c_phase c \<noteq> Finished (Inr ())"
  by (rule routes_are_live [OF sample_reachable]) (simp add: registry_sender_def)



text \<open>
  C15: over the whole life of a connection, at most one message written to the agent carries a
  telemetry offer, whatever the agent sends and whatever is pushed to it; before the first reply
  there is none.
\<close>

theorem at_most_one_offer:
  assumes "reachable (server_step d offer) server_new s" "conns s i = Some c"
  shows "length (filter out_offer (c_out c)) \<le> (if c_first c then 0 else 1)"
  using server_inv_conn [OF srv.reachable_inv [OF assms(1)] assms(2)]
  by (auto simp: conn_inv_def offers_def split: if_splits)

theorem at_most_one_offer_witness:
  "length (filter out_offer (c_out sample_conn)) \<le> (if c_first sample_conn then 0 else 1)"
  by (rule at_most_one_offer [OF sample_reachable sample_conns])

end
