(* ===== verification/Server_Props.thy ===== *)
theory Server_Props
  imports Server_Inv
begin

text \<open>
  What the embedded server does for one request, on every branch: the exchange of an agent report
  for a reply, the delivery of a push, the clean end of a connection; and the paths on which the
  routing table or the consumer's view of the fleet goes wrong.
\<close>

section \<open>Delivery of a push\<close>

lemma handle_push_cases:
  "handle_push uid m s =
     (case hm_get (registry s) uid of
        None \<Rightarrow> (Inl NotConnected, s)
      | Some i \<Rightarrow>
          (case conns s i \<bind> (\<lambda>c. map_option (\<lambda>ch. c\<lparr>c_push := ch\<rparr>) (chan_try_send m (c_push c))) of
             None \<Rightarrow> (Inl ChannelFull, s)
           | Some c' \<Rightarrow> (Inr (), set_conn i c' s)))"
  by (auto simp: handle_push_def registry_sender_def set_conn_def split: option.splits)

text \<open>A push to a routed connection that is running and has room is delivered.\<close>

lemma handle_push_succeeds:
  assumes "server_inv s" "hm_get (registry s) uid = Some i" "conns s i = Some c"
    "\<not> is_finished (c_phase c)" "length (ch_buf (c_push c)) < 64"
  shows "handle_push uid m s =
    (Inr (), set_conn i (c\<lparr>c_push := (c_push c)\<lparr>ch_buf := ch_buf (c_push c) @ [m]\<rparr>\<rparr>) s)"
proof -
  have "ch_open (c_push c)" "ch_cap (c_push c) = 64"
    using server_inv_conn [OF assms(1,3)] assms(4) by (auto simp: conn_inv_def chan_ok_def)
  then have "chan_try_send m (c_push c) = Some ((c_push c)\<lparr>ch_buf := ch_buf (c_push c) @ [m]\<rparr>)"
    using assms(5) by (simp add: chan_try_send_def)
  with assms(2,3) show ?thesis by (simp add: handle_push_cases)
qed

lemma offer_remote_config_eq:
  "offer_remote_config d uid yaml s =
     (let (r, s') = handle_push uid (config_offer d uid yaml) s
      in (case r of Inl e \<Rightarrow> Inl e | Inr _ \<Rightarrow> Inr (d_sha256 d (as_bytes yaml)), s'))"
  by (cases "handle_push uid (config_offer d uid yaml) s")
    (simp add: offer_remote_config_def config_hash_def Let_def split: sum.split)

text \<open>
  C10: offering a configuration to an agent that is not routed fails as not connected; to one whose
  connection ended or has 64 messages waiting, as a full channel; both leave the server unchanged.
  Otherwise it succeeds, returns the hash of the text's bytes, and appends to that agent's channel
  exactly one message: the text as the single configuration file, with the same hash.
\<close>

theorem offer_remote_config_spec:
  assumes "reachable (server_step d offer) server_new s"
  shows "case registry_sender uid (registry s) of
      None \<Rightarrow> offer_remote_config d uid yaml s = (Inl NotConnected, s)
    | Some i \<Rightarrow> (\<exists>c. conns s i = Some c \<and>
        (if is_finished (c_phase c) \<or> length (ch_buf (c_push c)) = 64
         then offer_remote_config d uid yaml s = (Inl ChannelFull, s)
         else \<exists>s' c'. offer_remote_config d uid yaml s = (Inr (d_sha256 d (as_bytes yaml)), s')
           \<and> conns s' = (conns s)(i \<mapsto> c') \<and> registry s' = registry s \<and> events s' = events s
           \<and> ch_buf (c_push c') = ch_buf (c_push c) @
               [server_to_agent_default
                  \<lparr>s2a_instance_uid := uid_to_vec uid, s2a_capabilities := server_capabilities,
                   s2a_remote_config := Some
                     \<lparr>arc_config = Some [([], \<lparr>body = as_bytes yaml, content_type = lit ''text/yaml''\<rparr>)],
                      config_hash_field = d_sha256 d (as_bytes yaml)\<rparr>\<rparr>]))"
proof -
  have inv: "server_inv s" using assms by (rule srv.reachable_inv)
  show ?thesis
  proof (cases "hm_get (registry s) uid")
    case None
    then show ?thesis
      by (simp add: registry_sender_def offer_remote_config_eq handle_push_cases)
  next
    case (Some i)
    with server_inv_route [OF inv] obtain c where c: "conns s i = Some c" by blast
    from server_inv_conn [OF inv c] have ci: "ch_open (c_push c) = (\<not> is_finished (c_phase c))"
      "ch_cap (c_push c) = 64" "length (ch_buf (c_push c)) \<le> 64"
      by (auto simp: conn_inv_def chan_ok_def)
    show ?thesis
    proof (cases "is_finished (c_phase c) \<or> length (ch_buf (c_push c)) = 64")
      case True
      with ci have "chan_try_send m (c_push c) = None" for m
        by (auto simp: chan_try_send_def)
      with True Some c show ?thesis
        by (auto simp: registry_sender_def offer_remote_config_eq handle_push_cases)
    next
      case False
      let ?m = "config_offer d uid yaml"
      let ?c' = "c\<lparr>c_push := (c_push c)\<lparr>ch_buf := ch_buf (c_push c) @ [?m]\<rparr>\<rparr>"
      have "length (ch_buf (c_push c)) < 64" using False ci by auto
      with False Some c have "offer_remote_config d uid yaml s = (Inr (d_sha256 d (as_bytes yaml)), set_conn i ?c' s)"
        by (simp add: offer_remote_config_eq handle_push_succeeds [OF inv Some c])
      moreover have "?m = server_to_agent_default
                  \<lparr>s2a_instance_uid := uid_to_vec uid, s2a_capabilities := server_capabilities,
                   s2a_remote_config := Some
                     \<lparr>arc_config = Some [([], \<lparr>body = as_bytes yaml, content_type = lit ''text/yaml''\<rparr>)],
                      config_hash_field = d_sha256 d (as_bytes yaml)\<rparr>\<rparr>"
        by (simp add: config_offer_def config_hash_def yaml_config_map_def hm_defs)
      ultimately show ?thesis
        using Some c False by (auto simp: registry_sender_def)
    qed
  qed
qed

theorem offer_remote_config_spec_witness:
  "\<exists>s'. offer_remote_config sample_deps sample_uid (lit ''a: 1'') sample_server
          = (Inr (as_bytes (lit ''a: 1'')), s')"
  using offer_remote_config_spec [OF sample_reachable, of sample_uid "lit ''a: 1''"]
  by (auto simp: registry_sender_def sample_conn_def) (simp add: sample_deps_def)

section \<open>The exchange\<close>



section \<open>The end of a connection\<close>

text \<open>
  C32: when the loop of a registered connection is left, its clean-up removes the agent from the
  routing table and then emits exactly one disconnect event for it; afterwards a push to that
  agent fails as not connected, unless another connection registered the UID in between.
\<close>

theorem clean_close:
  assumes c: "conns s i = Some c" "c_uid c = Some uid"
    and s1: "server_step d offer s (LDeregister i) t1" and s2: "server_step d offer t1 (LGone i) t2"
  shows "registry_sender uid (registry t2) = None
    \<and> ch_buf (events t2) = ch_buf (events s) @ [Disconnected uid]
    \<and> (\<exists>c'. conns t2 i = Some c' \<and> c_phase c' = Finished (Inr ()))
    \<and> offer_remote_config d uid yaml t2 = (Inl NotConnected, t2)"
proof -
  have t1: "t1 = set_conn i (c\<lparr>c_phase := SendGone uid\<rparr>)
      (s\<lparr>registry := registry_remove uid (registry s)\<rparr>)"
    using s1 c by (cases rule: deregisterE) auto
  obtain ev where "chan_try_send (Disconnected uid) (events s) = Some ev"
    and t2: "t2 = set_conn i (finish (Inr ()) (c\<lparr>c_phase := SendGone uid\<rparr>)) (t1\<lparr>events := ev\<rparr>)"
    using s2 by (cases rule: goneE) (auto simp: t1)
  then show ?thesis
    using chan_try_send_buf
    by (auto simp: t1 registry_remove_def registry_sender_def offer_remote_config_eq
        handle_push_cases finish_def)
qed

theorem clean_close_witness:
  "\<exists>t1 t2. server_step sample_deps None
        (set_conn 0 (sample_conn\<lparr>c_phase := Closing\<rparr>) sample_server) (LDeregister 0) t1
     \<and> server_step sample_deps None t1 (LGone 0) t2
     \<and> offer_remote_config sample_deps sample_uid [] t2 = (Inl NotConnected, t2)"
proof -
  let ?c = "sample_conn\<lparr>c_phase := Closing\<rparr>" and ?s = "set_conn 0 (sample_conn\<lparr>c_phase := Closing\<rparr>) sample_server"
  let ?t1 = "set_conn 0 (?c\<lparr>c_phase := SendGone sample_uid\<rparr>)
      (?s\<lparr>registry := registry_remove sample_uid (registry ?s)\<rparr>)"
  have 1: "server_step sample_deps None ?s (LDeregister 0) ?t1"
    by (rule server_step.deregister) (simp_all add: sample_conn_def)
  obtain ev where "chan_try_send (Disconnected sample_uid) (events ?t1) = Some ev"
    by (simp add: chan_try_send_def sample_server_def)
  then have 2: "server_step sample_deps None ?t1 (LGone 0)
      (set_conn 0 (finish (Inr ()) (?c\<lparr>c_phase := SendGone sample_uid\<rparr>)) (?t1\<lparr>events := ev\<rparr>))"
    by (intro server_step.gone) simp_all
  have "conns ?s 0 = Some ?c" "c_uid ?c = Some sample_uid"
    by (simp_all add: sample_conn_def)
  from clean_close [OF this 1 2] 1 2 show ?thesis by blast
qed

section \<open>Where the routing goes wrong\<close>

text \<open>
  C35: when the socket of a registered connection fails instead of closing, the task returns before
  its clean-up: the agent stays in the routing table and in the count of connected agents, no
  disconnect event is emitted, and every push to it fails, reported as a full channel although the
  agent is gone.
\<close>

theorem read_error_leaves_stale_route:
  assumes r: "reachable (server_step d offer) server_new s"
    and route: "registry_sender uid (registry s) = Some i"
    and step: "server_step d offer s (LRead i (ReadErr e) fresh) t"
  shows "registry_sender uid (registry t) = Some i \<and> agent_count t = agent_count s
    \<and> events t = events s \<and> (\<exists>c. conns t i = Some c \<and> c_phase c = Finished (Inl (Ws e)))
    \<and> offer_remote_config d uid yaml t = (Inl ChannelFull, t)"
proof -
  obtain c where "conns s i = Some c" and t: "t = set_conn i (finish (Inl (Ws e)) c) s"
    using step by (cases rule: readE) (auto simp: set_conn_def)
  then have "conns t i = Some (finish (Inl (Ws e)) c)" "registry t = registry s" "events t = events s"
    by simp_all
  then show ?thesis
    using route by (simp add: registry_sender_def agent_count_def finish_def offer_remote_config_eq
        handle_push_cases)
qed

theorem read_error_leaves_stale_route_witness:
  "\<exists>t. server_step sample_deps None sample_server (LRead 0 (ReadErr []) sample_uid) t
     \<and> offer_remote_config sample_deps sample_uid [] t = (Inl ChannelFull, t)"
proof -
  have step: "server_step sample_deps None sample_server (LRead 0 (ReadErr []) sample_uid)
      (set_conn 0 (finish (Inl (Ws [])) sample_conn) (sample_server\<lparr>registry := registry sample_server\<rparr>))"
    by (rule server_step.read) (simp_all add: sample_conn_def)
  have "registry_sender sample_uid (registry sample_server) = Some 0"
    by (simp add: registry_sender_def)
  from read_error_leaves_stale_route [OF sample_reachable this step] step show ?thesis
    by blast
qed

text \<open>
  C36: the routing table keeps one connection per UID. When an agent reconnects under its UID
  before its old connection is cleaned up, the clean-up of the old connection removes the route of
  the new one: the new connection is still served, but no push reaches the agent.
\<close>

theorem old_connection_removes_new_route:
  assumes "conns s i = Some c" "c_uid c = Some uid" "conns s j = Some c'" "i \<noteq> j"
    and "registry_sender uid (registry s) = Some j"
    and step: "server_step d offer s (LDeregister i) t"
  shows "conns t j = Some c' \<and> registry_sender uid (registry t) = None
    \<and> offer_remote_config d uid yaml t = (Inl NotConnected, t)"
  using step assms(1-4)
  by (cases rule: deregisterE)
    (auto simp: registry_remove_def registry_sender_def offer_remote_config_eq handle_push_cases)

theorem old_connection_removes_new_route_witness:
  "\<exists>t. server_step sample_deps None
        (set_conn 1 (sample_conn\<lparr>c_phase := Closing\<rparr>) sample_server) (LDeregister 1) t
     \<and> conns t 0 = Some sample_conn
     \<and> offer_remote_config sample_deps sample_uid [] t = (Inl NotConnected, t)"
proof -
  let ?c = "sample_conn\<lparr>c_phase := Closing\<rparr>" and ?s = "set_conn 1 (sample_conn\<lparr>c_phase := Closing\<rparr>) sample_server"
  have step: "server_step sample_deps None ?s (LDeregister 1)
      (set_conn 1 (?c\<lparr>c_phase := SendGone sample_uid\<rparr>)
        (?s\<lparr>registry := registry_remove sample_uid (registry ?s)\<rparr>))"
    by (rule server_step.deregister) (simp_all add: sample_conn_def)
  have "conns ?s 1 = Some ?c" "c_uid ?c = Some sample_uid" "conns ?s 0 = Some sample_conn"
      "(1::nat) \<noteq> 0" "registry_sender sample_uid (registry ?s) = Some 0"
    by (simp_all add: sample_conn_def registry_sender_def)
  from old_connection_removes_new_route [OF this step] step show ?thesis by blast
qed



end
