(* ===== verification/F64.thy ===== *)
theory F64
  imports Opamp_Proto
begin

text \<open>
  The one floating-point operation the telemetry path computes with: Rust's \<open>i as f64\<close>, the
  conversion of a 64-bit integer to an IEEE double, rounding to nearest with ties to even. Doubles
  are their bit patterns everywhere else: the program stores and copies them.
\<close>

function bit_len :: "int \<Rightarrow> nat" where
  "bit_len n = (if n \<le> 0 then 0 else Suc (bit_len (n div 2)))"
  by pat_completeness auto
termination
  by (relation "measure nat") auto

declare bit_len.simps [simp del]

text \<open>The double with the given sign, biased exponent and 52 bits of fraction.\<close>

definition f64_bits :: "bool \<Rightarrow> nat \<Rightarrow> int \<Rightarrow> f64" where
  "f64_bits neg e m = word_of_int ((if neg then 2 ^ 63 else 0) + int e * 2 ^ 52 + m)"

text \<open>Round \<open>m\<close> divided by \<open>2 ^ k\<close> to the nearest integer, ties to even.\<close>

definition round_shift :: "nat \<Rightarrow> int \<Rightarrow> int" where
  "round_shift k m =
     (let q = m div 2 ^ k; r = m mod 2 ^ k
      in if 2 ^ k < 2 * r \<or> (2 * r = 2 ^ k \<and> odd q) then q + 1 else q)"

definition f64_of_int :: "int \<Rightarrow> f64" where
  "f64_of_int i =
     (if i = 0 then 0
      else let m = \<bar>i\<bar>; e = bit_len m - 1
           in if e \<le> 52 then f64_bits (i < 0) (e + 1023) (m * 2 ^ (52 - e) - 2 ^ 52)
              else let q = round_shift (e - 52) m
                   in if q = 2 ^ 53 then f64_bits (i < 0) (e + 1024) 0
                      else f64_bits (i < 0) (e + 1023) (q - 2 ^ 52))"

definition i64_as_f64 :: "i64 \<Rightarrow> f64" where
  "i64_as_f64 i = f64_of_int (sint i)"

section \<open>Reading a double back\<close>

definition f64_neg :: "f64 \<Rightarrow> bool" where
  "f64_neg w \<longleftrightarrow> 2 ^ 63 \<le> uint w"

definition f64_exp :: "f64 \<Rightarrow> nat" where
  "f64_exp w = nat (uint w div 2 ^ 52 mod 2 ^ 11)"

definition f64_mant :: "f64 \<Rightarrow> int" where
  "f64_mant w = uint w mod 2 ^ 52"

text \<open>
  The integer a double stands for, when its exponent is not below that of 1 and the value is whole:
  the significand times a power of two, divided by \<open>2 ^ 52\<close>.
\<close>

definition f64_to_int :: "f64 \<Rightarrow> int" where
  "f64_to_int w =
     (if w = 0 then 0
      else (if f64_neg w then - 1 else 1)
             * ((2 ^ 52 + f64_mant w) * 2 ^ (f64_exp w - 1023) div 2 ^ 52))"

lemma bit_len_bounds: "0 < n \<Longrightarrow> 0 < bit_len n \<and> 2 ^ (bit_len n - 1) \<le> n \<and> n < 2 ^ bit_len n"
proof (induction n rule: bit_len.induct)
  case (1 n)
  show ?case
  proof (cases "n div 2 = 0")
    case True
    with "1.prems" have "n = 1" by auto
    then show ?thesis by (simp add: bit_len.simps)
  next
    case False
    with "1.prems" have "0 < n div 2" by auto
    with 1 have IH: "0 < bit_len (n div 2)" "2 ^ (bit_len (n div 2) - 1) \<le> n div 2"
      "n div 2 < 2 ^ bit_len (n div 2)"
      by auto
    have b: "bit_len n = Suc (bit_len (n div 2))"
      using "1.prems" by (simp add: bit_len.simps [of n])
    obtain k where k: "bit_len (n div 2) = Suc k"
      using IH(1) by (cases "bit_len (n div 2)") auto
    have "2 * 2 ^ k \<le> n" "n < 2 * (2 * 2 ^ k)"
      using IH(2,3) by (simp_all add: k)
    then show ?thesis by (simp add: b k)
  qed
qed

lemma div_mod_pack:
  fixes k m c :: int
  assumes "0 \<le> m" "m < c"
  shows "(k * c + m) div c = k" "(k * c + m) mod c = m"
  using assms by (simp_all add: div_pos_pos_trivial)

lemma uint_f64_bits:
  assumes "e < 2048" "0 \<le> m" "m < 2 ^ 52"
  shows "uint (f64_bits neg e m) = ((if neg then 2048 else 0) + int e) * 2 ^ 52 + m"
proof -
  have "int e \<le> 2047" using assms by simp
  then have "0 \<le> (if neg then 2 ^ 63 else 0) + int e * 2 ^ 52 + m"
    and "(if neg then 2 ^ 63 else 0) + int e * 2 ^ 52 + m < 2 ^ 64"
    using assms by auto
  then have "uint (f64_bits neg e m) = (if neg then 2 ^ 63 else 0) + int e * 2 ^ 52 + m"
    unfolding f64_bits_def by (simp only: uint_word_of_int) (rule mod_pos_pos_trivial, simp_all)
  then show ?thesis by (cases neg) (simp_all add: algebra_simps)
qed

lemma f64_bits_fields:
  assumes "e < 2048" "0 \<le> m" "m < 2 ^ 52"
  shows "f64_neg (f64_bits neg e m) = neg" "f64_exp (f64_bits neg e m) = e"
    "f64_mant (f64_bits neg e m) = m"
proof -
  let ?k = "(if neg then 2048 else 0) + int e"
  have u: "uint (f64_bits neg e m) = ?k * 2 ^ 52 + m"
    using uint_f64_bits [OF assms] .
  have "int e \<le> 2047" using assms by simp
  then show "f64_neg (f64_bits neg e m) = neg"
    unfolding f64_neg_def u using assms by (cases neg) auto
  have "?k mod 2 ^ 11 = int e"
    using assms by (cases neg) simp_all
  then show "f64_exp (f64_bits neg e m) = e"
    unfolding f64_exp_def u div_mod_pack(1) [OF assms(2,3)] by simp
  show "f64_mant (f64_bits neg e m) = m"
    unfolding f64_mant_def u by (rule div_mod_pack(2) [OF assms(2,3)])
qed

section \<open>Properties\<close>

text \<open>The fields of the double of an integer below $2^{53}$: no bit of it is lost.\<close>

lemma f64_of_int_fields:
  assumes "\<bar>i\<bar> < 2 ^ 53" "i \<noteq> 0"
  obtains e where "e \<le> 52" "f64_neg (f64_of_int i) = (i < 0)" "f64_exp (f64_of_int i) = e + 1023"
    "f64_mant (f64_of_int i) = \<bar>i\<bar> * 2 ^ (52 - e) - 2 ^ 52" "(2::int) ^ e * 2 ^ (52 - e) = 2 ^ 52"
proof -
  define m where "m = \<bar>i\<bar>"
  define e where "e = bit_len m - 1"
  have m: "0 < m" "m < 2 ^ 53" using assms by (auto simp: m_def)
  obtain k where k: "bit_len m = Suc k"
    using bit_len_bounds [OF m(1)] by (cases "bit_len m") auto
  then have be: "2 ^ e \<le> m" "m < 2 * 2 ^ e"
    using bit_len_bounds [OF m(1)] by (simp_all add: e_def)
  have e52: "e \<le> 52"
  proof (rule ccontr)
    assume "\<not> e \<le> 52"
    then have "(2::int) ^ 53 \<le> 2 ^ e" by (intro power_increasing) auto
    with be m show False by linarith
  qed
  let ?s = "m * 2 ^ (52 - e)"
  have p: "(2::int) ^ e * 2 ^ (52 - e) = 2 ^ 52"
    using e52 by (simp only: flip: power_add) simp
  have lo: "2 ^ 52 \<le> ?s" and hi: "?s < 2 * 2 ^ 52"
    using mult_right_mono [OF be(1), of "2 ^ (52 - e)"]
      mult_strict_right_mono [OF be(2), of "2 ^ (52 - e)"]
    by (simp_all only: p mult.assoc) simp_all
  have w: "f64_of_int i = f64_bits (i < 0) (e + 1023) (?s - 2 ^ 52)"
    using assms(2) e52 by (simp add: f64_of_int_def Let_def e_def m_def)
  have "f64_neg (f64_of_int i) = (i < 0)" "f64_exp (f64_of_int i) = e + 1023"
      "f64_mant (f64_of_int i) = ?s - 2 ^ 52"
    unfolding w using f64_bits_fields [of "e + 1023" "?s - 2 ^ 52" "i < 0"] e52 lo hi
    by simp_all
  with e52 p that show ?thesis by (simp add: m_def)
qed

text \<open>
  An integer metric of magnitude below $2^{53}$ is stored without loss: the double the store
  keeps for it stands for exactly that integer.
\<close>

theorem f64_of_int_exact:
  assumes "\<bar>i\<bar> < 2 ^ 53"
  shows "f64_to_int (f64_of_int i) = i"
proof (cases "i = 0")
  case True
  then show ?thesis by (simp add: f64_of_int_def f64_to_int_def)
next
  case False
  obtain e where e: "e \<le> 52" "f64_neg (f64_of_int i) = (i < 0)" "f64_exp (f64_of_int i) = e + 1023"
    "f64_mant (f64_of_int i) = \<bar>i\<bar> * 2 ^ (52 - e) - 2 ^ 52" "(2::int) ^ e * 2 ^ (52 - e) = 2 ^ 52"
    using f64_of_int_fields [OF assms False] .
  have nz: "f64_of_int i \<noteq> 0"
    using e(3) by (auto simp: f64_exp_def)
  have "\<bar>i\<bar> * 2 ^ (52 - e) * 2 ^ e = \<bar>i\<bar> * 2 ^ 52"
    using e(5) by (simp only: ac_simps)
  then have "\<bar>i\<bar> * 2 ^ (52 - e) * 2 ^ e div 2 ^ 52 = \<bar>i\<bar> * 2 ^ 52 div 2 ^ 52"
    by (simp only:)
  also have "\<dots> = \<bar>i\<bar>" by simp
  finally have "\<bar>i\<bar> * 2 ^ (52 - e) * 2 ^ e div 2 ^ 52 = \<bar>i\<bar>" .
  then show ?thesis
    using nz e by (simp add: f64_to_int_def)
qed

theorem f64_of_int_exact_witness: "f64_to_int (f64_of_int (- 1840)) = - 1840"
  by (rule f64_of_int_exact) simp

end
