(* ===== verification/Telemetry.thy ===== *)
theory Telemetry
  imports F64
begin

text \<open>
  The telemetry store of \<open>crates/otelc-otlp/src\<close>: the data model (\<open>model.rs\<close>), the store and its
  ingestion of OTLP export requests (\<open>store.rs\<close>), which the gRPC endpoints of \<open>receiver.rs\<close> call
  with the request they received. The OTLP messages come from the \<open>opentelemetry-proto\<close> crate; the
  records below hold the fields the store reads. Rust's decimal rendering of a double is the
  parameter \<open>fmt\<close>.
\<close>

section \<open>OTLP requests\<close>

datatype otlp_value =
    OStringValue rstring | OBoolValue bool | OIntValue i64 | ODoubleValue f64
  | OBytesValue | OArrayValue | OKvlistValue | OOtherValue

type_synonym otlp_any = "otlp_value option"  \<comment> \<open>\<open>AnyValue { value }\<close>\<close>

record otlp_kv =
  okv_key :: rstring
  okv_value :: "otlp_any option"

record resource =
  attributes :: "otlp_kv list"

datatype number_value = AsDouble f64 | AsInt i64

record number_data_point =
  dp_time_unix_nano :: u64
  dp_value :: "number_value option"

datatype metric_data =
    Gauge "number_data_point list" | Sum "number_data_point list"
  | OtherData  \<comment> \<open>histograms and summaries\<close>

record metric =
  m_name :: rstring
  m_unit :: rstring
  m_data :: "metric_data option"

record resource_metrics =
  rm_resource :: "resource option"
  scope_metrics :: "metric list list"

record log_record =
  lr_time_unix_nano :: u64
  severity_number :: i32
  severity_text :: rstring
  lr_body :: "otlp_any option"

record resource_logs =
  rl_resource :: "resource option"
  scope_logs :: "log_record list list"

record resource_spans =
  rs_resource :: "resource option"
  scope_spans :: "unit list list"  \<comment> \<open>spans are counted only\<close>

section \<open>The data model\<close>

record metric_point =
  mp_name :: rstring
  mp_value :: f64
  mp_unit :: rstring
  mp_time_unix_nano :: u64

record log_line =
  ll_time_unix_nano :: u64
  ll_severity :: rstring
  ll_body :: rstring

record agent_telemetry =
  metrics :: "metric_point list"
  logs :: "log_line list"
  span_count :: u64

definition agent_telemetry_default :: agent_telemetry where
  "agent_telemetry_default = \<lparr>metrics = [], logs = [], span_count = 0\<rparr>"

text \<open>
  \<open>latest_metrics\<close>: a map from names to the last point seen, its values in the map's iteration
  order, stably sorted by name.
\<close>

definition latest_by_name :: "metric_point list \<Rightarrow> (rstring, metric_point) hashmap" where
  "latest_by_name ps = fold (\<lambda>p seen. hm_insert (mp_name p) p seen) ps hm_empty"

definition latest_metrics :: "agent_telemetry \<Rightarrow> metric_point list" where
  "latest_metrics t = sort_key mp_name (map snd (latest_by_name (metrics t)))"

section \<open>Reading a request\<close>

definition any_value_string :: "(f64 \<Rightarrow> rstring) \<Rightarrow> otlp_any \<Rightarrow> rstring" where
  "any_value_string fmt v =
     (case v of
        Some (OStringValue s) \<Rightarrow> s
      | Some (OBoolValue b) \<Rightarrow> bool_to_string b
      | Some (OIntValue i) \<Rightarrow> int_to_string (sint i)
      | Some (ODoubleValue d) \<Rightarrow> fmt d
      | Some OBytesValue \<Rightarrow> lit ''<bytes>''
      | Some OArrayValue \<Rightarrow> lit ''<array>''
      | Some OKvlistValue \<Rightarrow> lit ''<kvlist>''
      | Some _ \<Rightarrow> lit ''<value>''
      | None \<Rightarrow> [])"

definition severity_label :: "i32 \<Rightarrow> rstring" where
  "severity_label number =
     (let n = sint number in
      if 1 \<le> n \<and> n \<le> 4 then lit ''TRACE''
      else if 5 \<le> n \<and> n \<le> 8 then lit ''DEBUG''
      else if 9 \<le> n \<and> n \<le> 12 then lit ''INFO''
      else if 13 \<le> n \<and> n \<le> 16 then lit ''WARN''
      else if 17 \<le> n \<and> n \<le> 20 then lit ''ERROR''
      else if 21 \<le> n \<and> n \<le> 24 then lit ''FATAL''
      else lit ''UNSET'')"

definition number_val :: "number_data_point \<Rightarrow> f64" where
  "number_val dp =
     (case dp_value dp of
        Some (AsDouble d) \<Rightarrow> d
      | Some (AsInt i) \<Rightarrow> i64_as_f64 i
      | None \<Rightarrow> 0)"

text \<open>The loop over the attributes, with its early return; \<open>name\<close> is the \<open>service.name\<close> so far.\<close>

fun resource_key_loop :: "(f64 \<Rightarrow> rstring) \<Rightarrow> otlp_kv list \<Rightarrow> rstring option \<Rightarrow> rstring" where
  "resource_key_loop fmt [] name = (case name of Some n \<Rightarrow> n | None \<Rightarrow> lit ''unknown'')"
| "resource_key_loop fmt (kv # kvs) name =
     (case okv_value kv of
        Some v \<Rightarrow>
          (let text = any_value_string fmt v in
           if okv_key kv = lit ''service.instance.id'' then text
           else if okv_key kv = lit ''service.name'' then resource_key_loop fmt kvs (Some text)
           else resource_key_loop fmt kvs name)
      | None \<Rightarrow> resource_key_loop fmt kvs name)"

definition resource_key :: "(f64 \<Rightarrow> rstring) \<Rightarrow> resource option \<Rightarrow> rstring" where
  "resource_key fmt r =
     (case r of None \<Rightarrow> lit ''unknown'' | Some r \<Rightarrow> resource_key_loop fmt (attributes r) None)"

section \<open>The store\<close>

type_synonym telemetry_store = "(rstring, agent_telemetry) hashmap"

definition store_new :: telemetry_store where
  "store_new = hm_empty"

definition max_metrics :: nat where
  "max_metrics = 4000"

definition max_logs :: nat where
  "max_logs = 2000"

text \<open>\<open>while buf.len() > max { buf.pop_front(); }\<close>\<close>

function evict :: "nat \<Rightarrow> 'a list \<Rightarrow> 'a list" where
  "evict n xs = (if n < length xs then evict n (tl xs) else xs)"
  by pat_completeness auto
termination
  by (relation "measure (\<lambda>(n, xs). length xs)") auto

declare evict.simps [simp del]

definition snapshot :: "telemetry_store \<Rightarrow> rstring \<Rightarrow> agent_telemetry option" where
  "snapshot store key = hm_get store key"

definition store_keys :: "telemetry_store \<Rightarrow> rstring list" where
  "store_keys store = hm_keys store"

definition entry_or_default :: "telemetry_store \<Rightarrow> rstring \<Rightarrow> agent_telemetry" where
  "entry_or_default store key =
     (case hm_get store key of Some t \<Rightarrow> t | None \<Rightarrow> agent_telemetry_default)"

definition metric_points :: "metric \<Rightarrow> number_data_point list" where
  "metric_points m =
     (case m_data m of Some (Gauge ps) \<Rightarrow> ps | Some (Sum ps) \<Rightarrow> ps | _ \<Rightarrow> [])"

definition push_metric :: "metric \<Rightarrow> number_data_point \<Rightarrow> agent_telemetry \<Rightarrow> agent_telemetry" where
  "push_metric m dp t = t\<lparr>metrics := metrics t @
     [\<lparr>mp_name = m_name m, mp_value = number_val dp, mp_unit = m_unit m,
       mp_time_unix_nano = dp_time_unix_nano dp\<rparr>]\<rparr>"

definition ingest_resource_metrics ::
    "(f64 \<Rightarrow> rstring) \<Rightarrow> resource_metrics \<Rightarrow> telemetry_store \<Rightarrow> telemetry_store" where
  "ingest_resource_metrics fmt rm agents =
     (let key = resource_key fmt (rm_resource rm);
          t = entry_or_default agents key;
          t = fold (\<lambda>sm. fold (\<lambda>m. fold (push_metric m) (metric_points m)) sm) (scope_metrics rm) t;
          t = t\<lparr>metrics := evict max_metrics (metrics t)\<rparr>
      in hm_insert key t agents)"

definition ingest_metrics ::
    "(f64 \<Rightarrow> rstring) \<Rightarrow> resource_metrics list \<Rightarrow> telemetry_store \<Rightarrow> telemetry_store" where
  "ingest_metrics fmt req agents = fold (ingest_resource_metrics fmt) req agents"

definition push_log :: "(f64 \<Rightarrow> rstring) \<Rightarrow> log_record \<Rightarrow> agent_telemetry \<Rightarrow> agent_telemetry" where
  "push_log fmt r t =
     (let severity = (if severity_text r = [] then severity_label (severity_number r)
                      else severity_text r);
          body = (case lr_body r of Some v \<Rightarrow> any_value_string fmt v | None \<Rightarrow> [])
      in t\<lparr>logs := logs t @
           [\<lparr>ll_time_unix_nano = lr_time_unix_nano r, ll_severity = severity, ll_body = body\<rparr>]\<rparr>)"

definition ingest_resource_logs ::
    "(f64 \<Rightarrow> rstring) \<Rightarrow> resource_logs \<Rightarrow> telemetry_store \<Rightarrow> telemetry_store" where
  "ingest_resource_logs fmt rl agents =
     (let key = resource_key fmt (rl_resource rl);
          t = entry_or_default agents key;
          t = fold (\<lambda>sl. fold (push_log fmt) sl) (scope_logs rl) t;
          t = t\<lparr>logs := evict max_logs (logs t)\<rparr>
      in hm_insert key t agents)"

definition ingest_logs ::
    "(f64 \<Rightarrow> rstring) \<Rightarrow> resource_logs list \<Rightarrow> telemetry_store \<Rightarrow> telemetry_store" where
  "ingest_logs fmt req agents = fold (ingest_resource_logs fmt) req agents"

definition ingest_resource_spans ::
    "(f64 \<Rightarrow> rstring) \<Rightarrow> resource_spans \<Rightarrow> telemetry_store \<Rightarrow> telemetry_store" where
  "ingest_resource_spans fmt rs agents =
     (let key = resource_key fmt (rs_resource rs);
          t = entry_or_default agents key;
          count = sum_list (map length (scope_spans rs))
      in hm_insert key (t\<lparr>span_count := span_count t + of_nat count\<rparr>) agents)"

definition ingest_traces ::
    "(f64 \<Rightarrow> rstring) \<Rightarrow> resource_spans list \<Rightarrow> telemetry_store \<Rightarrow> telemetry_store" where
  "ingest_traces fmt req agents = fold (ingest_resource_spans fmt) req agents"

end
