(* ===== verification/Control.thy ===== *)
theory Control
  imports Telemetry Server
begin

text \<open>
  The control-plane abstraction of \<open>crates/otelc-tui/src/control/mod.rs\<close> (the view of the fleet,
  the events the UI consumes, the trait \<open>ControlPlane\<close>) and its external implementation
  (\<open>external.rs\<close>). An \<open>Instant\<close> is a number; \<open>Instant::now()\<close> is an argument of the function that
  calls it. A trait object is a record of its methods over the implementation's state; the locale
  \<open>command_plane\<close> is the contract the UI relies on.
\<close>

section \<open>The view of an agent\<close>

type_synonym instant = nat

datatype health_node =
  HealthNode (hn_name: rstring) (hn_healthy: bool) (hn_status: rstring) (hn_last_error: rstring)
    (hn_children: "health_node list")

record remote_status =
  rs_state :: rstring
  rs_error :: rstring

record agent_detail =
  ad_uid :: rstring
  ad_name :: rstring
  ad_version :: rstring
  ad_healthy :: bool
  ad_status :: rstring
  ad_identifying :: "(rstring \<times> rstring) list"
  ad_non_identifying :: "(rstring \<times> rstring) list"
  ad_capabilities :: "(rstring \<times> bool) list"
  ad_effective_config :: rstring
  ad_health :: "health_node option"
  ad_remote_status :: "remote_status option"
  ad_start_time_unix_nano :: u64
  ad_sequence_num :: u64
  ad_connected_at :: instant
  ad_last_seen :: instant

definition agent_detail_new :: "instant \<Rightarrow> rstring \<Rightarrow> agent_detail" where
  "agent_detail_new now uid =
     \<lparr>ad_uid = uid, ad_name = uid, ad_version = [], ad_healthy = True, ad_status = [],
      ad_identifying = [], ad_non_identifying = [], ad_capabilities = [],
      ad_effective_config = [], ad_health = None, ad_remote_status = None,
      ad_start_time_unix_nano = 0, ad_sequence_num = 0,
      ad_connected_at = now, ad_last_seen = now\<rparr>"

section \<open>Events\<close>

record metric_row =
  mr_name :: rstring
  mr_value :: f64
  mr_unit :: rstring

record log_row =
  lrow_time_unix_nano :: u64
  lrow_severity :: rstring
  lrow_body :: rstring

record telemetry_snapshot =
  ts_metrics :: "metric_row list"
  ts_logs :: "log_row list"
  ts_span_count :: u64

definition telemetry_snapshot_default :: telemetry_snapshot where
  "telemetry_snapshot_default = \<lparr>ts_metrics = [], ts_logs = [], ts_span_count = 0\<rparr>"

datatype control_event =
    AgentUpserted agent_detail
  | AgentDisconnected rstring
  | TelemetryEvent rstring telemetry_snapshot
  | Notice rstring

section \<open>The trait\<close>

record 'c control_plane =
  cp_mode :: rstring
  cp_endpoint :: "'c \<Rightarrow> rstring"
  cp_push_config :: "rstring \<Rightarrow> rstring \<Rightarrow> 'c \<Rightarrow> (rstring, unit) result \<times> 'c"
  cp_restart :: "rstring \<Rightarrow> 'c \<Rightarrow> (rstring, unit) result \<times> 'c"

datatype command = PushCommand rstring rstring | RestartCommand rstring

fun run_command :: "'c control_plane \<Rightarrow> command \<Rightarrow> 'c \<Rightarrow> (rstring, unit) result \<times> 'c" where
  "run_command cp (PushCommand uid yaml) c = cp_push_config cp uid yaml c"
| "run_command cp (RestartCommand uid) c = cp_restart cp uid c"

text \<open>A command that fails has no effect, and no command changes the endpoint shown.\<close>

locale command_plane =
  fixes cp :: "'c control_plane"
  assumes push_failed: "cp_push_config cp uid yaml c = (Inl e, c') \<Longrightarrow> c' = c"
    and restart_failed: "cp_restart cp uid c = (Inl e, c') \<Longrightarrow> c' = c"
    and push_endpoint: "cp_endpoint cp (snd (cp_push_config cp uid yaml c)) = cp_endpoint cp c"
    and restart_endpoint: "cp_endpoint cp (snd (cp_restart cp uid c)) = cp_endpoint cp c"
begin

lemma command_failed: "run_command cp cmd c = (Inl e, c') \<Longrightarrow> c' = c"
  by (cases cmd) (auto dest: push_failed restart_failed)

lemma command_endpoint: "cp_endpoint cp (snd (run_command cp cmd c)) = cp_endpoint cp c"
  by (cases cmd) (simp_all add: push_endpoint restart_endpoint)

lemma commands_endpoint:
  "cp_endpoint cp (fold (\<lambda>cmd c. snd (run_command cp cmd c)) cmds c) = cp_endpoint cp c"
  by (induction cmds arbitrary: c) (simp_all add: command_endpoint)

end

section \<open>The external control plane\<close>

record external =
  ext_url :: rstring

definition external_notice :: "rstring \<Rightarrow> rstring" where
  "external_notice url =
     lit ''External mode targets '' @ url @
     lit ''. OpAMP defines no standard server-to-console API, so a backend-specific adapter must be supplied (see docs/design/dld.md). This build ships no adapter '' @ [8212] @
     lit '' use embedded mode for a live fleet.''"

definition external_start :: "rstring \<Rightarrow> external \<times> control_event list" where
  "external_start url = (\<lparr>ext_url = url\<rparr>, [Notice (external_notice url)])"

definition external_cp :: "external control_plane" where
  "external_cp =
     \<lparr>cp_mode = lit ''external'', cp_endpoint = ext_url,
      cp_push_config = (\<lambda>uid yaml c. (Inl (lit ''external mode needs a backend-specific adapter''), c)),
      cp_restart = (\<lambda>uid c. (Inl (lit ''external mode needs a backend-specific adapter''), c))\<rparr>"

interpretation ext: command_plane external_cp
  by unfold_locales (simp_all add: external_cp_def)

text \<open>
  In external mode every command, in every state and whatever came before it, is refused with
  the message that an adapter is missing and changes nothing.
\<close>

lemma external_refuses:
  "run_command external_cp cmd (fold (\<lambda>cmd c. snd (run_command external_cp cmd c)) cmds c)
     = (Inl (lit ''external mode needs a backend-specific adapter''), c)"
proof -
  have "run_command external_cp cmd c
      = (Inl (lit ''external mode needs a backend-specific adapter''), c)" for cmd c
    by (cases cmd) (simp_all add: external_cp_def)
  then show ?thesis by (induction cmds) simp_all
qed

end
