(* ===== verification/Embedded.thy ===== *)
theory Embedded
  imports Control
begin

text \<open>
  The embedded control plane of \<open>crates/otelc-tui/src/control/embedded.rs\<close>: the translation of
  the server's events into snapshots of every agent (\<open>translate\<close>, \<open>merge\<close> and their helpers), the
  telemetry poll, and the commands. \<open>fmt\<close> is Rust's rendering of a double.
\<close>

section \<open>Merging a report\<close>

fun health_node :: "rstring \<Rightarrow> component_health \<Rightarrow> health_node" where
  "health_node name (ComponentHealth healthy start_time last_error status status_time cmap) =
     HealthNode name healthy status last_error
       (sort_key hn_name (map (\<lambda>(k, v). health_node k v) cmap))"

definition anyvalue_string :: "(f64 \<Rightarrow> rstring) \<Rightarrow> any_value \<Rightarrow> rstring" where
  "anyvalue_string fmt v =
     (case av_value v of
        Some (StringValue s) \<Rightarrow> s
      | Some (BoolValue b) \<Rightarrow> bool_to_string b
      | Some (IntValue i) \<Rightarrow> int_to_string (sint i)
      | Some (DoubleValue x) \<Rightarrow> fmt x
      | _ \<Rightarrow> [])"

definition kv_pairs :: "(f64 \<Rightarrow> rstring) \<Rightarrow> key_value list \<Rightarrow> (rstring \<times> rstring) list" where
  "kv_pairs fmt attrs =
     map (\<lambda>kv. (kv_key kv,
                case kv_value kv of Some v \<Rightarrow> anyvalue_string fmt v | None \<Rightarrow> [])) attrs"

definition attr :: "(rstring \<times> rstring) list \<Rightarrow> rstring \<Rightarrow> rstring option" where
  "attr pairs key = map_option snd (find (\<lambda>(k, _). k = key) pairs)"

definition display_name ::
    "(rstring \<times> rstring) list \<Rightarrow> (rstring \<times> rstring) list \<Rightarrow> rstring \<Rightarrow> rstring" where
  "display_name identifying non_identifying uid =
     (case attr non_identifying (lit ''host.name'') of
        Some n \<Rightarrow> n
      | None \<Rightarrow> (case attr identifying (lit ''service.name'') of
                   Some n \<Rightarrow> n
                 | None \<Rightarrow> rsplit_next 45 uid))"

text \<open>The separator is a newline, three dashes and a newline.\<close>

definition config_separator :: rstring where
  "config_separator = 10 # lit ''---'' @ [10]"

definition extract_config :: "effective_config_msg \<Rightarrow> rstring" where
  "extract_config effective =
     (case ec_config_map effective of
        None \<Rightarrow> []
      | Some m \<Rightarrow>
          (case hm_get m [] of
             Some file \<Rightarrow> from_utf8_lossy (body file)
           | None \<Rightarrow> join config_separator (map (\<lambda>(_, f). from_utf8_lossy (body f)) m)))"

definition remote_status_label :: "i32 \<Rightarrow> rstring" where
  "remote_status_label status =
     (if status = remote_config_statuses_i32 Applied then lit ''APPLIED''
      else if status = remote_config_statuses_i32 Applying then lit ''APPLYING''
      else if status = remote_config_statuses_i32 Failed then lit ''FAILED''
      else lit ''UNSET'')"

definition merge_description ::
    "(f64 \<Rightarrow> rstring) \<Rightarrow> agent_description option \<Rightarrow> agent_detail \<Rightarrow> agent_detail" where
  "merge_description fmt desc a =
     (case desc of
        None \<Rightarrow> a
      | Some ad \<Rightarrow>
          (let a = a\<lparr>ad_identifying := kv_pairs fmt (identifying_attributes ad)\<rparr>;
               a = a\<lparr>ad_non_identifying := kv_pairs fmt (non_identifying_attributes ad)\<rparr>;
               a = a\<lparr>ad_name := display_name (ad_identifying a) (ad_non_identifying a) (ad_uid a)\<rparr>
           in a\<lparr>ad_version := (case attr (ad_identifying a) (lit ''service.version'') of
                                 Some v \<Rightarrow> v | None \<Rightarrow> [])\<rparr>))"

definition merge_health :: "component_health option \<Rightarrow> agent_detail \<Rightarrow> agent_detail" where
  "merge_health h a =
     (case h of
        None \<Rightarrow> a
      | Some health \<Rightarrow>
          a\<lparr>ad_healthy := ch_healthy health, ad_status := ch_status health,
            ad_start_time_unix_nano := ch_start_time_unix_nano health,
            ad_health := Some (health_node (lit ''agent'') health)\<rparr>)"

definition merge_effective :: "effective_config_msg option \<Rightarrow> agent_detail \<Rightarrow> agent_detail" where
  "merge_effective e a =
     (case e of None \<Rightarrow> a | Some effective \<Rightarrow> a\<lparr>ad_effective_config := extract_config effective\<rparr>)"

definition merge_remote :: "remote_config_status_msg option \<Rightarrow> agent_detail \<Rightarrow> agent_detail" where
  "merge_remote r a =
     (case r of
        None \<Rightarrow> a
      | Some remote \<Rightarrow>
          a\<lparr>ad_remote_status := Some \<lparr>rs_state = remote_status_label (rcs_status remote),
                                     rs_error = error_message remote\<rparr>\<rparr>)"

definition merge :: "(f64 \<Rightarrow> rstring) \<Rightarrow> instant \<Rightarrow> agent_to_server \<Rightarrow> agent_detail \<Rightarrow> agent_detail" where
  "merge fmt now msg a =
     (let a = a\<lparr>ad_last_seen := now, ad_sequence_num := a2s_sequence_num msg,
                ad_capabilities := describe (a2s_capabilities msg)\<rparr>;
          a = merge_description fmt (a2s_agent_description msg) a;
          a = merge_health (a2s_health msg) a;
          a = merge_effective (a2s_effective_config msg) a
      in merge_remote (a2s_remote_config_status msg) a)"

section \<open>Translation\<close>

text \<open>
  The task's own map and the UID map it shares with the commands. \<open>t0\<close> and \<open>t1\<close> are the readings
  of the clock in \<open>AgentDetail::new\<close> and in \<open>merge\<close>.
\<close>

record translator =
  details :: "(instance_uid, agent_detail) hashmap"
  uids :: "(rstring, instance_uid) hashmap"

definition translator_new :: translator where
  "translator_new = \<lparr>details = hm_empty, uids = hm_empty\<rparr>"

fun translate ::
    "deps \<Rightarrow> (f64 \<Rightarrow> rstring) \<Rightarrow> instant \<Rightarrow> instant \<Rightarrow> opamp_event \<Rightarrow> translator
       \<Rightarrow> control_event \<times> translator" where
  "translate d fmt t0 t1 (Message uid msg) s =
     (let s = s\<lparr>uids := hm_insert (uid_to_string d uid) uid (uids s)\<rparr>;
          detail = (case hm_get (details s) uid of
                      Some a \<Rightarrow> a | None \<Rightarrow> agent_detail_new t0 (uid_to_string d uid));
          detail = merge fmt t1 msg detail
      in (AgentUpserted detail, s\<lparr>details := hm_insert uid detail (details s)\<rparr>))"
| "translate d fmt t0 t1 (Disconnected uid) s =
     (let s = s\<lparr>details := hm_remove uid (details s)\<rparr>;
          s = s\<lparr>uids := hm_remove (uid_to_string d uid) (uids s)\<rparr>
      in (AgentDisconnected (uid_to_string d uid), s))"

section \<open>The telemetry poll\<close>

definition telemetry_snapshot_of :: "agent_telemetry \<Rightarrow> telemetry_snapshot" where
  "telemetry_snapshot_of agent =
     \<lparr>ts_metrics = map (\<lambda>m. \<lparr>mr_name = mp_name m, mr_value = mp_value m, mr_unit = mp_unit m\<rparr>)
        (latest_metrics agent),
      ts_logs = map (\<lambda>l. \<lparr>lrow_time_unix_nano = ll_time_unix_nano l,
          lrow_severity = ll_severity l, lrow_body = ll_body l\<rparr>) (take 300 (rev (logs agent))),
      ts_span_count = span_count agent\<rparr>"

text \<open>
  One round over the keys read at its start; \<open>snap\<close> is what the store answers when the round
  reaches a key. The round sends these events, in this order.
\<close>

definition poll_telemetry ::
    "rstring list \<Rightarrow> (rstring \<Rightarrow> agent_telemetry option) \<Rightarrow> control_event list" where
  "poll_telemetry keys snap =
     List.map_filter
       (\<lambda>key. map_option (\<lambda>agent. TelemetryEvent key (telemetry_snapshot_of agent)) (snap key)) keys"

section \<open>Commands\<close>

record embedded =
  emb_addr :: rstring  \<comment> \<open>the handle's local address, displayed\<close>
  emb_server :: server
  emb_translator :: translator

definition embedded_endpoint :: "embedded \<Rightarrow> rstring" where
  "embedded_endpoint c = lit ''ws://'' @ emb_addr c @ lit ''/v1/opamp''"

definition embedded_push_config ::
    "deps \<Rightarrow> rstring \<Rightarrow> rstring \<Rightarrow> embedded \<Rightarrow> (rstring, unit) result \<times> embedded" where
  "embedded_push_config d uid yaml c =
     (case hm_get (uids (emb_translator c)) uid of
        None \<Rightarrow> (Inl (lit ''agent is not connected''), c)
      | Some instance_uid \<Rightarrow>
          (case offer_remote_config d instance_uid yaml (emb_server c) of
             (Inl e, s) \<Rightarrow> (Inl (send_error_display e), c\<lparr>emb_server := s\<rparr>)
           | (Inr _, s) \<Rightarrow> (Inr (), c\<lparr>emb_server := s\<rparr>)))"

definition embedded_restart ::
    "rstring \<Rightarrow> embedded \<Rightarrow> (rstring, unit) result \<times> embedded" where
  "embedded_restart uid c =
     (case hm_get (uids (emb_translator c)) uid of
        None \<Rightarrow> (Inl (lit ''agent is not connected''), c)
      | Some instance_uid \<Rightarrow>
          (case send_restart instance_uid (emb_server c) of
             (Inl e, s) \<Rightarrow> (Inl (send_error_display e), c\<lparr>emb_server := s\<rparr>)
           | (Inr _, s) \<Rightarrow> (Inr (), c\<lparr>emb_server := s\<rparr>)))"

definition embedded_cp :: "deps \<Rightarrow> embedded control_plane" where
  "embedded_cp d =
     \<lparr>cp_mode = lit ''embedded'', cp_endpoint = embedded_endpoint,
      cp_push_config = embedded_push_config d, cp_restart = embedded_restart\<rparr>"

end
