(* ===== verification/Telemetry_Props.thy ===== *)
theory Telemetry_Props
  imports Telemetry
begin

text \<open>
  What the telemetry store keeps: the bounded buffers as ring buffers, the content of every
  agent's entry after any request, the size bounds over any sequence of exports, and the newest
  value per metric, independently of the hash map's iteration order.
\<close>

section \<open>Ring buffers\<close>

definition last_n :: "nat \<Rightarrow> 'a list \<Rightarrow> 'a list" where
  "last_n n xs = drop (length xs - n) xs"

lemma last_n_short [simp]: "length xs \<le> n \<Longrightarrow> last_n n xs = xs"
  by (simp add: last_n_def)

lemma length_last_n: "length (last_n n xs) = min n (length xs)"
  by (auto simp: last_n_def)

lemma last_n_append: "last_n n (last_n n xs @ ys) = last_n n (xs @ ys)"
proof (cases "length xs \<le> n")
  case False
  then have "length xs - (length xs - n) = n" "length xs - n + (length ys - 0) = length xs + length ys - n"
    by simp_all
  with False show ?thesis by (simp add: last_n_def add.commute)
qed simp

lemma last_n_append_short: "length ys \<le> n \<Longrightarrow> last_n n (xs @ ys) = last_n (n - length ys) xs @ ys"
  by (simp add: last_n_def)

lemma last_n_map: "last_n n (map f xs) = map f (last_n n xs)"
  by (simp add: last_n_def drop_map)

lemma evict_last_n: "evict n xs = last_n n xs"
proof (induction n xs rule: evict.induct)
  case (1 n xs)
  show ?case
  proof (cases "n < length xs")
    case True
    then have "evict n xs = last_n n (tl xs)"
      using 1 by (simp add: evict.simps [of n xs])
    also have "\<dots> = last_n n xs"
      using True by (cases xs) (auto simp: last_n_def Suc_diff_le)
    finally show ?thesis .
  next
    case False
    then show ?thesis by (simp add: evict.simps [of n xs])
  qed
qed

text \<open>
  A buffer that appends at one end and is trimmed to its newest \<open>cap\<close> items after each batch.
\<close>

locale ring_buffer =
  fixes push :: "'e \<Rightarrow> 'b \<Rightarrow> 'b"
    and trim :: "'b \<Rightarrow> 'b"
    and items :: "'b \<Rightarrow> 'i list"
    and item :: "'e \<Rightarrow> 'i"
    and cap :: nat
  assumes items_push: "items (push x b) = items b @ [item x]"
    and items_trim: "items (trim b) = last_n cap (items b)"
begin

definition batch :: "'e list \<Rightarrow> 'b \<Rightarrow> 'b" where
  "batch xs b = trim (fold push xs b)"

lemma items_fold: "items (fold push xs b) = items b @ map item xs"
  by (induction xs arbitrary: b) (simp_all add: items_push)

lemma items_batch: "items (batch xs b) = last_n cap (items b @ map item xs)"
  by (simp add: batch_def items_trim items_fold)

lemma batch_bounded: "length (items (batch xs b)) \<le> cap"
  by (simp add: items_batch length_last_n)

text \<open>Trimming after every batch keeps what trimming once at the end would keep.\<close>

lemma items_batches:
  "length (items b) \<le> cap \<Longrightarrow>
     items (fold batch xss b) = last_n cap (items b @ map item (concat xss))"
proof (induction xss arbitrary: b)
  case Nil
  then show ?case by simp
next
  case (Cons xs xss)
  have "items (fold batch (xs # xss) b) = last_n cap (items (batch xs b) @ map item (concat xss))"
    using Cons.IH [OF batch_bounded] by simp
  then show ?case
    by (simp add: items_batch last_n_append)
qed

end

fun metric_item :: "metric \<times> number_data_point \<Rightarrow> metric_point" where
  "metric_item (m, dp) = \<lparr>mp_name = m_name m, mp_value = number_val dp, mp_unit = m_unit m,
     mp_time_unix_nano = dp_time_unix_nano dp\<rparr>"

definition log_item :: "(f64 \<Rightarrow> rstring) \<Rightarrow> log_record \<Rightarrow> log_line" where
  "log_item fmt r =
     \<lparr>ll_time_unix_nano = lr_time_unix_nano r,
      ll_severity = (if severity_text r = [] then severity_label (severity_number r)
                     else severity_text r),
      ll_body = (case lr_body r of Some v \<Rightarrow> any_value_string fmt v | None \<Rightarrow> [])\<rparr>"

definition trim_metrics :: "agent_telemetry \<Rightarrow> agent_telemetry" where
  "trim_metrics t = t\<lparr>metrics := evict max_metrics (metrics t)\<rparr>"

definition trim_logs :: "agent_telemetry \<Rightarrow> agent_telemetry" where
  "trim_logs t = t\<lparr>logs := evict max_logs (logs t)\<rparr>"

interpretation mb: ring_buffer "\<lambda>(m, dp). push_metric m dp" trim_metrics metrics metric_item max_metrics
  by unfold_locales (auto simp: push_metric_def trim_metrics_def evict_last_n)

interpretation lb: ring_buffer "push_log fmt" trim_logs logs "log_item fmt" max_logs for fmt
  by unfold_locales (simp_all add: push_log_def trim_logs_def log_item_def evict_last_n Let_def)

section \<open>One resource\<close>

definition points_of :: "resource_metrics \<Rightarrow> (metric \<times> number_data_point) list" where
  "points_of rm = concat (map (\<lambda>m. map (Pair m) (metric_points m)) (concat (scope_metrics rm)))"

lemma fold_push_metric:
  "fold (\<lambda>sm. fold (\<lambda>m. fold (push_metric m) (metric_points m)) sm) (scope_metrics rm) t
     = fold (\<lambda>(m, dp). push_metric m dp) (points_of rm) t"
proof -
  have one: "fold (push_metric m) ps t = fold (\<lambda>(m, dp). push_metric m dp) (map (Pair m) ps) t"
    for m ps t by (induction ps arbitrary: t) simp_all
  have scope: "fold (\<lambda>m. fold (push_metric m) (metric_points m)) sm t
      = fold (\<lambda>(m, dp). push_metric m dp) (concat (map (\<lambda>m. map (Pair m) (metric_points m)) sm)) t"
    for sm t by (induction sm arbitrary: t) (simp_all add: one)
  have "fold (\<lambda>sm. fold (\<lambda>m. fold (push_metric m) (metric_points m)) sm) sms t
      = fold (\<lambda>(m, dp). push_metric m dp)
          (concat (map (\<lambda>m. map (Pair m) (metric_points m)) (concat sms))) t" for sms t
    by (induction sms arbitrary: t) (simp_all add: scope)
  then show ?thesis by (simp add: points_of_def)
qed

lemma fold_push_log: "fold (\<lambda>sl. fold (push_log fmt) sl) sls t = fold (push_log fmt) (concat sls) t"
  by (induction sls arbitrary: t) simp_all

lemma ingest_resource_metrics_eq:
  "ingest_resource_metrics fmt rm s =
     (let key = resource_key fmt (rm_resource rm)
      in hm_insert key (mb.batch (points_of rm) (entry_or_default s key)) s)"
  by (simp add: ingest_resource_metrics_def fold_push_metric mb.batch_def trim_metrics_def Let_def)

lemma ingest_resource_logs_eq:
  "ingest_resource_logs fmt rl s =
     (let key = resource_key fmt (rl_resource rl)
      in hm_insert key (lb.batch fmt (concat (scope_logs rl)) (entry_or_default s key)) s)"
  by (simp add: ingest_resource_logs_def fold_push_log lb.batch_def trim_logs_def Let_def)

lemma entry_or_default_insert:
  "entry_or_default (hm_insert k t s) k' = (if k' = k then t else entry_or_default s k')"
  by (simp add: entry_or_default_def)

text \<open>A buffer operation leaves the other fields of the entry alone.\<close>

lemma push_metrics_frame:
  "logs (fold (\<lambda>(m, dp). push_metric m dp) xs t) = logs t
   \<and> span_count (fold (\<lambda>(m, dp). push_metric m dp) xs t) = span_count t"
  by (induction xs arbitrary: t) (auto simp: push_metric_def)

lemma push_logs_frame:
  "metrics (fold (push_log fmt) xs t) = metrics t
   \<and> span_count (fold (push_log fmt) xs t) = span_count t"
  by (induction xs arbitrary: t) (auto simp: push_log_def Let_def)

lemma batch_metrics_eq:
  "mb.batch xs t = t\<lparr>metrics := last_n max_metrics (metrics t @ map metric_item xs)\<rparr>"
  using mb.items_batch [of xs t] push_metrics_frame [of xs t]
  by (intro agent_telemetry.equality) (simp_all add: mb.batch_def trim_metrics_def)

lemma batch_logs_eq:
  "lb.batch fmt xs t = t\<lparr>logs := last_n max_logs (logs t @ map (log_item fmt) xs)\<rparr>"
  using lb.items_batch [of fmt xs t] push_logs_frame [of fmt xs t]
  by (intro agent_telemetry.equality) (simp_all add: lb.batch_def trim_logs_def)

section \<open>The store's invariant\<close>

definition telemetry_ok :: "agent_telemetry \<Rightarrow> bool" where
  "telemetry_ok t \<longleftrightarrow> length (metrics t) \<le> max_metrics \<and> length (logs t) \<le> max_logs"

definition store_inv :: "telemetry_store \<Rightarrow> bool" where
  "store_inv s \<longleftrightarrow> hm_wf s \<and> (\<forall>k t. hm_get s k = Some t \<longrightarrow> telemetry_ok t)"

lemma store_inv_empty: "store_inv hm_empty"
  by (simp add: store_inv_def)

lemma entry_ok: "store_inv s \<Longrightarrow> telemetry_ok (entry_or_default s k)"
  by (auto simp: store_inv_def entry_or_default_def telemetry_ok_def agent_telemetry_default_def
      split: option.split)

lemma store_inv_insert: "store_inv s \<Longrightarrow> telemetry_ok t \<Longrightarrow> store_inv (hm_insert k t s)"
  by (auto simp: store_inv_def split: if_splits)

lemma telemetry_ok_batches:
  "telemetry_ok t \<Longrightarrow> telemetry_ok (mb.batch xs t)"
  "telemetry_ok t \<Longrightarrow> telemetry_ok (lb.batch fmt ys t)"
  "telemetry_ok t \<Longrightarrow> telemetry_ok (t\<lparr>span_count := n\<rparr>)"
  by (simp_all add: telemetry_ok_def batch_metrics_eq batch_logs_eq length_last_n)

lemma ingest_resource_inv:
  "store_inv s \<Longrightarrow> store_inv (ingest_resource_metrics fmt rm s)"
  "store_inv s \<Longrightarrow> store_inv (ingest_resource_logs fmt rl s)"
  "store_inv s \<Longrightarrow> store_inv (ingest_resource_spans fmt rs s)"
  by (simp_all add: ingest_resource_metrics_eq ingest_resource_logs_eq ingest_resource_spans_def
      Let_def store_inv_insert telemetry_ok_batches entry_ok)

lemma fold_inv: "(\<And>x s. P s \<Longrightarrow> P (f x s)) \<Longrightarrow> P s \<Longrightarrow> P (fold f xs s)"
  by (induction xs arbitrary: s) auto

section \<open>The receiver's endpoints\<close>

text \<open>An export call: each endpoint hands its request to the store and answers with the default.\<close>

datatype export_request =
    ExportMetrics "resource_metrics list" | ExportLogs "resource_logs list"
  | ExportTraces "resource_spans list"

fun export :: "(f64 \<Rightarrow> rstring) \<Rightarrow> export_request \<Rightarrow> telemetry_store \<Rightarrow> telemetry_store option" where
  "export fmt (ExportMetrics req) s = Some (ingest_metrics fmt req s)"
| "export fmt (ExportLogs req) s = Some (ingest_logs fmt req s)"
| "export fmt (ExportTraces req) s = Some (ingest_traces fmt req s)"

interpretation store: safe_machine "export fmt" store_inv "\<lambda>_. True" for fmt
proof
  fix s e
  assume "store_inv s"
  then show "\<exists>s'. export fmt e s = Some s' \<and> store_inv s'"
    by (cases e)
      (auto simp: ingest_metrics_def ingest_logs_def ingest_traces_def
        intro!: fold_inv [of store_inv] ingest_resource_inv)
qed

text \<open>Concrete requests for the witnesses below.\<close>

definition sample_metric :: metric where
  "sample_metric = \<lparr>m_name = lit ''cpu'', m_unit = lit ''1'', m_data = Some (Gauge
     [\<lparr>dp_time_unix_nano = 7, dp_value = Some (AsInt 3)\<rparr>])\<rparr>"

definition sample_metrics :: "resource_metrics list" where
  "sample_metrics = [\<lparr>rm_resource = None, scope_metrics = [[sample_metric]]\<rparr>]"

definition sample_logs :: "resource_logs list" where
  "sample_logs = [\<lparr>rl_resource = None, scope_logs = [[
     \<lparr>lr_time_unix_nano = 9, severity_number = 17, severity_text = [], lr_body = None\<rparr>]]\<rparr>]"

definition sample_log_line :: log_line where
  "sample_log_line = \<lparr>ll_time_unix_nano = 9, ll_severity = lit ''ERROR'', ll_body = []\<rparr>"

section \<open>Properties\<close>

text \<open>
  C19: whatever sequence of export requests the receiver gets, no agent's entry ever holds more
  than 4000 metric points or 2000 log records.
\<close>

theorem telemetry_bounded:
  assumes "run (export fmt) reqs hm_empty = Some s" "snapshot s key = Some t"
  shows "length (metrics t) \<le> 4000 \<and> length (logs t) \<le> 2000"
proof -
  have "store_inv s"
    using store.run_inv [OF store_inv_empty _ assms(1)] by (simp add: list_all_iff)
  with assms(2) show ?thesis
    by (auto simp: store_inv_def snapshot_def telemetry_ok_def max_metrics_def max_logs_def)
qed

lemma telemetry_bounded_witness:
  "\<exists>s t. run (export (\<lambda>_. [])) [ExportMetrics sample_metrics, ExportLogs sample_logs] hm_empty = Some s
     \<and> snapshot s (lit ''unknown'') = Some t
     \<and> length (metrics t) \<le> 4000 \<and> length (logs t) \<le> 2000 \<and> logs t = [sample_log_line]"
proof -
  obtain s where s: "run (export (\<lambda>_. [])) [ExportMetrics sample_metrics, ExportLogs sample_logs]
      hm_empty = Some s" by simp
  obtain t where t: "snapshot s (lit ''unknown'') = Some t" "logs t = [sample_log_line]"
    using s by (auto simp: sample_metrics_def sample_logs_def sample_log_line_def ingest_metrics_def
        ingest_logs_def ingest_resource_metrics_def ingest_resource_logs_def resource_key_def
        snapshot_def evict.simps max_logs_def push_log_def entry_or_default_def Let_def
        agent_telemetry_default_def severity_label_def sample_metric_def metric_points_def
        push_metric_def)
  show ?thesis using telemetry_bounded [OF s t(1)] s t by blast
qed

text \<open>
  C20: a metrics request appends, for each agent key, the points of that agent's resources in the
  order of the request and keeps the newest 4000; gauges and sums give one point per data point,
  other metrics none; logs, span counts and the entries of agents without a resource in the
  request are untouched.
\<close>

theorem ingest_metrics_spec:
  assumes "store_inv s"
  shows "entry_or_default (ingest_metrics fmt req s) key =
    (entry_or_default s key)\<lparr>metrics := last_n max_metrics
       (metrics (entry_or_default s key) @ map metric_item
          (concat (map points_of (filter (\<lambda>rm. resource_key fmt (rm_resource rm) = key) req))))\<rparr>"
  using assms
proof (induction req arbitrary: s)
  case Nil
  then show ?case
    using entry_ok [of s key] by (simp add: ingest_metrics_def telemetry_ok_def)
next
  case (Cons rm req)
  have step: "entry_or_default (ingest_resource_metrics fmt rm s) key =
      (if key = resource_key fmt (rm_resource rm)
       then mb.batch (points_of rm) (entry_or_default s key) else entry_or_default s key)"
    by (simp add: ingest_resource_metrics_eq entry_or_default_insert Let_def)
  have "ingest_metrics fmt (rm # req) s = ingest_metrics fmt req (ingest_resource_metrics fmt rm s)"
    by (simp add: ingest_metrics_def)
  with Cons.IH [OF ingest_resource_inv(1) [OF Cons.prems], of fmt rm] step show ?case
    by (auto simp: batch_metrics_eq last_n_append)
qed

lemma ingest_metrics_spec_witness:
  "metrics (entry_or_default (ingest_metrics (\<lambda>_. []) sample_metrics hm_empty) (lit ''unknown'')) =
     [\<lparr>mp_name = lit ''cpu'', mp_value = i64_as_f64 3, mp_unit = lit ''1'', mp_time_unix_nano = 7\<rparr>]"
  using ingest_metrics_spec [OF store_inv_empty, of "\<lambda>_. []" sample_metrics "lit ''unknown''"]
  by (simp add: sample_metrics_def sample_metric_def resource_key_def points_of_def number_val_def
      metric_points_def entry_or_default_def agent_telemetry_default_def max_metrics_def)

text \<open>
  A logs request likewise appends each agent's records in order and keeps the newest 2000; the
  severity is the record's text, or the label of its number when the text is empty.
\<close>

theorem ingest_logs_spec:
  assumes "store_inv s"
  shows "entry_or_default (ingest_logs fmt req s) key =
    (entry_or_default s key)\<lparr>logs := last_n max_logs
       (logs (entry_or_default s key) @ map (log_item fmt)
          (concat (map (concat \<circ> scope_logs)
             (filter (\<lambda>rl. resource_key fmt (rl_resource rl) = key) req))))\<rparr>"
  using assms
proof (induction req arbitrary: s)
  case Nil
  then show ?case
    using entry_ok [of s key] by (simp add: ingest_logs_def telemetry_ok_def)
next
  case (Cons rl req)
  have step: "entry_or_default (ingest_resource_logs fmt rl s) key =
      (if key = resource_key fmt (rl_resource rl)
       then lb.batch fmt (concat (scope_logs rl)) (entry_or_default s key)
       else entry_or_default s key)"
    by (simp add: ingest_resource_logs_eq entry_or_default_insert Let_def)
  have "ingest_logs fmt (rl # req) s = ingest_logs fmt req (ingest_resource_logs fmt rl s)"
    by (simp add: ingest_logs_def)
  with Cons.IH [OF ingest_resource_inv(2) [OF Cons.prems], of fmt rl] step show ?case
    by (auto simp: batch_logs_eq last_n_append)
qed

lemma ingest_logs_spec_witness:
  "logs (entry_or_default (ingest_logs (\<lambda>_. []) sample_logs hm_empty) (lit ''unknown''))
     = [sample_log_line]"
  using ingest_logs_spec [OF store_inv_empty, of "\<lambda>_. []" sample_logs "lit ''unknown''"]
  by (simp add: sample_logs_def sample_log_line_def resource_key_def log_item_def entry_or_default_def
      agent_telemetry_default_def max_logs_def severity_label_def)

text \<open>
  A traces request adds to each agent's counter the number of spans in that agent's resources,
  modulo 2 to the 64, and changes nothing else.
\<close>

theorem ingest_traces_spec:
  "entry_or_default (ingest_traces fmt req s) key =
    (entry_or_default s key)\<lparr>span_count := span_count (entry_or_default s key) +
       of_nat (length (concat (concat (map scope_spans
          (filter (\<lambda>rs. resource_key fmt (rs_resource rs) = key) req)))))\<rparr>"
proof (induction req arbitrary: s)
  case Nil
  then show ?case by (simp add: ingest_traces_def)
next
  case (Cons rs req)
  have "ingest_traces fmt (rs # req) s = ingest_traces fmt req (ingest_resource_spans fmt rs s)"
    by (simp add: ingest_traces_def)
  with Cons.IH show ?case
    by (simp add: ingest_resource_spans_def entry_or_default_insert Let_def length_concat
        add.assoc)
qed

text \<open>Ingestion adds keys and never removes one.\<close>

lemma set_keys_fold:
  assumes "\<And>r s. set (store_keys (f r s)) = insert (k r) (set (store_keys s))"
  shows "set (store_keys (fold f req s)) = set (map k req) \<union> set (store_keys s)"
  by (induction req arbitrary: s) (auto simp: assms)

lemma store_keys_insert: "set (store_keys (hm_insert k t s)) = insert k (set (store_keys s))"
  by (simp add: store_keys_def hm.set_keys_insert)

lemma store_keys_ingest:
  "set (store_keys (ingest_metrics fmt ms s)) =
     set (map (resource_key fmt \<circ> rm_resource) ms) \<union> set (store_keys s)"
  "set (store_keys (ingest_logs fmt ls s)) =
     set (map (resource_key fmt \<circ> rl_resource) ls) \<union> set (store_keys s)"
  "set (store_keys (ingest_traces fmt ss s)) =
     set (map (resource_key fmt \<circ> rs_resource) ss) \<union> set (store_keys s)"
  unfolding ingest_metrics_def ingest_logs_def ingest_traces_def
  by (rule set_keys_fold,
      simp add: ingest_resource_metrics_eq ingest_resource_logs_eq ingest_resource_spans_def
        Let_def store_keys_insert)+

definition resource_of :: "rstring \<Rightarrow> resource option" where
  "resource_of name = Some \<lparr>attributes =
     [\<lparr>okv_key = lit ''service.instance.id'', okv_value = Some (Some (OStringValue name))\<rparr>]\<rparr>"

lemma resource_key_of [simp]: "resource_key fmt (resource_of name) = name"
  by (simp add: resource_key_def resource_of_def any_value_string_def)

lemma store_inv_ingest:
  "store_inv s \<Longrightarrow> store_inv (ingest_metrics fmt ms s)"
  "store_inv s \<Longrightarrow> store_inv (ingest_logs fmt ls s)"
  "store_inv s \<Longrightarrow> store_inv (ingest_traces fmt ss s)"
  by (auto simp: ingest_metrics_def ingest_logs_def ingest_traces_def
      intro!: fold_inv [of store_inv] ingest_resource_inv)

text \<open>
  Only the buffers are bounded, not the store: for every n there is an export request, one
  resource per instance id, after which the store holds n entries.
\<close>

theorem store_size_unbounded:
  "\<exists>req. hm_len (ingest_traces fmt req hm_empty) = n
     \<and> card (set (store_keys (ingest_traces fmt req hm_empty))) = n"
proof -
  let ?names = "map (\<lambda>i. replicate i (97::nat)) [0..<n]"
  let ?req = "map (\<lambda>k. \<lparr>rs_resource = resource_of k, scope_spans = []\<rparr>) ?names"
  let ?s = "ingest_traces fmt ?req hm_empty"
  have keys: "set (store_keys ?s) = set ?names"
    unfolding store_keys_ingest(3) by (simp add: store_keys_def hm_defs image_image)
  have "inj_on (\<lambda>i. replicate i (97::nat)) {0..<n}"
    by (rule inj_onI) (metis length_replicate)
  then have "card (set ?names) = n"
    by (simp add: card_image)
  moreover have "hm_len ?s = card (set (store_keys ?s))"
    using store_inv_ingest(3) [OF store_inv_empty, of fmt ?req]
      distinct_card [OF hm.keys_distinct, of ?s]
    by (simp only: store_inv_def store_keys_def hm.len_keys)
  ultimately show ?thesis using keys by metis
qed

text \<open>The last point of each name, in a list.\<close>

lemma latest_by_name_get:
  "hm_get (latest_by_name ps) n = find (\<lambda>p. mp_name p = n) (rev ps)"
  by (induction ps rule: rev_induct) (auto simp: latest_by_name_def)

lemma latest_by_name_wf: "hm_wf (latest_by_name ps)"
  by (induction ps rule: rev_induct) (auto simp: latest_by_name_def)

lemma latest_by_name_mem:
  "(n, p) \<in> set (latest_by_name ps) \<longleftrightarrow> find (\<lambda>p. mp_name p = n) (rev ps) = Some p"
proof -
  have "(n, p) \<in> set (latest_by_name ps) \<longleftrightarrow> map_of (latest_by_name ps) n = Some p"
    using map_of_eq_Some_iff latest_by_name_wf [of ps, unfolded hm_wf_def] by metis
  then show ?thesis
    using latest_by_name_get [of ps n] by (simp only: hm_get_def)
qed

lemma find_name: "find (\<lambda>p. mp_name p = n) ps = Some p \<Longrightarrow> mp_name p = n"
  by (induction ps) (auto split: if_splits)

lemma latest_values_keys: "map mp_name (map snd (latest_by_name ps)) = map fst (latest_by_name ps)"
proof -
  have "mp_name (snd e) = fst e" if "e \<in> set (latest_by_name ps)" for e
  proof -
    have "find (\<lambda>p. mp_name p = fst e) (rev ps) = Some (snd e)"
      using that latest_by_name_mem [of "fst e" "snd e" ps] by simp
    then show ?thesis by (rule find_name)
  qed
  then show ?thesis by simp
qed

lemma latest_names_distinct: "distinct (map mp_name (map snd (latest_by_name ps)))"
  using latest_by_name_wf [of ps] unfolding latest_values_keys hm_wf_def .

lemma latest_metrics_mem:
  "p \<in> set (latest_metrics t) \<longleftrightarrow> find (\<lambda>q. mp_name q = mp_name p) (rev (metrics t)) = Some p"
proof -
  have "p \<in> set (map snd (latest_by_name (metrics t)))
      \<longleftrightarrow> (\<exists>n. (n, p) \<in> set (latest_by_name (metrics t)))"
    by force
  also have "\<dots> \<longleftrightarrow> (\<exists>n. find (\<lambda>q. mp_name q = n) (rev (metrics t)) = Some p)"
    by (simp only: latest_by_name_mem)
  also have "\<dots> \<longleftrightarrow> find (\<lambda>q. mp_name q = mp_name p) (rev (metrics t)) = Some p"
    using find_name by blast
  finally show ?thesis by (simp add: latest_metrics_def)
qed

text \<open>
  C26: the metrics view shows, for an agent, exactly one value per metric name, the last one
  received, in strictly increasing order of the names; and the result does not depend on the
  order in which the hash map yields its values.
\<close>

theorem latest_metrics_spec:
  "sorted_wrt (<) (map mp_name (latest_metrics t))
   \<and> (p \<in> set (latest_metrics t) \<longleftrightarrow>
        find (\<lambda>q. mp_name q = mp_name p) (rev (metrics t)) = Some p)
   \<and> (mset vs = mset (map snd (latest_by_name (metrics t))) \<longrightarrow> sort_key mp_name vs = latest_metrics t)"
proof (intro conjI impI)
  show "sorted_wrt (<) (map mp_name (latest_metrics t))"
    unfolding latest_metrics_def by (rule sort_key_strict [OF latest_names_distinct])
  show "p \<in> set (latest_metrics t) \<longleftrightarrow>
      find (\<lambda>q. mp_name q = mp_name p) (rev (metrics t)) = Some p"
    by (rule latest_metrics_mem)
  assume "mset vs = mset (map snd (latest_by_name (metrics t)))"
  then show "sort_key mp_name vs = latest_metrics t"
    unfolding latest_metrics_def by (rule sort_key_mset_unique [OF _ latest_names_distinct])
qed

definition sample_points :: "metric_point list" where
  "sample_points = map (\<lambda>(n, v). \<lparr>mp_name = [n], mp_value = v, mp_unit = [], mp_time_unix_nano = 0\<rparr>)
     [(98, 1), (97, 2), (98, 3)]"

lemma latest_metrics_spec_witness:
  "map mp_value (sort_key mp_name (rev (map snd (latest_by_name sample_points)))) = [2, 3]"
proof -
  let ?t = "agent_telemetry_default\<lparr>metrics := sample_points\<rparr>"
  have "sort_key mp_name (rev (map snd (latest_by_name (metrics ?t)))) = latest_metrics ?t"
    using latest_metrics_spec [of ?t _ "rev (map snd (latest_by_name (metrics ?t)))"] by simp
  then show ?thesis
    by (simp add: latest_metrics_def latest_by_name_def sample_points_def hm_defs
        insort_key.simps(2) agent_telemetry_default_def)
qed

end
