(* ===== verification/Embedded_Props.thy ===== *)
theory Embedded_Props
  imports Embedded Server_Props Telemetry_Props
begin

text \<open>
  What the embedded control plane promises: the commands fulfil the contract of the trait, the
  translator's maps agree, an agent's view is the merge of its reports since it last disconnected,
  and each part of the view comes from the last report that carried it.
\<close>

section \<open>The contract of the trait\<close>

lemma handle_push_failed: "handle_push uid m s = (Inl e, s') \<Longrightarrow> s' = s"
  by (auto simp: handle_push_cases split: option.splits)

lemma offer_failed: "offer_remote_config d uid yaml s = (Inl e, s') \<Longrightarrow> s' = s"
  by (auto simp: offer_remote_config_eq Let_def split: prod.splits sum.splits
      dest: handle_push_failed)

lemma send_restart_failed: "send_restart uid s = (Inl e, s') \<Longrightarrow> s' = s"
  by (simp add: send_restart_def handle_push_failed)

interpretation emb: command_plane "embedded_cp d" for d
proof (unfold_locales, goal_cases)
  case (1 uid yaml c e c')
  then show ?case
    by (auto simp: embedded_cp_def embedded_push_config_def split: option.splits prod.splits sum.splits
        dest: offer_failed)
next
  case (2 uid c e c')
  then show ?case
    by (auto simp: embedded_cp_def embedded_restart_def split: option.splits prod.splits sum.splits
        dest: send_restart_failed)
next
  case (3 uid yaml c)
  then show ?case
    by (auto simp: embedded_cp_def embedded_push_config_def embedded_endpoint_def
        split: option.splits prod.splits sum.splits)
next
  case (4 uid c)
  then show ?case
    by (auto simp: embedded_cp_def embedded_restart_def embedded_endpoint_def
        split: option.splits prod.splits sum.splits)
qed

section \<open>Merging\<close>

lemma merge_simps [simp]:
  "ad_uid (merge fmt now m a) = ad_uid a"
  "ad_connected_at (merge fmt now m a) = ad_connected_at a"
  "ad_last_seen (merge fmt now m a) = now"
  "ad_sequence_num (merge fmt now m a) = a2s_sequence_num m"
  "ad_capabilities (merge fmt now m a) = describe (a2s_capabilities m)"
  "ad_effective_config (merge fmt now m a) =
     (case a2s_effective_config m of None \<Rightarrow> ad_effective_config a | Some e \<Rightarrow> extract_config e)"
  "ad_health (merge fmt now m a) =
     (case a2s_health m of None \<Rightarrow> ad_health a | Some h \<Rightarrow> Some (health_node (lit ''agent'') h))"
  "ad_healthy (merge fmt now m a) =
     (case a2s_health m of None \<Rightarrow> ad_healthy a | Some h \<Rightarrow> ch_healthy h)"
  "ad_status (merge fmt now m a) =
     (case a2s_health m of None \<Rightarrow> ad_status a | Some h \<Rightarrow> ch_status h)"
  "ad_start_time_unix_nano (merge fmt now m a) =
     (case a2s_health m of None \<Rightarrow> ad_start_time_unix_nano a
      | Some h \<Rightarrow> ch_start_time_unix_nano h)"
  "ad_remote_status (merge fmt now m a) =
     (case a2s_remote_config_status m of None \<Rightarrow> ad_remote_status a
      | Some r \<Rightarrow> Some \<lparr>rs_state = remote_status_label (rcs_status r), rs_error = error_message r\<rparr>)"
  "ad_identifying (merge fmt now m a) =
     (case a2s_agent_description m of None \<Rightarrow> ad_identifying a
      | Some ds \<Rightarrow> kv_pairs fmt (identifying_attributes ds))"
  "ad_non_identifying (merge fmt now m a) =
     (case a2s_agent_description m of None \<Rightarrow> ad_non_identifying a
      | Some ds \<Rightarrow> kv_pairs fmt (non_identifying_attributes ds))"
  "ad_name (merge fmt now m a) =
     (case a2s_agent_description m of None \<Rightarrow> ad_name a
      | Some ds \<Rightarrow> display_name (kv_pairs fmt (identifying_attributes ds))
                   (kv_pairs fmt (non_identifying_attributes ds)) (ad_uid a))"
  by (simp_all add: merge_def merge_description_def merge_health_def merge_effective_def
      merge_remote_def Let_def split: option.split)

text \<open>The last value that a list of reports carries for an optional part.\<close>

fun last_carried :: "('m \<Rightarrow> 'p option) \<Rightarrow> 'm list \<Rightarrow> 'p option" where
  "last_carried part [] = None"
| "last_carried part (m # ms) = (case last_carried part ms of None \<Rightarrow> part m | Some p \<Rightarrow> Some p)"

definition merge_all ::
    "(f64 \<Rightarrow> rstring) \<Rightarrow> (instant \<times> agent_to_server) list \<Rightarrow> agent_detail \<Rightarrow> agent_detail" where
  "merge_all fmt ms a = fold (\<lambda>(now, m). merge fmt now m) ms a"

lemma merge_all_simps [simp]:
  "merge_all fmt [] a = a"
  "merge_all fmt ((now, m) # ms) a = merge_all fmt ms (merge fmt now m a)"
  by (simp_all add: merge_all_def)

lemma merge_all_append: "merge_all fmt (ms @ ms') a = merge_all fmt ms' (merge_all fmt ms a)"
  by (simp add: merge_all_def)

text \<open>A field that a report replaces or keeps shows the last part carried for it.\<close>

lemma merge_all_part:
  assumes "\<And>now m a. field (merge fmt now m a) = (case part m of None \<Rightarrow> field a | Some p \<Rightarrow> g p)"
  shows "field (merge_all fmt ms a) =
    (case last_carried (part \<circ> snd) ms of None \<Rightarrow> field a | Some p \<Rightarrow> g p)"
proof (induction ms arbitrary: a)
  case (Cons x ms)
  then show ?case
    by (cases x) (auto simp: assms split: option.split)
qed simp

lemma merge_all_uid: "ad_uid (merge_all fmt ms a) = ad_uid a"
  by (induction ms arbitrary: a) auto


section \<open>The health tree\<close>

text \<open>Two health reports that differ only in the order in which their maps are iterated.\<close>

inductive same_health :: "component_health \<Rightarrow> component_health \<Rightarrow> bool" where
  "mset m2 = mset m3 \<Longrightarrow>
   list_all2 (\<lambda>p q. fst p = fst q \<and> same_health (snd p) (snd q)) m1 m2 \<Longrightarrow>
   same_health (ComponentHealth h st e s t m1) (ComponentHealth h st e s t m3)"

inductive health_wf :: "component_health \<Rightarrow> bool" where
  "hm_wf m \<Longrightarrow> list_all (\<lambda>p. health_wf (snd p)) m \<Longrightarrow> health_wf (ComponentHealth h st e s t m)"

inductive_cases health_wfE: "health_wf (ComponentHealth h st e s t m)"

lemma hn_name_health_node [simp]: "hn_name (health_node k v) = k"
  by (cases v) simp

text \<open>
  C24: the health tree the UI shows does not depend on the order in which the hash maps of the
  report are iterated, at any depth; its children are in strictly increasing order of their names.
\<close>

theorem health_node_deterministic:
  assumes "same_health a b" "health_wf a"
  shows "health_node name a = health_node name b
    \<and> sorted_wrt (<) (map hn_name (hn_children (health_node name a)))"
proof -
  have children: "map hn_name (map (\<lambda>(k, v). health_node k v) m) = map fst m" for m
    by (simp add: case_prod_beta)
  have "health_node name a = health_node name b" if "same_health a b" "health_wf a" for a b name
    using that
  proof (induction arbitrary: name rule: same_health.induct)
    case (1 m2 m3 m1 h st e s t)
    let ?ch = "map (\<lambda>(k, v). health_node k v)"
    have wf: "hm_wf m1" "list_all (\<lambda>p. health_wf (snd p)) m1"
      using 1(3) by (auto elim: health_wfE)
    have "?ch m1 = ?ch m2"
      using 1(2) wf(2) by (induction rule: list_all2_induct) (auto simp: case_prod_beta)
    moreover have "map fst m1 = map fst m2"
      using 1(2) by (induction rule: list_all2_induct) auto
    moreover have "mset (?ch m2) = mset (?ch m3)" using 1(1) by simp
    moreover have "distinct (map hn_name (?ch m3))"
      using wf(1) 1(1) \<open>map fst m1 = map fst m2\<close> unfolding children hm_wf_def
      by (metis mset_eq_imp_distinct_iff mset_map)
    ultimately have "sort_key hn_name (?ch m1) = sort_key hn_name (?ch m3)"
      using sort_key_mset_unique by metis
    then show ?case by simp
  qed
  moreover have "sorted_wrt (<) (map hn_name (hn_children (health_node name a)))"
    using assms(2)
  proof cases
    case (1 m h st e s t)
    have "distinct (map hn_name (map (\<lambda>(k, v). health_node k v) m))"
      unfolding children using 1(2) by (simp only: hm_wf_def)
    from sort_key_strict [OF this] show ?thesis by (simp only: 1(1) health_node.simps health_node.sel)
  qed
  ultimately show ?thesis using assms by blast
qed

lemma health_node_deterministic_witness:
  "health_node [] (ComponentHealth True 0 [] [] 0
       [(lit ''b'', ComponentHealth True 0 [] [] 0 []), (lit ''a'', ComponentHealth False 0 [] [] 0 [])])
   = HealthNode [] True [] [] [HealthNode (lit ''a'') False [] [] [], HealthNode (lit ''b'') True [] [] []]"
  (is "health_node _ ?a = _")
proof -
  let ?b = "ComponentHealth True 0 [] [] 0
      [(lit ''a'', ComponentHealth False 0 [] [] 0 []), (lit ''b'', ComponentHealth True 0 [] [] 0 [])]"
  have leaf: "same_health (ComponentHealth h 0 [] [] 0 []) (ComponentHealth h 0 [] [] 0 [])"
    "health_wf (ComponentHealth h 0 [] [] 0 [])" for h
    by (auto intro: same_health.intros health_wf.intros simp: hm_wf_def)
  have "same_health ?a ?b"
    by (rule same_health.intros
        [where ?m2.0 = "[(lit ''b'', ComponentHealth True 0 [] [] 0 []), (lit ''a'', ComponentHealth False 0 [] [] 0 [])]"])
      (simp_all add: leaf add_mset_commute)
  moreover have "health_wf ?a"
    by (rule health_wf.intros) (simp_all add: leaf hm_wf_def)
  ultimately have "health_node [] ?a = health_node [] ?b"
    using health_node_deterministic [of ?a ?b "[]"] by blast
  then show ?thesis by (simp add: lit_def)
qed

section \<open>The two maps\<close>

type_synonym timed_event = "instant \<times> instant \<times> opamp_event"

definition translate_all ::
    "deps \<Rightarrow> (f64 \<Rightarrow> rstring) \<Rightarrow> timed_event list \<Rightarrow> translator" where
  "translate_all d fmt es = fold (\<lambda>(t0, t1, e) s. snd (translate d fmt t0 t1 e s)) es translator_new"

lemma translate_all_snoc:
  "translate_all d fmt (es @ [(t0, t1, e)]) = snd (translate d fmt t0 t1 e (translate_all d fmt es))"
  by (simp add: translate_all_def)

text \<open>What the development relies on: a UUID is displayed injectively.\<close>

definition display_ok :: "deps \<Rightarrow> bool" where
  "display_ok d \<longleftrightarrow> inj_on (d_uuid_display d) {bs. length bs = 16}"

definition uid_ok :: "instance_uid \<Rightarrow> bool" where
  "uid_ok uid \<longleftrightarrow> length (uid_bytes uid) = 16"

fun event_uid :: "opamp_event \<Rightarrow> instance_uid" where
  "event_uid (Message uid msg) = uid"
| "event_uid (Disconnected uid) = uid"

lemma uid_to_string_eq:
  "display_ok d \<Longrightarrow> uid_ok u \<Longrightarrow> uid_ok v \<Longrightarrow> uid_to_string d u = uid_to_string d v \<longleftrightarrow> u = v"
  by (auto simp: display_ok_def uid_ok_def uid_to_string_def dest: inj_onD intro: instance_uid.expand)

lemma display_ok_sample: "display_ok sample_deps"
  by (auto simp: display_ok_def sample_deps_def inj_on_def inj_map_eq_map unsigned_word_eqI)

definition translator_inv :: "deps \<Rightarrow> translator \<Rightarrow> bool" where
  "translator_inv d s \<longleftrightarrow> hm_wf (details s) \<and> hm_wf (uids s)
     \<and> (\<forall>u a. hm_get (details s) u = Some a \<longrightarrow> uid_ok u \<and> ad_uid a = uid_to_string d u)
     \<and> (\<forall>k u. hm_get (uids s) k = Some u \<longleftrightarrow>
            k = uid_to_string d u \<and> hm_get (details s) u \<noteq> None)"

lemma translator_inv_new: "translator_inv d translator_new"
  by (simp add: translator_inv_def translator_new_def)

lemma translate_inv:
  assumes "translator_inv d s" "display_ok d" "uid_ok (event_uid e)"
  shows "translator_inv d (snd (translate d fmt t0 t1 e s))"
proof (cases e)
  case (Message uid msg)
  with assms show ?thesis
    by (auto simp: translator_inv_def Let_def agent_detail_new_def uid_to_string_eq split: option.splits)
      (metis uid_to_string_eq not_Some_eq)+
next
  case (Disconnected uid)
  with assms show ?thesis
    by (auto simp: translator_inv_def Let_def uid_to_string_eq split: if_splits)
      (metis uid_to_string_eq not_Some_eq)+
qed

lemma translate_all_inv:
  assumes "display_ok d" "list_all (\<lambda>(_, _, e). uid_ok (event_uid e)) es"
  shows "translator_inv d (translate_all d fmt es)"
  using assms(2)
proof (induction es rule: rev_induct)
  case Nil
  then show ?case by (simp add: translate_all_def translator_inv_new)
next
  case (snoc x es)
  obtain t0 t1 e where x: "x = (t0, t1, e)" by (cases x)
  with snoc show ?case
    by (simp add: translate_all_snoc translate_inv assms(1))
qed

text \<open>
  C16: after any sequence of events the map the commands use and the map of the agents' views agree:
  a UID string is routed to exactly the agent whose view carries that string, every view is filed
  under its own UID, and an agent that disconnected is in neither.
\<close>

theorem uid_map_agrees:
  assumes "display_ok d" "list_all (\<lambda>(_, _, e). uid_ok (event_uid e)) es"
    "s = translate_all d fmt es"
  shows "(hm_get (uids s) k = Some u \<longleftrightarrow> k = uid_to_string d u \<and> u \<in> set (hm_keys (details s)))
    \<and> (hm_get (details s) u = Some a \<longrightarrow> ad_uid a = uid_to_string d u)
    \<and> hm_len (uids s) = hm_len (details s)"
proof -
  have inv: "translator_inv d s" unfolding assms(3) by (rule translate_all_inv [OF assms(1,2)])
  have "set (hm_keys (uids s)) = uid_to_string d ` set (hm_keys (details s))"
    using inv by (auto simp: translator_inv_def hm.keys_get)
  moreover have "inj_on (uid_to_string d) (set (hm_keys (details s)))"
    using inv by (auto simp: translator_inv_def hm.keys_get uid_to_string_eq [OF assms(1)] intro!: inj_onI)
  ultimately have "card (set (hm_keys (uids s))) = card (set (hm_keys (details s)))"
    by (simp add: card_image)
  moreover have "distinct (hm_keys (uids s))" "distinct (hm_keys (details s))"
    using inv by (auto simp: translator_inv_def intro: hm.keys_distinct)
  ultimately have "hm_len (uids s) = hm_len (details s)"
    by (simp add: hm.len_keys distinct_card)
  with inv show ?thesis by (simp add: translator_inv_def hm.keys_get)
qed

lemma uid_map_agrees_witness:
  "hm_get (uids (translate_all sample_deps (\<lambda>_. [])
      [(0, 0, Message sample_uid sample_a2s)])) (uid_to_string sample_deps sample_uid) = Some sample_uid"
proof -
  have "list_all (\<lambda>(_, _, e). uid_ok (event_uid e))
      [(0::nat, 0::nat, Message sample_uid sample_a2s)]"
    by (simp add: uid_ok_def sample_uid_def)
  from uid_map_agrees [OF display_ok_sample this refl [of "translate_all _ (\<lambda>_. []) _"],
      of "uid_to_string sample_deps sample_uid" sample_uid]
  show ?thesis
    by (simp add: hm.keys_get translate_all_def translator_new_def Let_def)
qed

text \<open>The reports of an agent since it last disconnected, with the clock when the first came.\<close>

fun since_connected :: "instance_uid \<Rightarrow> timed_event list
    \<Rightarrow> (instant \<times> (instant \<times> agent_to_server) list) option
    \<Rightarrow> (instant \<times> (instant \<times> agent_to_server) list) option" where
  "since_connected u [] acc = acc"
| "since_connected u ((t0, t1, Message v msg) # es) acc =
     since_connected u es
       (if v = u then (case acc of None \<Rightarrow> Some (t0, [(t1, msg)])
                       | Some (t, ms) \<Rightarrow> Some (t, ms @ [(t1, msg)])) else acc)"
| "since_connected u ((t0, t1, Disconnected v) # es) acc =
     since_connected u es (if v = u then None else acc)"

text \<open>
  C5: the view of an agent is a new view, dated from its first report, with all its reports since
  it last disconnected merged in order; reports of other agents do not affect it, and there is no
  view when it has sent none since. The event sent to the UI carries that view.
\<close>

theorem view_is_merge_of_reports:
  "hm_get (details (translate_all d fmt es)) u =
     (case since_connected u es None of
        None \<Rightarrow> None
      | Some (t, ms) \<Rightarrow> Some (merge_all fmt ms (agent_detail_new t (uid_to_string d u))))
   \<and> fst (translate d fmt t0 t1 (Message u msg) (translate_all d fmt es)) =
       AgentUpserted (the (hm_get (details (translate_all d fmt (es @ [(t0, t1, Message u msg)]))) u))"
proof
  have "hm_get (details (fold (\<lambda>(t0, t1, e) s. snd (translate d fmt t0 t1 e s)) es s)) u =
     (case since_connected u es acc of
        None \<Rightarrow> None
      | Some (t, ms) \<Rightarrow> Some (merge_all fmt ms (agent_detail_new t (uid_to_string d u))))"
    if "hm_get (details s) u =
     (case acc of
        None \<Rightarrow> None
      | Some (t, ms) \<Rightarrow> Some (merge_all fmt ms (agent_detail_new t (uid_to_string d u))))" for s acc
    using that
    by (induction u es acc arbitrary: s rule: since_connected.induct)
      (simp_all add: Let_def merge_all_append split: option.splits)
  then show "hm_get (details (translate_all d fmt es)) u =
     (case since_connected u es None of
        None \<Rightarrow> None
      | Some (t, ms) \<Rightarrow> Some (merge_all fmt ms (agent_detail_new t (uid_to_string d u))))"
    by (simp add: translate_all_def translator_new_def)
qed (simp add: translate_all_snoc Let_def)

section \<open>Configuration text and telemetry\<close>

lemma pushed_text_displayed:
  "list_all scalar yaml \<Longrightarrow> extract_config \<lparr>ec_config_map = Some (yaml_config_map yaml)\<rparr> = yaml"
  by (simp add: extract_config_def yaml_config_map_get from_utf8_lossy_as_bytes)

text \<open>
  A text put in the server's configuration offer is displayed unchanged when an agent reports
  that same configuration map as its effective configuration, whatever characters it holds.
\<close>

theorem config_text_roundtrip:
  assumes "list_all scalar yaml"
  shows "extract_config \<lparr>ec_config_map = Some (yaml_config_map yaml)\<rparr> = yaml"
  by (rule pushed_text_displayed [OF assms])

lemma config_text_roundtrip_witness:
  "extract_config \<lparr>ec_config_map = Some (yaml_config_map [97, 0xE9, 0x20AC, 0x1F600])\<rparr>
     = [97, 0xE9, 0x20AC, 0x1F600]"
  by (rule config_text_roundtrip) (simp add: scalar_def)

text \<open>
  The text shown for an effective configuration of several named files is not a function of the
  reported map: two iteration orders of the same hash map give different texts.
\<close>

theorem extract_config_order_dependent:
  "\<exists>m m'. hm_wf m \<and> hm_wf m' \<and> hm_get m = hm_get m'
     \<and> extract_config \<lparr>ec_config_map = Some m\<rparr> \<noteq> extract_config \<lparr>ec_config_map = Some m'\<rparr>"
proof (intro exI conjI)
  let ?f = "\<lambda>b. \<lparr>body = as_bytes [b], content_type = []\<rparr>"
  let ?m = "[(lit ''a'', ?f 97), (lit ''b'', ?f 98)]" and ?m' = "[(lit ''b'', ?f 98), (lit ''a'', ?f 97)]"
  show "hm_wf ?m" "hm_wf ?m'" by (simp_all add: hm_wf_def)
  show "hm_get ?m = hm_get ?m'" by (simp add: hm_get_def fun_upd_twist fun_eq_iff)
  show "extract_config \<lparr>ec_config_map = Some ?m\<rparr> \<noteq> extract_config \<lparr>ec_config_map = Some ?m'\<rparr>"
    by (simp add: extract_config_def hm_get_def from_utf8_lossy_as_bytes scalar_def)
qed

text \<open>
  A telemetry round sends the UI, for each key of the store in order, one snapshot: one row per
  metric name in strictly increasing order, and the newest log records, newest first, at most 300.
\<close>

theorem poll_telemetry_spec:
  "map (\<lambda>e. case e of TelemetryEvent k _ \<Rightarrow> k | _ \<Rightarrow> []) (poll_telemetry (store_keys s) (snapshot s))
       = store_keys s
    \<and> (TelemetryEvent key ts \<in> set (poll_telemetry (store_keys s) (snapshot s)) \<longrightarrow>
         (\<exists>t. snapshot s key = Some t
            \<and> sorted_wrt (<) (map mr_name (ts_metrics ts))
            \<and> length (ts_logs ts) = min 300 (length (logs t))
            \<and> (\<forall>i < length (ts_logs ts).
                 lrow_body (ts_logs ts ! i) = ll_body (logs t ! (length (logs t) - 1 - i)))
            \<and> ts_span_count ts = span_count t))"
proof (intro conjI impI)
  have some: "\<exists>t. snapshot s k = Some t" if "k \<in> set (store_keys s)" for k
    using that by (auto simp: snapshot_def store_keys_def hm.keys_get)
  have keys: "map (\<lambda>e. case e of TelemetryEvent k _ \<Rightarrow> k | _ \<Rightarrow> []) (poll_telemetry ks (snapshot s)) = ks"
    if "set ks \<subseteq> set (store_keys s)" for ks
    using that
    by (induction ks) (auto simp: poll_telemetry_def split: option.split dest: some)
  show "map (\<lambda>e. case e of TelemetryEvent k _ \<Rightarrow> k | _ \<Rightarrow> [])
      (poll_telemetry (store_keys s) (snapshot s)) = store_keys s"
    by (rule keys) simp
  assume "TelemetryEvent key ts \<in> set (poll_telemetry (store_keys s) (snapshot s))"
  then obtain t where t: "snapshot s key = Some t" "ts = telemetry_snapshot_of t"
    by (auto simp: poll_telemetry_def List.map_filter_def)
  have "sorted_wrt (<) (map mr_name (ts_metrics ts))"
    using sort_key_strict [OF latest_names_distinct, of "metrics t"]
    by (simp add: t telemetry_snapshot_of_def latest_metrics_def comp_def)
  moreover have "length (ts_logs ts) = min 300 (length (logs t))"
    by (simp add: t telemetry_snapshot_of_def)
  moreover have "lrow_body (ts_logs ts ! i) = ll_body (logs t ! (length (logs t) - 1 - i))"
    if "i < length (ts_logs ts)" for i
    using that by (simp add: t telemetry_snapshot_of_def rev_nth)
  ultimately show "\<exists>t. snapshot s key = Some t
      \<and> sorted_wrt (<) (map mr_name (ts_metrics ts))
      \<and> length (ts_logs ts) = min 300 (length (logs t))
      \<and> (\<forall>i < length (ts_logs ts).
           lrow_body (ts_logs ts ! i) = ll_body (logs t ! (length (logs t) - 1 - i)))
      \<and> ts_span_count ts = span_count t"
    using t by (auto simp: telemetry_snapshot_of_def)
qed

definition sample_store :: telemetry_store where
  "sample_store =
     [(lit ''unknown'', \<lparr>metrics = [], logs = [sample_log_line], span_count = 3\<rparr>)]"

lemma poll_telemetry_spec_witness:
  "\<exists>ts. TelemetryEvent (lit ''unknown'') ts
       \<in> set (poll_telemetry (store_keys sample_store) (snapshot sample_store))
     \<and> length (ts_logs ts) = 1 \<and> ts_span_count ts = 3"
proof -
  let ?t = "\<lparr>metrics = [], logs = [sample_log_line], span_count = 3\<rparr>"
  have snap: "snapshot sample_store (lit ''unknown'') = Some ?t"
    by (simp add: sample_store_def snapshot_def hm_get_def)
  then have "TelemetryEvent (lit ''unknown'') (telemetry_snapshot_of ?t)
      \<in> set (poll_telemetry (store_keys sample_store) (snapshot sample_store))" (is ?ev)
    by (simp add: poll_telemetry_def store_keys_def hm_keys_def sample_store_def)
  moreover have "?ev \<longrightarrow> length (ts_logs (telemetry_snapshot_of ?t)) = 1
      \<and> ts_span_count (telemetry_snapshot_of ?t) = 3"
    using poll_telemetry_spec [of sample_store "lit ''unknown''" "telemetry_snapshot_of ?t"] snap
    by auto
  ultimately show ?thesis by blast
qed

end
