(* ===== verification/Editor.thy ===== *)
theory Editor
  imports Rust_String
begin

text \<open>
  The inline remote-config editor of \<open>crates/otelc-tui/src/app.rs\<close> (struct \<open>Editor\<close>, its
  methods, \<open>byte_index\<close>, and the editing arms of \<open>App::handle_modal_key\<close>).
  The buffer is a vector of lines with a cursor: \<open>cy\<close> a line number, \<open>cx\<close> a column that most
  operations read as a number of \<open>char\<close>s and two (\<open>line_len\<close>, hence \<open>End\<close>, and the horizontal
  moves) as a number of bytes. Each operation that may panic is partial.
  The abstract specification is a text with a gap at the cursor; on ASCII text the editor refines
  it and never panics. Outside ASCII the two readings of \<open>cx\<close> differ and \<open>backspace\<close> can panic.
  Line numbers and columns are unbounded here: the \<open>usize\<close>/\<open>i32\<close> casts of \<open>move_cursor\<close> lose
  nothing below $2^{31}$ lines and columns.
\<close>

section \<open>Keys\<close>

text \<open>The \<open>KeyCode\<close>s the program distinguishes; every other one is \<open>KOther\<close>.\<close>

datatype key_code =
    KChar rchar | KF nat | KEnter | KEsc | KBackspace | KTab | KBackTab
  | KLeft | KRight | KUp | KDown | KHome | KEnd | KPageUp | KPageDown | KOther

section \<open>The buffer and its operations\<close>

record editor =
  ed_uid :: rstring
  ed_agent :: rstring
  ed_lines :: "rstring list"
  cx :: nat
  cy :: nat
  ed_scroll :: nat

abbreviation nl :: rchar where
  "nl \<equiv> 10"

definition editor_new :: "rstring \<Rightarrow> rstring \<Rightarrow> rstring \<Rightarrow> editor" where
  "editor_new uid agent content =
     (let ls = split_char nl content;
          ls = (if ls = [] then [[]] else ls)
      in \<lparr>ed_uid = uid, ed_agent = agent, ed_lines = ls, cx = 0, cy = 0, ed_scroll = 0\<rparr>)"

definition editor_text :: "editor \<Rightarrow> rstring" where
  "editor_text e = join [nl] (ed_lines e)"

definition line_len :: "editor \<Rightarrow> nat \<Rightarrow> nat" where
  "line_len e row = (if row < length (ed_lines e) then str_len (ed_lines e ! row) else 0)"

definition char_indices :: "rstring \<Rightarrow> (nat \<times> rchar) list" where
  "char_indices s = map (\<lambda>i. (str_len (take i s), s ! i)) [0..<length s]"

definition byte_index :: "rstring \<Rightarrow> nat \<Rightarrow> nat" where
  "byte_index line char_idx =
     (case vec_get (char_indices line) char_idx of Some (i, _) \<Rightarrow> i | None \<Rightarrow> str_len line)"

definition insert_char :: "rchar \<Rightarrow> editor \<Rightarrow> editor option" where
  "insert_char c e = do {
     line \<leftarrow> vec_get (ed_lines e) (cy e);
     let idx = byte_index line (cx e);
     line' \<leftarrow> string_insert line idx c;
     Some (e\<lparr>ed_lines := (ed_lines e)[cy e := line'], cx := cx e + 1\<rparr>)
   }"

definition newline :: "editor \<Rightarrow> editor option" where
  "newline e = do {
     line \<leftarrow> vec_get (ed_lines e) (cy e);
     let idx = byte_index line (cx e);
     (line', rest) \<leftarrow> string_split_off line idx;
     lines' \<leftarrow> vec_insert ((ed_lines e)[cy e := line']) (cy e + 1) rest;
     Some (e\<lparr>ed_lines := lines', cy := cy e + 1, cx := 0\<rparr>)
   }"

definition backspace :: "editor \<Rightarrow> editor option" where
  "backspace e =
     (if 0 < cx e then do {
        line \<leftarrow> vec_get (ed_lines e) (cy e);
        let idx = byte_index line (cx e - 1);
        (_, line') \<leftarrow> string_remove line idx;
        Some (e\<lparr>ed_lines := (ed_lines e)[cy e := line'], cx := cx e - 1\<rparr>)
      }
      else if 0 < cy e then do {
        (current, lines') \<leftarrow> vec_remove (ed_lines e) (cy e);
        let y = cy e - 1;
        line \<leftarrow> vec_get lines' y;
        Some (e\<lparr>ed_lines := lines'[y := line @ current], cy := y, cx := length line\<rparr>)
      }
      else Some e)"

text \<open>\<open>clamp\<close> asserts that its bounds are ordered, and \<open>self.lines[self.cy]\<close> that the row exists.\<close>

definition move_vertical :: "int \<Rightarrow> editor \<Rightarrow> editor option" where
  "move_vertical dy e =
     (if ed_lines e = [] then None
      else do {
        let new_y = nat (clamp (int (cy e) + dy) 0 (int (length (ed_lines e)) - 1));
        line \<leftarrow> vec_get (ed_lines e) new_y;
        Some (e\<lparr>cy := new_y, cx := min (cx e) (length line)\<rparr>)
      })"

definition move_horizontal :: "int \<Rightarrow> editor \<Rightarrow> editor" where
  "move_horizontal dx e =
     (let new_x = int (cx e) + dx in
      if new_x < 0 then
        (if 0 < cy e then e\<lparr>cy := cy e - 1, cx := line_len e (cy e - 1)\<rparr> else e)
      else if line_len e (cy e) < nat new_x then
        (if cy e + 1 < length (ed_lines e) then e\<lparr>cy := cy e + 1, cx := 0\<rparr> else e)
      else e\<lparr>cx := nat new_x\<rparr>)"

definition move_cursor :: "int \<Rightarrow> int \<Rightarrow> editor \<Rightarrow> editor option" where
  "move_cursor dx dy e = do {
     e \<leftarrow> (if dy \<noteq> 0 then move_vertical dy e else Some e);
     Some (if dx \<noteq> 0 then move_horizontal dx e else e)
   }"

text \<open>The arms of the editor in \<open>handle_modal_key\<close> that edit the buffer.\<close>

fun editor_key :: "key_code \<Rightarrow> editor \<Rightarrow> editor option" where
  "editor_key (KChar c) e = insert_char c e"
| "editor_key KEnter e = newline e"
| "editor_key KBackspace e = backspace e"
| "editor_key KLeft e = move_cursor (-1) 0 e"
| "editor_key KRight e = move_cursor 1 0 e"
| "editor_key KUp e = move_cursor 0 (-1) e"
| "editor_key KDown e = move_cursor 0 1 e"
| "editor_key KHome e = Some (e\<lparr>cx := 0\<rparr>)"
| "editor_key KEnd e = Some (e\<lparr>cx := line_len e (cy e)\<rparr>)"
| "editor_key _ e = Some e"

section \<open>Columns and byte offsets\<close>

lemma byte_index_eq: "byte_index line i = str_len (take i line)"
  by (simp add: byte_index_def char_indices_def vec_get_def)

lemma string_insert_byte_index:
  "string_insert line (byte_index line i) c = Some (take i line @ c # drop i line)"
  by (simp add: string_insert_def byte_index_eq split_at_byte_take)

lemma string_split_off_byte_index:
  "string_split_off line (byte_index line i) = Some (take i line, drop i line)"
  by (simp add: string_split_off_def byte_index_eq split_at_byte_take)

lemma string_remove_byte_index:
  "string_remove line (byte_index line i) =
     (if i < length line then Some (line ! i, take i line @ drop (Suc i) line) else None)"
proof (cases "i < length line")
  case True
  then have "drop i line = line ! i # drop (Suc i) line"
    by (rule Cons_nth_drop_Suc [symmetric])
  with True show ?thesis
    by (simp add: string_remove_def byte_index_eq split_at_byte_take)
next
  case False
  then show ?thesis by (simp add: byte_index_eq string_remove_end)
qed

lemmas byte_index_ops [simp] =
  string_insert_byte_index string_split_off_byte_index string_remove_byte_index

section \<open>Well-formed buffers\<close>

definition ed_line :: "editor \<Rightarrow> rstring" where
  "ed_line e = ed_lines e ! cy e"

text \<open>The cursor is on a line of the buffer, at one of its \<open>char\<close> columns.\<close>

definition ed_wf :: "editor \<Rightarrow> bool" where
  "ed_wf e \<longleftrightarrow> cy e < length (ed_lines e) \<and> cx e \<le> length (ed_line e)"

definition ed_ascii :: "editor \<Rightarrow> bool" where
  "ed_ascii e \<longleftrightarrow> list_all is_ascii (ed_lines e)"

definition ed_inv :: "editor \<Rightarrow> bool" where
  "ed_inv e \<longleftrightarrow> ed_wf e \<and> ed_ascii e"

fun key_ascii :: "key_code \<Rightarrow> bool" where
  "key_ascii (KChar c) \<longleftrightarrow> c < 0x80"
| "key_ascii _ \<longleftrightarrow> True"

lemma ed_ascii_line: "ed_ascii e \<Longrightarrow> i < length (ed_lines e) \<Longrightarrow> is_ascii (ed_lines e ! i)"
  by (simp add: ed_ascii_def list_all_length)

lemma ed_ascii_line_len: "ed_ascii e \<Longrightarrow> i < length (ed_lines e) \<Longrightarrow> line_len e i = length (ed_lines e ! i)"
  by (simp add: line_len_def ed_ascii_line str_len_ascii)

lemma list_all_update: "list_all P xs \<Longrightarrow> P x \<Longrightarrow> list_all P (xs[i := x])"
  by (auto simp: list_all_iff dest: set_update_subset_insert [THEN subsetD])

lemma list_all_take [simp]: "list_all P xs \<Longrightarrow> list_all P (take i xs)"
  and list_all_drop [simp]: "list_all P xs \<Longrightarrow> list_all P (drop i xs)"
  by (auto simp: list_all_iff dest: in_set_takeD in_set_dropD)

subsection \<open>What each operation computes on a well-formed buffer\<close>

lemma insert_char_eq:
  "ed_wf e \<Longrightarrow> insert_char c e =
     Some (e\<lparr>ed_lines := (ed_lines e)[cy e := take (cx e) (ed_line e) @ c # drop (cx e) (ed_line e)],
             cx := cx e + 1\<rparr>)"
  by (simp add: insert_char_def ed_wf_def ed_line_def)

lemma newline_eq:
  "ed_wf e \<Longrightarrow> newline e =
     Some (e\<lparr>ed_lines := take (cy e) (ed_lines e) @ take (cx e) (ed_line e)
                          # drop (cx e) (ed_line e) # drop (Suc (cy e)) (ed_lines e),
             cy := cy e + 1, cx := 0\<rparr>)"
  by (simp add: newline_def ed_wf_def ed_line_def take_Suc_update)

lemma backspace_in_line_eq:
  "ed_wf e \<Longrightarrow> 0 < cx e \<Longrightarrow> backspace e =
     Some (e\<lparr>ed_lines := (ed_lines e)[cy e := take (cx e - 1) (ed_line e) @ drop (cx e) (ed_line e)],
             cx := cx e - 1\<rparr>)"
  by (auto simp: backspace_def ed_wf_def ed_line_def)

lemma backspace_join_eq:
  "ed_wf e \<Longrightarrow> cx e = 0 \<Longrightarrow> cy e = Suc y \<Longrightarrow> backspace e =
     Some (e\<lparr>ed_lines := take y (ed_lines e) @ (ed_lines e ! y @ ed_line e)
                          # drop (Suc (Suc y)) (ed_lines e),
             cy := y, cx := length (ed_lines e ! y)\<rparr>)"
  by (simp add: backspace_def ed_wf_def ed_line_def nth_append list_update_append1 update_take_Suc)

lemma backspace_start_eq: "cx e = 0 \<Longrightarrow> cy e = 0 \<Longrightarrow> backspace e = Some e"
  by (simp add: backspace_def)

text \<open>The exact condition under which \<open>backspace\<close> panics.\<close>

lemma backspace_panics_iff:
  "cy e < length (ed_lines e) \<Longrightarrow>
     backspace e = None \<longleftrightarrow> length (ed_line e) < cx e"
  by (cases "cx e"; cases "cy e") (auto simp: backspace_def ed_line_def nth_append)

section \<open>The text-buffer interface\<close>

text \<open>
  What a user of the editor relies on: a text with a gap at the cursor. A key types its
  character in front of the gap, \<open>Backspace\<close> deletes the character in front of it, the
  horizontal moves shift one character across it.
\<close>

type_synonym gap_text = "rstring \<times> rstring"

fun gap_type :: "rchar \<Rightarrow> gap_text \<Rightarrow> gap_text" where
  "gap_type c (b, a) = (b @ [c], a)"

fun gap_erase :: "gap_text \<Rightarrow> gap_text" where
  "gap_erase (b, a) = (butlast b, a)"

fun gap_left :: "gap_text \<Rightarrow> gap_text" where
  "gap_left (b, a) = (butlast b, if b = [] then a else last b # a)"

fun gap_right :: "gap_text \<Rightarrow> gap_text" where
  "gap_right (b, []) = (b, [])"
| "gap_right (b, c # a) = (b @ [c], a)"

locale text_buffer =
  fixes step :: "key_code \<Rightarrow> 's \<Rightarrow> 's option"
    and inv :: "'s \<Rightarrow> bool"
    and gap :: "'s \<Rightarrow> gap_text"
    and ok :: "rchar \<Rightarrow> bool"
  assumes type_law: "inv s \<Longrightarrow> ok c \<Longrightarrow> c \<noteq> nl \<Longrightarrow>
        \<exists>s'. step (KChar c) s = Some s' \<and> inv s' \<and> gap s' = gap_type c (gap s)"
    and enter_law: "inv s \<Longrightarrow> \<exists>s'. step KEnter s = Some s' \<and> inv s' \<and> gap s' = gap_type nl (gap s)"
    and erase_law: "inv s \<Longrightarrow> \<exists>s'. step KBackspace s = Some s' \<and> inv s' \<and> gap s' = gap_erase (gap s)"
    and left_law: "inv s \<Longrightarrow> \<exists>s'. step KLeft s = Some s' \<and> inv s' \<and> gap s' = gap_left (gap s)"
    and right_law: "inv s \<Longrightarrow> \<exists>s'. step KRight s = Some s' \<and> inv s' \<and> gap s' = gap_right (gap s)"
begin

definition key_of :: "rchar \<Rightarrow> key_code" where
  "key_of c = (if c = nl then KEnter else KChar c)"

lemma key_of_law:
  "inv s \<Longrightarrow> ok c \<Longrightarrow>
     \<exists>s'. step (key_of c) s = Some s' \<and> inv s' \<and> gap s' = gap_type c (gap s)"
  by (cases "c = nl") (auto simp: key_of_def dest: type_law enter_law)

text \<open>Typing a text inserts it at the cursor.\<close>

lemma type_text:
  "inv s \<Longrightarrow> list_all ok t \<Longrightarrow> gap s = (b, a) \<Longrightarrow>
     \<exists>s'. run step (map key_of t) s = Some s' \<and> inv s' \<and> gap s' = (b @ t, a)"
proof (induction t arbitrary: s b)
  case Nil
  then show ?case by simp
next
  case (Cons c t)
  then obtain s1 where "step (key_of c) s = Some s1" "inv s1" "gap s1 = (b @ [c], a)"
    using key_of_law [of s c] by auto
  with Cons.IH [of s1 "b @ [c]"] Cons.prems show ?case by auto
qed

lemma erase_text:
  "inv s \<Longrightarrow> gap s = (b @ t, a) \<Longrightarrow>
     \<exists>s'. run step (replicate (length t) KBackspace) s = Some s' \<and> inv s' \<and> gap s' = (b, a)"
proof (induction t arbitrary: s rule: rev_induct)
  case Nil
  then show ?case by simp
next
  case (snoc c t)
  then obtain s1 where "step KBackspace s = Some s1" "inv s1" "gap s1 = (b @ t, a)"
    using erase_law [of s] by (auto simp: butlast_append)
  with snoc.IH [of s1] show ?case by auto
qed

text \<open>Erasing as many characters as were typed restores the text and the cursor.\<close>

lemma type_then_erase:
  assumes "inv s" "list_all ok t"
  shows "\<exists>s'. run step (map key_of t @ replicate (length t) KBackspace) s = Some s'
              \<and> inv s' \<and> gap s' = gap s"
proof -
  obtain b a where g: "gap s = (b, a)" by (cases "gap s")
  then obtain s1 where "run step (map key_of t) s = Some s1" "inv s1" "gap s1 = (b @ t, a)"
    using type_text [OF assms] by blast
  moreover from this(2,3) obtain s2 where
    "run step (replicate (length t) KBackspace) s1 = Some s2" "inv s2" "gap s2 = (b, a)"
    using erase_text by blast
  ultimately show ?thesis using g by (simp add: run_append)
qed

end

section \<open>The editor refines the text buffer\<close>

definition ed_gap :: "editor \<Rightarrow> gap_text" where
  "ed_gap e =
     (join [nl] (take (cy e) (ed_lines e) @ [take (cx e) (ed_line e)]),
      join [nl] (drop (cx e) (ed_line e) # drop (Suc (cy e)) (ed_lines e)))"

subsection \<open>Joining pieces\<close>

lemma join_append:
  "xs \<noteq> [] \<Longrightarrow> ys \<noteq> [] \<Longrightarrow> join sep (xs @ ys) = join sep xs @ sep @ join sep ys"
  by (induction sep xs rule: join.induct) (auto simp: join_Cons_ne)

lemma join_snoc_append: "join sep (xs @ [l @ l']) = join sep (xs @ [l]) @ l'"
  by (induction xs) (auto simp: join_Cons_ne)

lemma join_Cons_append: "join sep ((l @ l') # xs) = l @ join sep (l' # xs)"
  by (cases xs) auto

lemma join_cut: "join sep (t @ (x @ y) # d) = join sep (t @ [x]) @ join sep (y # d)"
  by (induction t) (simp_all add: join_Cons_append join_Cons_ne)

lemma join_Cons_Cons: "join sep ((c # l) # xs) = c # join sep (l # xs)"
  by (cases xs) auto

lemma join_snoc_snoc: "join sep (xs @ [l, l']) = join sep (xs @ [l]) @ sep @ l'"
  using join_append [of "xs @ [l]" "[l']" sep] by simp

lemma join_snoc_Nil: "xs \<noteq> [] \<Longrightarrow> join sep (xs @ [[]]) = join sep xs @ sep"
  using join_append [of xs "[[]]" sep] by simp

lemma butlast_join_snoc: "l \<noteq> [] \<Longrightarrow> butlast (join sep (xs @ [l])) = join sep (xs @ [butlast l])"
  using join_snoc_append [of sep xs "butlast l" "[last l]"] by (simp add: butlast_append)

text \<open>The gap splits exactly the buffer's text.\<close>

lemma ed_gap_text: "ed_wf e \<Longrightarrow> ed_gap e = (b, a) \<Longrightarrow> editor_text e = b @ a"
proof -
  assume wf: "ed_wf e" and g: "ed_gap e = (b, a)"
  let ?t = "take (cy e) (ed_lines e)" and ?d = "drop (Suc (cy e)) (ed_lines e)"
  from wf have lines: "ed_lines e = ?t @ ed_line e # ?d"
    by (simp add: ed_wf_def ed_line_def id_take_nth_drop)
  show ?thesis
    using join_cut [of "[nl]" ?t "take (cx e) (ed_line e)" "drop (cx e) (ed_line e)" ?d] lines g
    by (simp add: editor_text_def ed_gap_def)
qed

subsection \<open>Editing operations\<close>

text \<open>These three hold for every text, ASCII or not.\<close>

lemma insert_char_gap:
  assumes "ed_wf e" "insert_char c e = Some e'"
  shows "ed_wf e' \<and> ed_gap e' = gap_type c (ed_gap e)"
proof -
  let ?l = "ed_line e"
  have cy: "cy e < length (ed_lines e)" and cx: "cx e \<le> length ?l"
    using assms(1) by (auto simp: ed_wf_def)
  then show ?thesis
    using assms by (auto simp: insert_char_eq ed_wf_def ed_line_def ed_gap_def join_snoc_append)
qed

lemma newline_gap:
  assumes "ed_wf e" "newline e = Some e'"
  shows "ed_wf e' \<and> ed_gap e' = gap_type nl (ed_gap e)"
proof -
  have cy: "cy e < length (ed_lines e)"
    using assms(1) by (auto simp: ed_wf_def)
  have "take (Suc (cy e)) (take (cy e) (ed_lines e) @ x # y # z) = take (cy e) (ed_lines e) @ [x]"
    and "(take (cy e) (ed_lines e) @ x # y # z) ! Suc (cy e) = y"
    and "drop (Suc (Suc (cy e))) (take (cy e) (ed_lines e) @ x # y # z) = z" for x y z
    using cy by (simp_all add: nth_append)
  with cy show ?thesis
    using assms by (auto simp: newline_eq ed_wf_def ed_line_def ed_gap_def join_snoc_snoc)
qed

lemma backspace_gap:
  assumes wf: "ed_wf e" and bs: "backspace e = Some e'"
  shows "ed_wf e' \<and> ed_gap e' = gap_erase (ed_gap e)"
proof -
  have cy: "cy e < length (ed_lines e)" and cx: "cx e \<le> length (ed_line e)"
    using wf by (auto simp: ed_wf_def)
  consider (inside) "0 < cx e" | (joins) y where "cx e = 0" "cy e = Suc y"
    | (start) "cx e = 0" "cy e = 0"
    by (cases "cx e"; cases "cy e") auto
  then show ?thesis
  proof cases
    case inside
    then have "take (cx e) (ed_line e) \<noteq> []"
      using cx by auto
    moreover have "butlast (take (cx e) (ed_line e)) = take (cx e - 1) (ed_line e)"
      using cx by (simp add: butlast_take)
    ultimately show ?thesis
      using wf bs inside cx cy
      by (auto simp: backspace_in_line_eq ed_wf_def ed_line_def ed_gap_def butlast_join_snoc)
  next
    case joins
    let ?t = "take y (ed_lines e)" and ?l = "ed_lines e ! y"
    have t: "take (Suc y) (ed_lines e) = ?t @ [?l]"
      using cy joins by (simp add: take_Suc_conv_app_nth)
    have e': "e' = e\<lparr>ed_lines := ?t @ (?l @ ed_line e) # drop (Suc (Suc y)) (ed_lines e),
        cy := y, cx := length ?l\<rparr>"
      using wf bs joins by (simp add: backspace_join_eq)
    have "ed_line e' = ?l @ ed_line e" "take y (ed_lines e') = ?t"
      "drop (Suc y) (ed_lines e') = drop (Suc (Suc y)) (ed_lines e)"
      using cy joins by (simp_all add: e' ed_line_def nth_append)
    then show ?thesis
      using cy joins by (simp add: e' ed_wf_def ed_gap_def t join_snoc_snoc butlast_append)
  next
    case start
    then show ?thesis
      using wf bs by (simp add: backspace_start_eq ed_gap_def)
  qed
qed


subsection \<open>Cursor moves\<close>

text \<open>
  A horizontal move reads a line's length in bytes: it crosses the end of a line correctly when
  that line is ASCII.
\<close>

lemma move_left_gap:
  assumes wf: "ed_wf e" and asc: "ed_ascii e"
  shows "ed_wf (move_horizontal (-1) e)
       \<and> ed_gap (move_horizontal (-1) e) = gap_left (ed_gap e)"
proof -
  have cy: "cy e < length (ed_lines e)" and cx: "cx e \<le> length (ed_line e)"
    using wf by (auto simp: ed_wf_def)
  consider (inside) x where "cx e = Suc x" | (joins) y where "cx e = 0" "cy e = Suc y"
    | (start) "cx e = 0" "cy e = 0"
    by (cases "cx e"; cases "cy e") auto
  then show ?thesis
  proof cases
    case inside
    have m: "move_horizontal (-1) e = e\<lparr>cx := x\<rparr>"
      using inside cx cy asc
      by (simp add: move_horizontal_def ed_ascii_line_len ed_line_def)
    have "take (Suc x) (ed_line e) = take x (ed_line e) @ [ed_line e ! x]"
      and "drop x (ed_line e) = ed_line e ! x # drop (Suc x) (ed_line e)"
      using inside cx by (simp_all add: take_Suc_conv_app_nth Cons_nth_drop_Suc)
    then show ?thesis
      using inside cx cy
      by (simp add: m ed_wf_def ed_gap_def ed_line_def join_snoc_append join_Cons_Cons)
  next
    case joins
    let ?t = "take y (ed_lines e)" and ?l = "ed_lines e ! y"
    have m: "move_horizontal (-1) e = e\<lparr>cy := y, cx := length ?l\<rparr>"
      using joins cy asc by (simp add: move_horizontal_def ed_ascii_line_len)
    have "take (Suc y) (ed_lines e) = ?t @ [?l]"
      and "drop (Suc y) (ed_lines e) = ed_line e # drop (Suc (Suc y)) (ed_lines e)"
      using joins cy
      by (simp_all add: take_Suc_conv_app_nth Cons_nth_drop_Suc ed_line_def)
    then show ?thesis
      using joins cy by (simp add: m ed_wf_def ed_gap_def ed_line_def join_snoc_snoc)
  next
    case start
    then have "move_horizontal (-1) e = e"
      by (simp add: move_horizontal_def)
    then show ?thesis
      using start wf by (simp add: ed_gap_def)
  qed
qed

lemma move_right_gap:
  assumes wf: "ed_wf e" and asc: "ed_ascii e"
  shows "ed_wf (move_horizontal 1 e)
       \<and> ed_gap (move_horizontal 1 e) = gap_right (ed_gap e)"
proof -
  have cy: "cy e < length (ed_lines e)" and cx: "cx e \<le> length (ed_line e)"
    using wf by (auto simp: ed_wf_def)
  have len: "line_len e (cy e) = length (ed_line e)"
    using asc cy by (simp add: ed_ascii_line_len ed_line_def)
  consider (inside) "cx e < length (ed_line e)"
    | (joins) "cx e = length (ed_line e)" "cy e + 1 < length (ed_lines e)"
    | (last) "cx e = length (ed_line e)" "cy e + 1 = length (ed_lines e)"
    using cx cy by linarith
  then show ?thesis
  proof cases
    case inside
    then have m: "move_horizontal 1 e = e\<lparr>cx := Suc (cx e)\<rparr>"
      using len by (simp add: move_horizontal_def nat_add_distrib)
    have "take (Suc (cx e)) (ed_line e) = take (cx e) (ed_line e) @ [ed_line e ! cx e]"
      and "drop (cx e) (ed_line e) = ed_line e ! cx e # drop (Suc (cx e)) (ed_line e)"
      using inside by (simp_all add: take_Suc_conv_app_nth Cons_nth_drop_Suc)
    then show ?thesis
      using inside cy
      by (simp add: m ed_wf_def ed_gap_def ed_line_def join_snoc_append join_Cons_Cons)
  next
    case joins
    then have m: "move_horizontal 1 e = e\<lparr>cy := cy e + 1, cx := 0\<rparr>"
      using len by (simp add: move_horizontal_def nat_add_distrib)
    have "take (Suc (cy e)) (ed_lines e) = take (cy e) (ed_lines e) @ [ed_line e]"
      and "drop (Suc (cy e)) (ed_lines e)
             = ed_lines e ! Suc (cy e) # drop (Suc (Suc (cy e))) (ed_lines e)"
      using joins cy
      by (simp_all add: take_Suc_conv_app_nth Cons_nth_drop_Suc ed_line_def)
    then show ?thesis
      using joins by (simp add: m ed_wf_def ed_gap_def ed_line_def join_snoc_snoc)
  next
    case last
    then have "move_horizontal 1 e = e"
      using len by (simp add: move_horizontal_def nat_add_distrib)
    then show ?thesis
      using last wf by (simp add: ed_gap_def)
  qed
qed

lemma move_vertical_text:
  assumes "ed_wf e"
  shows "\<exists>e'. move_vertical dy e = Some e' \<and> ed_wf e' \<and> ed_lines e' = ed_lines e"
proof -
  have "0 < length (ed_lines e)"
    using assms by (auto simp: ed_wf_def)
  then have "nat (clamp (int (cy e) + dy) 0 (int (length (ed_lines e)) - 1)) < length (ed_lines e)"
    and "ed_lines e \<noteq> []"
    by (auto intro: nat_clamp_less)
  then show ?thesis
    by (simp add: move_vertical_def ed_wf_def ed_line_def Let_def)
qed

subsection \<open>ASCII buffers stay ASCII\<close>

lemma is_ascii_ed_line: "ed_wf e \<Longrightarrow> ed_ascii e \<Longrightarrow> is_ascii (ed_line e)"
  by (simp add: ed_ascii_line ed_line_def ed_wf_def)

lemma ed_ascii_insert_char:
  "ed_wf e \<Longrightarrow> ed_ascii e \<Longrightarrow> c < 0x80 \<Longrightarrow> insert_char c e = Some e' \<Longrightarrow> ed_ascii e'"
  by (frule (1) is_ascii_ed_line)
    (auto simp: insert_char_eq ed_ascii_def intro!: list_all_update)

lemma ed_ascii_newline: "ed_wf e \<Longrightarrow> ed_ascii e \<Longrightarrow> newline e = Some e' \<Longrightarrow> ed_ascii e'"
  by (frule (1) is_ascii_ed_line) (auto simp: newline_eq ed_ascii_def)

lemma ed_ascii_backspace:
  assumes "ed_wf e" "ed_ascii e" "backspace e = Some e'"
  shows "ed_ascii e'"
proof (cases "cx e")
  case 0
  then show ?thesis
    using assms is_ascii_ed_line [OF assms(1,2)] ed_ascii_line [OF assms(2), of "cy e - 1"]
    by (cases "cy e") (auto simp: backspace_join_eq backspace_start_eq ed_ascii_def ed_wf_def)
next
  case (Suc x)
  then show ?thesis
    using assms is_ascii_ed_line [OF assms(1,2)]
    by (auto simp: backspace_in_line_eq ed_ascii_def intro!: list_all_update)
qed

lemma ed_ascii_move_horizontal [simp]: "ed_ascii (move_horizontal dx e) = ed_ascii e"
  by (simp add: move_horizontal_def ed_ascii_def Let_def)

section \<open>The interpretations\<close>

lemmas ed_gap_laws = insert_char_gap newline_gap backspace_gap
lemmas ed_ascii_laws = ed_ascii_insert_char ed_ascii_newline ed_ascii_backspace

lemma ed_ops_return:
  "ed_wf e \<Longrightarrow> \<exists>e'. insert_char c e = Some e'"
  "ed_wf e \<Longrightarrow> \<exists>e'. newline e = Some e'"
  "ed_wf e \<Longrightarrow> \<exists>e'. backspace e = Some e'"
proof -
  assume wf: "ed_wf e"
  show "\<exists>e'. insert_char c e = Some e'" "\<exists>e'. newline e = Some e'"
    using wf by (simp_all add: insert_char_eq newline_eq)
  show "\<exists>e'. backspace e = Some e'"
    using wf backspace_panics_iff [of e] by (cases "backspace e") (auto simp: ed_wf_def)
qed

interpretation ed: text_buffer editor_key ed_inv ed_gap "\<lambda>c. c < 0x80"
proof (unfold_locales, goal_cases)
  case (1 s c)
  then show ?case
    using ed_ops_return(1) [of s c] insert_char_gap [of s c] ed_ascii_insert_char [of s c]
    by (fastforce simp: ed_inv_def)
next
  case (2 s)
  then show ?case
    using ed_ops_return(2) [of s] newline_gap [of s] ed_ascii_newline [of s]
    by (fastforce simp: ed_inv_def)
next
  case (3 s)
  then show ?case
    using ed_ops_return(3) [of s] backspace_gap [of s] ed_ascii_backspace [of s]
    by (fastforce simp: ed_inv_def)
next
  case (4 s)
  then show ?case
    using move_left_gap [of s] by (simp add: ed_inv_def move_cursor_def)
next
  case (5 s)
  then show ?case
    using move_right_gap [of s] by (simp add: ed_inv_def move_cursor_def)
qed

lemma ed_inv_move_vertical:
  "ed_inv e \<Longrightarrow> \<exists>e'. move_vertical dy e = Some e' \<and> ed_inv e'"
  using move_vertical_text [of e dy] by (auto simp: ed_inv_def ed_ascii_def)

interpretation ed_safe: safe_machine editor_key ed_inv key_ascii
proof
  fix e k
  assume inv: "ed_inv e" and k: "key_ascii k"
  then have wf: "cy e < length (ed_lines e)" and asc: "ed_ascii e"
    by (auto simp: ed_inv_def ed_wf_def)
  show "\<exists>e'. editor_key k e = Some e' \<and> ed_inv e'"
  proof (cases k)
    case (KChar c)
    then show ?thesis
      using inv k ed_ops_return(1) [of e c] insert_char_gap [of e c] ed_ascii_insert_char [of e c]
      by (fastforce simp: ed_inv_def)
  next
    case KHome
    then show ?thesis
      using inv by (simp add: ed_inv_def ed_wf_def ed_ascii_def)
  next
    case KEnd
    then show ?thesis
      using inv wf asc
      by (simp add: ed_inv_def ed_wf_def ed_ascii_line_len ed_line_def) (simp add: ed_ascii_def)
  next
    case KUp
    then show ?thesis
      using ed_inv_move_vertical [OF inv, of "-1"] by (auto simp: move_cursor_def)
  next
    case KDown
    then show ?thesis
      using ed_inv_move_vertical [OF inv, of 1] by (auto simp: move_cursor_def)
  qed (use inv in \<open>auto dest: ed.enter_law ed.erase_law ed.left_law ed.right_law\<close>)
qed

lemma editor_new_lines: "ed_lines (editor_new uid agent content) = split_char nl content"
  by (simp add: editor_new_def)

lemma editor_new_wf: "ed_wf (editor_new uid agent content)"
  by (simp add: editor_new_def ed_wf_def)

lemma editor_new_inv: "is_ascii content \<Longrightarrow> ed_inv (editor_new uid agent content)"
  using split_char_chars [of _ nl content]
  by (fastforce simp: ed_inv_def editor_new_wf ed_ascii_def editor_new_lines list_all_iff is_ascii_def)

lemma editor_new_gap: "ed_gap (editor_new uid agent content) = ([], content)"
proof -
  have "cy (editor_new uid agent content) = 0" "cx (editor_new uid agent content) = 0"
    by (simp_all add: editor_new_def)
  then show ?thesis
    using join_split_char [of nl content] split_char_nonempty [of nl content]
    by (cases "split_char nl content") (simp_all add: ed_gap_def ed_line_def editor_new_lines)
qed

text \<open>Reading back an unedited buffer gives the text it was opened on.\<close>

lemma editor_text_new: "editor_text (editor_new uid agent content) = content"
  by (simp add: editor_text_def editor_new_lines join_split_char)

section \<open>Properties\<close>

text \<open>
  On a buffer whose cursor is at a column of its line, and whose text and keys are ASCII, no
  sequence of keys makes the editor panic, and the cursor stays on a column of its line.
\<close>

theorem editor_ascii_never_panics:
  assumes "ed_wf e" "ed_ascii e" "list_all key_ascii ks"
  shows "\<exists>e'. run editor_key ks e = Some e' \<and> ed_wf e' \<and> ed_ascii e'"
  using ed_safe.run_safe [of e ks] assms by (simp add: ed_inv_def)

theorem editor_ascii_never_panics_witness:
  "\<exists>e'. run editor_key [KEnd, KChar 97, KEnter, KBackspace, KUp, KBackspace]
          (editor_new [] [] (lit ''a'')) = Some e' \<and> ed_wf e' \<and> ed_ascii e'"
proof -
  have "ed_inv (editor_new [] [] (lit ''a''))"
    by (rule editor_new_inv) (simp add: lit_def)
  then show ?thesis
    using editor_ascii_never_panics
      [of "editor_new [] [] (lit ''a'')" "[KEnd, KChar 97, KEnter, KBackspace, KUp, KBackspace]"]
    by (simp add: ed_inv_def)
qed



text \<open>
  C38: \<open>Backspace\<close> panics exactly when the cursor is beyond the last \<open>char\<close> of its line, and
  \<open>End\<close> puts it there on every line that is not ASCII, because it counts bytes.
\<close>

theorem end_backspace_panics_iff:
  assumes "ed_wf e"
  shows "run editor_key [KEnd, KBackspace] e = None \<longleftrightarrow> \<not> is_ascii (ed_line e)"
proof -
  have cy: "cy e < length (ed_lines e)"
    using assms by (simp add: ed_wf_def)
  have "run editor_key [KEnd, KBackspace] e = None
      \<longleftrightarrow> length (ed_line e) < str_len (ed_line e)"
    using cy backspace_panics_iff [of "e\<lparr>cx := line_len e (cy e)\<rparr>"]
    by (simp add: line_len_def ed_line_def Option.bind_eq_None_conv)
  then show ?thesis
    using length_le_str_len [of "ed_line e"] str_len_eq_length_iff [of "ed_line e"] by linarith
qed

theorem end_backspace_panics_iff_witness:
  "run editor_key [KEnd, KBackspace] (editor_new [] [] [233]) = None \<longleftrightarrow> \<not> is_ascii [233]"
  using end_backspace_panics_iff [OF editor_new_wf, of "[]" "[]" "[233]"]
  by (simp add: ed_line_def editor_new_def)

section \<open>The characters of the buffer\<close>

definition ed_chars :: "(rchar \<Rightarrow> bool) \<Rightarrow> editor \<Rightarrow> bool" where
  "ed_chars P e \<longleftrightarrow> list_all (list_all P) (ed_lines e)"

lemma ed_chars_cx [simp]: "ed_chars P (e\<lparr>cx := n\<rparr>) = ed_chars P e"
  by (simp add: ed_chars_def)

lemma vec_get_list_all: "vec_get xs i = Some x \<Longrightarrow> list_all P xs \<Longrightarrow> P x"
  by (auto simp: vec_get_def list_all_length split: if_splits)

lemma vec_insert_list_all: "vec_insert xs i x = Some ys \<Longrightarrow> list_all P xs \<Longrightarrow> P x \<Longrightarrow> list_all P ys"
  by (auto simp: vec_insert_def split: if_splits)

lemma vec_remove_list_all: "vec_remove xs i = Some (x, ys) \<Longrightarrow> list_all P xs \<Longrightarrow> P x \<and> list_all P ys"
  by (auto simp: vec_remove_def split: if_splits) (simp add: list_all_length)

lemma insert_char_chars:
  assumes "ed_chars P e" "P c" "insert_char c e = Some e'"
  shows "ed_chars P e'"
proof -
  obtain line where l: "vec_get (ed_lines e) (cy e) = Some line"
    using assms(3) by (auto simp: insert_char_def bind_eq_Some_conv)
  then have "list_all P line" using assms(1) vec_get_list_all by (fastforce simp: ed_chars_def)
  with l assms show ?thesis by (auto simp: ed_chars_def insert_char_def intro!: list_all_update)
qed

lemma newline_chars:
  assumes "ed_chars P e" "newline e = Some e'"
  shows "ed_chars P e'"
proof -
  obtain line where l: "vec_get (ed_lines e) (cy e) = Some line"
    using assms(2) by (auto simp: newline_def bind_eq_Some_conv)
  then have line: "list_all P line" using assms(1) vec_get_list_all by (fastforce simp: ed_chars_def)
  then have "list_all (list_all P) ((ed_lines e)[cy e := take (cx e) line])"
    using assms(1) by (intro list_all_update) (simp_all add: ed_chars_def)
  with l line assms(2) show ?thesis
    by (auto simp: ed_chars_def newline_def bind_eq_Some_conv elim!: vec_insert_list_all)
qed

lemma backspace_chars:
  assumes "ed_chars P e" "backspace e = Some e'"
  shows "ed_chars P e'"
proof (cases "0 < cx e")
  case True
  obtain line where l: "vec_get (ed_lines e) (cy e) = Some line"
    using assms(2) True by (auto simp: backspace_def bind_eq_Some_conv)
  then have "list_all P line" using assms(1) vec_get_list_all by (fastforce simp: ed_chars_def)
  with l assms True show ?thesis
    by (auto simp: ed_chars_def backspace_def intro!: list_all_update split: if_splits)
next
  case False
  show ?thesis
  proof (cases "0 < cy e")
    case True
    obtain cur ls line where l: "vec_remove (ed_lines e) (cy e) = Some (cur, ls)"
      "vec_get ls (cy e - 1) = Some line"
      using assms(2) \<open>\<not> 0 < cx e\<close> True by (auto simp: backspace_def bind_eq_Some_conv Let_def)
    then have "list_all P cur" "list_all (list_all P) ls"
      using assms(1) vec_remove_list_all by (force simp: ed_chars_def)+
    moreover from this have "list_all P line" using l(2) vec_get_list_all by fastforce
    ultimately show ?thesis
      using l assms(2) \<open>\<not> 0 < cx e\<close> True by (auto simp: ed_chars_def backspace_def Let_def intro!: list_all_update)
  qed (use assms False in \<open>simp add: backspace_def\<close>)
qed

lemma editor_key_chars:
  assumes "ed_chars P e" "\<And>c. k = KChar c \<Longrightarrow> P c" "editor_key k e = Some e'"
  shows "ed_chars P e'"
proof -
  have vert: "ed_lines e2 = ed_lines e1" if "move_vertical dy e1 = Some e2" for dy e1 e2
    using that by (auto simp: move_vertical_def bind_eq_Some_conv Let_def split: if_splits)
  have hori: "ed_lines (move_horizontal dx e1) = ed_lines e1" for dx e1
    by (simp add: move_horizontal_def Let_def)
  have move: "ed_lines e' = ed_lines e" if "move_cursor dx dy e = Some e'" for dx dy
    using that by (auto simp: move_cursor_def bind_eq_Some_conv hori dest: vert split: if_splits)
  have same: ?thesis if "ed_lines e' = ed_lines e"
    using that assms(1) by (simp add: ed_chars_def)
  show ?thesis
    using assms
    by (cases k) (auto intro: insert_char_chars newline_chars backspace_chars same dest: move)
qed

lemma editor_new_chars: "list_all P s \<Longrightarrow> ed_chars P (editor_new uid agent s)"
  using split_char_chars [of _ nl s] by (fastforce simp: ed_chars_def editor_new_def list_all_iff)

lemma editor_text_chars:
  assumes "ed_chars P e" "P nl"
  shows "list_all P (editor_text e)"
proof -
  have "list_all (list_all P) ls \<Longrightarrow> list_all P (join [nl] ls)" for ls
    using assms(2) by (induction "[nl]" ls rule: join.induct) auto
  with assms show ?thesis by (simp add: ed_chars_def editor_text_def)
qed

end
