(* ===== verification/Menu.thy ===== *)
theory Menu
  imports Rust_String
begin

text \<open>
  The view modes and the pull-down menu of \<open>crates/otelc-tui/src/app.rs\<close>. The loop of \<open>step\<close> is a
  partial function: \<open>None\<close> when it panics or does not end. It ends for any menu that has an entry
  other than a separator when it moves by one.
\<close>

section \<open>View modes\<close>

datatype view_mode = Fleet | Config | Pipeline | Metrics | Logs | Health

fun view_label :: "view_mode \<Rightarrow> rstring" where
  "view_label Fleet = lit ''Fleet''"
| "view_label Config = lit ''Config''"
| "view_label Pipeline = lit ''Pipeline''"
| "view_label Metrics = lit ''Metrics''"
| "view_label Logs = lit ''Logs''"
| "view_label Health = lit ''Health''"

definition all_views :: "view_mode list" where
  "all_views = [Fleet, Config, Pipeline, Metrics, Logs, Health]"

definition is_ascii_digit :: "rchar \<Rightarrow> bool" where
  "is_ascii_digit c \<longleftrightarrow> 48 \<le> c \<and> c \<le> 57"

definition from_digit :: "rchar \<Rightarrow> view_mode option" where
  "from_digit c =
     (if is_ascii_digit c then
        (let idx = c - 48 in
         if 1 \<le> idx \<and> idx \<le> 6 then Some (all_views ! (idx - 1)) else None)
      else None)"

text \<open>\<open>iter().position\<close>\<close>

fun position :: "('a \<Rightarrow> bool) \<Rightarrow> 'a list \<Rightarrow> nat option" where
  "position P [] = None"
| "position P (x # xs) = (if P x then Some 0 else map_option Suc (position P xs))"

lemma position_Some: "position P xs = Some i \<Longrightarrow> i < length xs \<and> P (xs ! i)"
  by (induction xs arbitrary: i) (auto split: if_splits)

lemma position_None: "position P xs = None \<longleftrightarrow> (\<forall>x \<in> set xs. \<not> P x)"
  by (induction xs) auto

definition next_view :: "view_mode \<Rightarrow> view_mode" where
  "next_view v =
     (let idx = (case position (\<lambda>w. w = v) all_views of Some i \<Rightarrow> i | None \<Rightarrow> 0)
      in all_views ! ((idx + 1) mod length all_views))"

section \<open>The menu\<close>

datatype menu_action =
    SetView view_mode | EditAction | RestartAction | FilterAction | HelpAction | QuitAction
  | Separator

record menu_entry =
  me_label :: rstring
  me_action :: menu_action

record menu =
  entries :: "menu_entry list"
  selected :: nat

definition entry :: "rstring \<Rightarrow> menu_action \<Rightarrow> menu_entry" where
  "entry label action = \<lparr>me_label = label, me_action = action\<rparr>"

definition menu_entries :: "menu_entry list" where
  "menu_entries =
     [entry (lit ''Fleet view          1'') (SetView Fleet),
      entry (lit ''Config view         2'') (SetView Config),
      entry (lit ''Pipeline view       3'') (SetView Pipeline),
      entry (lit ''Metrics view        4'') (SetView Metrics),
      entry (lit ''Logs view           5'') (SetView Logs),
      entry (lit ''Health view         6'') (SetView Health),
      entry [] Separator,
      entry (lit ''Edit remote config F4'') EditAction,
      entry (lit ''Restart agent      F6'') RestartAction,
      entry (lit ''Filter fleet       F7'') FilterAction,
      entry [] Separator,
      entry (lit ''Help               F1'') HelpAction,
      entry (lit ''Quit              F10'') QuitAction]"

definition menu_new :: menu where
  "menu_new = \<lparr>entries = menu_entries, selected = 0\<rparr>"

text \<open>\<open>rem_euclid\<close> panics on a divisor of zero, indexing panics out of range.\<close>

partial_function (option) step_loop :: "menu_entry list \<Rightarrow> int \<Rightarrow> int \<Rightarrow> int option" where
  "step_loop es delta idx =
     (if es = [] then None
      else do {
        e \<leftarrow> vec_get es (nat ((idx + delta) mod int (length es)));
        if me_action e \<noteq> Separator then Some ((idx + delta) mod int (length es))
        else step_loop es delta ((idx + delta) mod int (length es))
      })"

definition menu_step :: "int \<Rightarrow> menu \<Rightarrow> menu option" where
  "menu_step delta m = do {
     idx \<leftarrow> step_loop (entries m) delta (int (selected m));
     Some (m\<lparr>selected := nat idx\<rparr>)
   }"

section \<open>The loop ends\<close>

definition on_separator :: "menu_entry list \<Rightarrow> int \<Rightarrow> bool" where
  "on_separator es idx \<longleftrightarrow> me_action (es ! nat (idx mod int (length es))) = Separator"

lemma step_loop_unfold:
  assumes "es \<noteq> []"
  shows "step_loop es delta idx =
    (if on_separator es (idx + delta) then step_loop es delta ((idx + delta) mod int (length es))
     else Some ((idx + delta) mod int (length es)))"
proof -
  have "nat ((idx + delta) mod int (length es)) < length es"
    using assms by (simp add: nat_less_iff)
  then show ?thesis
    using assms by (subst step_loop.simps) (simp add: on_separator_def)
qed

lemma on_separator_mod [simp]: "on_separator es (i mod int (length es)) = on_separator es i"
  by (simp add: on_separator_def)

lemma on_separator_mod_add [simp]:
  "on_separator es (i mod int (length es) + j) = on_separator es (i + j)"
  by (simp add: on_separator_def mod_simps)

text \<open>The loop yields the first position behind the start, in steps of \<open>delta\<close>, that is no separator.\<close>

lemma step_loop_first:
  assumes "es \<noteq> []"
  shows "\<not> on_separator es (idx + delta * int (Suc k)) \<Longrightarrow>
    \<forall>j < k. on_separator es (idx + delta * int (Suc j)) \<Longrightarrow>
    step_loop es delta idx = Some ((idx + delta * int (Suc k)) mod int (length es))"
proof (induction k arbitrary: idx)
  case 0
  then show ?case by (simp add: step_loop_unfold [OF assms])
next
  case (Suc k)
  have first: "on_separator es (idx + delta)"
    using Suc.prems(2) by (metis mult.right_neutral of_nat_1 One_nat_def zero_less_Suc)
  let ?idx = "(idx + delta) mod int (length es)"
  have shift: "idx + delta + delta * int (Suc j) = idx + delta * int (Suc (Suc j))" for j
    by (simp add: algebra_simps)
  have "step_loop es delta ?idx = Some ((?idx + delta * int (Suc k)) mod int (length es))"
    using Suc.prems by (intro Suc.IH) (auto simp: shift simp del: of_nat_Suc)
  also have "(?idx + delta * int (Suc k)) mod int (length es)
      = (idx + delta * int (Suc (Suc k))) mod int (length es)"
    unfolding mod_add_left_eq shift ..
  finally show ?case by (simp add: step_loop_unfold [OF assms] first del: of_nat_Suc)
qed

lemma unit_step_reaches:
  assumes "i < length es" "delta = 1 \<or> delta = -1"
  shows "\<exists>k. (idx + delta * int (Suc k)) mod int (length es) = int i"
proof -
  let ?n = "int (length es)"
  let ?k = "(delta * (int i - idx) - 1) mod ?n"
  have n: "0 < ?n" using assms(1) by (cases es) simp_all
  have k: "int (Suc (nat ?k)) = ?k + 1" using n by simp
  have "(idx + delta * (?k + 1)) mod ?n = (idx + delta * (delta * (int i - idx) - 1 + 1)) mod ?n"
    by (intro mod_add_cong mod_mult_cong refl) simp_all
  also have "idx + delta * (delta * (int i - idx) - 1 + 1) = int i"
    using assms(2) by auto
  finally show ?thesis
    using assms(1) by (intro exI [of _ "nat ?k"]) (simp only: k, simp)
qed

lemma menu_step_nearest:
  assumes "e \<in> set (entries m)" "me_action e \<noteq> Separator" "delta = 1 \<or> delta = -1"
  shows "\<exists>k i. menu_step delta m = Some (m\<lparr>selected := i\<rparr>)
    \<and> int i = (int (selected m) + delta * int (Suc k)) mod int (length (entries m))
    \<and> i < length (entries m) \<and> me_action (entries m ! i) \<noteq> Separator
    \<and> (\<forall>j < k. on_separator (entries m) (int (selected m) + delta * int (Suc j)))"
proof -
  let ?es = "entries m" and ?idx = "int (selected m)"
  let ?P = "\<lambda>k. \<not> on_separator ?es (?idx + delta * int (Suc k))"
  have ne: "?es \<noteq> []" using assms(1) by auto
  obtain i where "i < length ?es" "?es ! i = e"
    using assms(1) by (auto simp: in_set_conv_nth)
  moreover from this obtain k0 where "(?idx + delta * int (Suc k0)) mod int (length ?es) = int i"
    using unit_step_reaches [OF _ assms(3), of i ?es ?idx] by blast
  ultimately have "?P k0"
    using assms(2) by (simp add: on_separator_def del: of_nat_Suc)
  define k where "k = (LEAST k. ?P k)"
  have k: "?P k" "\<forall>j < k. \<not> ?P j"
    using LeastI [of ?P, OF \<open>?P k0\<close>] not_less_Least [of _ ?P] by (auto simp: k_def)
  let ?i = "nat ((?idx + delta * int (Suc k)) mod int (length ?es))"
  have pos: "0 \<le> (?idx + delta * int (Suc k)) mod int (length ?es)" "?i < length ?es"
    using ne by (simp_all add: nat_less_iff)
  have "step_loop ?es delta ?idx = Some ((?idx + delta * int (Suc k)) mod int (length ?es))"
    using k by (intro step_loop_first [OF ne]) simp_all
  then have "menu_step delta m = Some (m\<lparr>selected := ?i\<rparr>)"
    by (simp add: menu_step_def)
  with pos k show ?thesis
    by (intro exI [of _ k] exI [of _ ?i]) (auto simp: on_separator_def)
qed

section \<open>The program's menu\<close>

definition menu_ok :: "menu \<Rightarrow> bool" where
  "menu_ok m \<longleftrightarrow> entries m = menu_entries \<and> selected m < length menu_entries
     \<and> me_action (menu_entries ! selected m) \<noteq> Separator"

lemma menu_ok_new: "menu_ok menu_new"
  by (simp add: menu_ok_def menu_new_def menu_entries_def entry_def)

lemma menu_ok_step:
  assumes "menu_ok m" "delta = 1 \<or> delta = -1"
  shows "\<exists>m'. menu_step delta m = Some m' \<and> menu_ok m'"
proof -
  have "menu_entries ! selected m \<in> set (entries m)"
    using assms(1) by (simp add: menu_ok_def)
  from menu_step_nearest [OF this _ assms(2)] assms(1) show ?thesis
    by (auto simp: menu_ok_def)
qed

section \<open>Properties\<close>

text \<open>
  C27: in any menu with at least one entry that is not a separator, a step up or down ends, without
  a panic, at the nearest such entry in its direction, wrapping around at the ends: everything it
  passed over is a separator.
\<close>

theorem menu_step_spec:
  assumes "e \<in> set (entries m)" "me_action e \<noteq> Separator" "delta = 1 \<or> delta = -1"
  shows "\<exists>k i. menu_step delta m = Some (m\<lparr>selected := i\<rparr>)
    \<and> int i = (int (selected m) + delta * int (Suc k)) mod int (length (entries m))
    \<and> i < length (entries m) \<and> me_action (entries m ! i) \<noteq> Separator
    \<and> (\<forall>j < k. on_separator (entries m) (int (selected m) + delta * int (Suc j)))"
  by (rule menu_step_nearest [OF assms])

lemma menu_step_spec_witness:
  "\<exists>i. menu_step 1 (menu_new\<lparr>selected := 5\<rparr>) = Some (menu_new\<lparr>selected := i\<rparr>)
     \<and> me_action (menu_entries ! i) \<noteq> Separator"
proof -
  have "entry (lit ''Help               F1'') HelpAction \<in> set (entries (menu_new\<lparr>selected := 5\<rparr>))"
    by (simp add: menu_new_def menu_entries_def)
  from menu_step_spec [OF this, of 1] show ?thesis
    by (auto simp: entry_def menu_new_def)
qed

end
