(* ===== verification/App.thy ===== *)
theory App
  imports Control Editor Menu
begin

text \<open>
  The application of \<open>crates/otelc-tui/src/app.rs\<close>: its state, the handler of control-plane events,
  the handlers of keys, and the event loop. A handler is partial where the code can panic or loop.
  The control plane is the record \<open>cp\<close> of its methods and a state threaded through the
  application; \<open>lower\<close> is Unicode lower-casing, a parameter of the model.
  Lengths and positions are unbounded: the \<open>usize\<close> to \<open>i32\<close> casts of \<open>move_selection\<close> lose nothing
  below $2^{31}$ agents. The scroll offset of a panel is a 16-bit word.
\<close>

section \<open>State\<close>

datatype side = LeftSide | RightSide

record panel =
  view :: view_mode
  scroll :: u16

datatype modal =
    Help
  | ModalMessage rstring rstring           \<comment> \<open>title, body\<close>
  | Confirm rstring rstring rstring         \<comment> \<open>title, body, uid\<close>
  | ModalEditor editor

record 'c app =
  control :: 'c
  agents :: "(rstring, agent_detail) hashmap"
  telemetry :: "(rstring, telemetry_snapshot) hashmap"
  order :: "rstring list"
  selected_uid :: "rstring option"
  left :: panel
  right :: panel
  active :: side
  modal :: "modal option"
  app_menu :: "menu option"
  flt :: rstring                            \<comment> \<open>\<open>filter\<close>\<close>
  filtering :: bool
  status :: rstring
  should_quit :: bool

definition app_new :: "'c control_plane \<Rightarrow> 'c \<Rightarrow> 'c app" where
  "app_new cp c =
     \<lparr>control = c, agents = hm_empty, telemetry = hm_empty, order = [], selected_uid = None,
      left = \<lparr>view = Fleet, scroll = 0\<rparr>, right = \<lparr>view = Config, scroll = 0\<rparr>,
      active = LeftSide, modal = None, app_menu = None, flt = [], filtering = False,
      status = cp_mode cp @ lit '' mode '' @ [183] @ lit '' '' @ cp_endpoint cp c
        @ lit '' '' @ [183] @ lit '' waiting for agents to connect'' @ [8230],
      should_quit = False\<rparr>"

section \<open>Views of the state\<close>

definition matches :: "(rstring \<Rightarrow> rstring) \<Rightarrow> rstring \<Rightarrow> agent_detail \<Rightarrow> bool" where
  "matches lower needle a \<longleftrightarrow> needle = []
     \<or> str_contains (lower (ad_name a)) needle \<or> str_contains (lower (ad_uid a)) needle"

definition visible :: "(rstring \<Rightarrow> rstring) \<Rightarrow> 'c app \<Rightarrow> agent_detail list" where
  "visible lower app =
     (let needle = lower (flt app)
      in sort_key ad_name (filter (matches lower needle)
           (List.map_filter (hm_get (agents app)) (order app))))"

definition selected_agent :: "(rstring \<Rightarrow> rstring) \<Rightarrow> 'c app \<Rightarrow> agent_detail option" where
  "selected_agent lower app =
     (let vis = visible lower app;
          first = (case vis of [] \<Rightarrow> None | a # _ \<Rightarrow> Some a)
      in case selected_uid app of
           Some uid \<Rightarrow>
             (case find (\<lambda>a. ad_uid a = uid) vis of Some found \<Rightarrow> Some found | None \<Rightarrow> first)
         | None \<Rightarrow> first)"

definition selected_telemetry :: "(rstring \<Rightarrow> rstring) \<Rightarrow> 'c app \<Rightarrow> telemetry_snapshot option" where
  "selected_telemetry lower app =
     (case selected_agent lower app of
        None \<Rightarrow> None | Some a \<Rightarrow> hm_get (telemetry app) (ad_uid a))"

definition active_panel :: "'c app \<Rightarrow> panel" where
  "active_panel app = (case active app of LeftSide \<Rightarrow> left app | RightSide \<Rightarrow> right app)"

definition set_active_panel :: "panel \<Rightarrow> 'c app \<Rightarrow> 'c app" where
  "set_active_panel p app =
     (case active app of LeftSide \<Rightarrow> app\<lparr>left := p\<rparr> | RightSide \<Rightarrow> app\<lparr>right := p\<rparr>)"

definition agent_name :: "rstring \<Rightarrow> 'c app \<Rightarrow> rstring" where
  "agent_name uid app = (case hm_get (agents app) uid of Some a \<Rightarrow> ad_name a | None \<Rightarrow> uid)"

definition agent_supports :: "agent_detail \<Rightarrow> rstring \<Rightarrow> bool" where
  "agent_supports a capability =
     list_ex (\<lambda>(name, enabled). name = capability \<and> enabled) (ad_capabilities a)"

definition error_modal :: "rstring \<Rightarrow> rstring \<Rightarrow> modal" where
  "error_modal title b = ModalMessage title b"

section \<open>Control-plane events\<close>

fun handle_control :: "control_event \<Rightarrow> 'c app \<Rightarrow> 'c app" where
  "handle_control (AgentUpserted detail) app =
     (let uid = ad_uid detail;
          app = (if hm_get (agents app) uid = None then
                   (let app = app\<lparr>order := order app @ [uid]\<rparr>;
                        app = (if selected_uid app = None then app\<lparr>selected_uid := Some uid\<rparr> else app)
                    in app\<lparr>status := lit ''agent '' @ ad_name detail @ lit '' connected''\<rparr>)
                 else app)
      in app\<lparr>agents := hm_insert uid detail (agents app)\<rparr>)"
| "handle_control (AgentDisconnected uid) app =
     (let app = app\<lparr>agents := hm_remove uid (agents app),
                    order := filter (\<lambda>u. u \<noteq> uid) (order app),
                    telemetry := hm_remove uid (telemetry app)\<rparr>;
          app = (if selected_uid app = Some uid
                 then app\<lparr>selected_uid := (case order app of [] \<Rightarrow> None | u # _ \<Rightarrow> Some u)\<rparr>
                 else app)
      in app\<lparr>status := lit ''an agent disconnected''\<rparr>)"
| "handle_control (TelemetryEvent uid snap) app =
     app\<lparr>telemetry := hm_insert uid snap (telemetry app)\<rparr>"
| "handle_control (Notice msg) app = app\<lparr>status := msg\<rparr>"

section \<open>Actions\<close>

definition do_restart :: "'c control_plane \<Rightarrow> rstring \<Rightarrow> 'c app \<Rightarrow> 'c app" where
  "do_restart cp uid app =
     (let name = agent_name uid app in
      case cp_restart cp uid (control app) of
        (Inr _, c) \<Rightarrow> app\<lparr>control := c, status := lit ''restart command sent to '' @ name\<rparr>
      | (Inl e, c) \<Rightarrow> app\<lparr>control := c, modal := Some (error_modal (lit ''Restart failed'') e)\<rparr>)"

definition do_push :: "'c control_plane \<Rightarrow> rstring \<Rightarrow> rstring \<Rightarrow> 'c app \<Rightarrow> 'c app" where
  "do_push cp uid yaml app =
     (let name = agent_name uid app in
      case cp_push_config cp uid yaml (control app) of
        (Inr _, c) \<Rightarrow> app\<lparr>control := c, status := lit ''remote config pushed to '' @ name\<rparr>
      | (Inl e, c) \<Rightarrow> app\<lparr>control := c, modal := Some (error_modal (lit ''Config push failed'') e)\<rparr>)"

definition open_editor :: "(rstring \<Rightarrow> rstring) \<Rightarrow> 'c app \<Rightarrow> 'c app" where
  "open_editor lower app =
     (case selected_agent lower app of
        None \<Rightarrow> app\<lparr>status := lit ''no agent selected''\<rparr>
      | Some a \<Rightarrow>
          (if \<not> agent_supports a (lit ''AcceptsRemoteConfig'')
           then app\<lparr>status := ad_name a @ lit '' does not accept remote config''\<rparr>
           else app\<lparr>modal := Some (ModalEditor
                  (editor_new (ad_uid a) (ad_name a) (ad_effective_config a)))\<rparr>))"

definition confirm_restart :: "(rstring \<Rightarrow> rstring) \<Rightarrow> 'c app \<Rightarrow> 'c app" where
  "confirm_restart lower app =
     (case selected_agent lower app of
        None \<Rightarrow> app\<lparr>status := lit ''no agent selected''\<rparr>
      | Some a \<Rightarrow>
          (if \<not> agent_supports a (lit ''AcceptsRestartCommand'')
           then app\<lparr>status := ad_name a @ lit '' does not accept restart commands''\<rparr>
           else app\<lparr>modal := Some (Confirm (lit ''Restart agent'')
                  (lit ''Send a restart command to '' @ ad_name a @ lit ''?'') (ad_uid a))\<rparr>))"

definition move_selection :: "(rstring \<Rightarrow> rstring) \<Rightarrow> int \<Rightarrow> 'c app \<Rightarrow> 'c app option" where
  "move_selection lower delta app =
     (let vis = visible lower app in
      if vis = [] then Some app
      else do {
        let current = (case selected_uid app of
                         None \<Rightarrow> 0
                       | Some uid \<Rightarrow> (case position (\<lambda>a. ad_uid a = uid) vis of
                                       Some i \<Rightarrow> i | None \<Rightarrow> 0));
        let nxt = nat (clamp (int current + delta) 0 (int (length vis) - 1));
        a \<leftarrow> vec_get vis nxt;
        Some (app\<lparr>selected_uid := Some (ad_uid a)\<rparr>)
      })"

text \<open>\<open>next.max(0) as u16\<close> keeps the low 16 bits.\<close>

definition navigate :: "(rstring \<Rightarrow> rstring) \<Rightarrow> int \<Rightarrow> 'c app \<Rightarrow> 'c app option" where
  "navigate lower delta app =
     (if view (active_panel app) = Fleet then move_selection lower delta app
      else (let p = active_panel app;
                nxt = uint (scroll p) + delta
            in Some (set_active_panel (p\<lparr>scroll := word_of_int (max nxt 0)\<rparr>) app)))"

section \<open>Keys\<close>

text \<open>The arms of \<open>handle_global_key\<close> in the order of the source.\<close>

definition handle_global_key ::
    "(rstring \<Rightarrow> rstring) \<Rightarrow> key_code \<Rightarrow> 'c app \<Rightarrow> 'c app option" where
  "handle_global_key lower key app =
     (if key = KChar (of_char (CHR ''q'')) \<or> key = KF 10 then Some (app\<lparr>should_quit := True\<rparr>)
      else if key = KF 1 then Some (app\<lparr>modal := Some Help\<rparr>)
      else if key = KF 2 \<or> key = KF 9 then Some (app\<lparr>app_menu := Some menu_new\<rparr>)
      else if key = KF 3 then
        Some (set_active_panel \<lparr>view = next_view (view (active_panel app)), scroll = 0\<rparr> app)
      else if key = KF 4 \<or> key = KF 5 then Some (open_editor lower app)
      else if key = KF 6 then Some (confirm_restart lower app)
      else if key = KF 7 then
        Some (app\<lparr>filtering := True,
                  status := lit ''filter: type to match, Enter to apply, Esc to clear''\<rparr>)
      else if key = KF 8 then
        Some (app\<lparr>right := \<lparr>view = Health, scroll = 0\<rparr>, active := RightSide\<rparr>)
      else if key = KTab \<or> key = KBackTab then
        Some (app\<lparr>active := (case active app of LeftSide \<Rightarrow> RightSide | RightSide \<Rightarrow> LeftSide)\<rparr>)
      else (case key of
        KChar c \<Rightarrow>
          (if is_ascii_digit c then
             (case from_digit c of
                Some v \<Rightarrow> Some (set_active_panel \<lparr>view = v, scroll = 0\<rparr> app)
              | None \<Rightarrow> Some app)
           else if c = of_char (CHR ''k'') then navigate lower (-1) app
           else if c = of_char (CHR ''j'') then navigate lower 1 app
           else Some app)
      | KUp \<Rightarrow> navigate lower (-1) app
      | KDown \<Rightarrow> navigate lower 1 app
      | KPageUp \<Rightarrow> navigate lower (-10) app
      | KPageDown \<Rightarrow> navigate lower 10 app
      | KEnter \<Rightarrow>
          Some (if view (active_panel app) = Fleet
                then app\<lparr>right := \<lparr>view = Config, scroll = 0\<rparr>, active := RightSide\<rparr> else app)
      | KEsc \<Rightarrow>
          Some (if flt app \<noteq> [] then app\<lparr>flt := [], status := lit ''filter cleared''\<rparr> else app)
      | _ \<Rightarrow> Some app))"

definition handle_filter_key :: "key_code \<Rightarrow> 'c app \<Rightarrow> 'c app" where
  "handle_filter_key key app =
     (case key of
        KChar c \<Rightarrow> app\<lparr>flt := flt app @ [c]\<rparr>
      | KBackspace \<Rightarrow> app\<lparr>flt := butlast (flt app)\<rparr>
      | KEnter \<Rightarrow> app\<lparr>filtering := False,
                       status := lit ''filter applied: '' @ [39] @ flt app @ [39]\<rparr>
      | KEsc \<Rightarrow> app\<lparr>filtering := False, flt := [], status := lit ''filter cleared''\<rparr>
      | _ \<Rightarrow> app)"

fun apply_menu_action :: "(rstring \<Rightarrow> rstring) \<Rightarrow> menu_action \<Rightarrow> 'c app \<Rightarrow> 'c app" where
  "apply_menu_action lower (SetView v) app = set_active_panel \<lparr>view = v, scroll = 0\<rparr> app"
| "apply_menu_action lower EditAction app = open_editor lower app"
| "apply_menu_action lower RestartAction app = confirm_restart lower app"
| "apply_menu_action lower FilterAction app = app\<lparr>filtering := True\<rparr>"
| "apply_menu_action lower HelpAction app = app\<lparr>modal := Some Help\<rparr>"
| "apply_menu_action lower QuitAction app = app\<lparr>should_quit := True\<rparr>"
| "apply_menu_action lower Separator app = app"

definition menu_move :: "int \<Rightarrow> menu \<Rightarrow> 'c app \<Rightarrow> 'c app option" where
  "menu_move delta m app = do {
     m' \<leftarrow> menu_step delta m;
     Some (app\<lparr>app_menu := Some m'\<rparr>)
   }"

definition handle_menu_key :: "(rstring \<Rightarrow> rstring) \<Rightarrow> key_code \<Rightarrow> 'c app \<Rightarrow> 'c app option" where
  "handle_menu_key lower key app =
     (case app_menu app of
        None \<Rightarrow> Some app
      | Some m \<Rightarrow>
          (if key = KUp \<or> key = KChar (of_char (CHR ''k'')) then menu_move (-1) m app
           else if key = KDown \<or> key = KChar (of_char (CHR ''j'')) then menu_move 1 m app
           else if key = KEsc \<or> key = KF 2 \<or> key = KF 9 then Some (app\<lparr>app_menu := None\<rparr>)
           else if key = KEnter then do {
             e \<leftarrow> vec_get (entries m) (selected m);
             Some (apply_menu_action lower (me_action e) (app\<lparr>app_menu := None\<rparr>))
           }
           else Some app))"

definition handle_modal_key ::
    "'c control_plane \<Rightarrow> key_code \<Rightarrow> 'c app \<Rightarrow> 'c app option" where
  "handle_modal_key cp key app =
     (case modal app of
        None \<Rightarrow> Some app
      | Some (Confirm title b uid) \<Rightarrow>
          (if key = KEnter \<or> key = KChar (of_char (CHR ''y''))
           then Some (do_restart cp uid (app\<lparr>modal := None\<rparr>))
           else if key = KEsc \<or> key = KChar (of_char (CHR ''n'')) then Some (app\<lparr>modal := None\<rparr>)
           else Some app)
      | Some (ModalEditor e) \<Rightarrow>
          (if key = KEsc then Some (app\<lparr>modal := None, status := lit ''edit cancelled''\<rparr>)
           else if key = KF 5
           then Some (do_push cp (ed_uid e) (editor_text e) (app\<lparr>modal := None\<rparr>))
           else do {
             e' \<leftarrow> editor_key key e;
             Some (app\<lparr>modal := Some (ModalEditor e')\<rparr>)
           })
      | Some _ \<Rightarrow>
          Some (case key of KEsc \<Rightarrow> app\<lparr>modal := None\<rparr> | KEnter \<Rightarrow> app\<lparr>modal := None\<rparr>
                | KChar _ \<Rightarrow> app\<lparr>modal := None\<rparr> | _ \<Rightarrow> app))"

definition handle_key ::
    "'c control_plane \<Rightarrow> (rstring \<Rightarrow> rstring) \<Rightarrow> key_code \<Rightarrow> 'c app \<Rightarrow> 'c app option" where
  "handle_key cp lower key app =
     (if modal app \<noteq> None then handle_modal_key cp key app
      else if app_menu app \<noteq> None then handle_menu_key lower key app
      else if filtering app then Some (handle_filter_key key app)
      else handle_global_key lower key app)"

section \<open>The event loop\<close>

datatype app_input = InKey key_code | InControl control_event | InOther  \<comment> \<open>other terminal events, ticks\<close>

fun app_step :: "'c control_plane \<Rightarrow> (rstring \<Rightarrow> rstring) \<Rightarrow> app_input \<Rightarrow> 'c app \<Rightarrow> 'c app option" where
  "app_step cp lower (InKey key) app = handle_key cp lower key app"
| "app_step cp lower (InControl e) app = Some (handle_control e app)"
| "app_step cp lower InOther app = Some app"

text \<open>The loop of \<open>run\<close>: it leaves as soon as an input asked to quit.\<close>

fun app_loop :: "'c control_plane \<Rightarrow> (rstring \<Rightarrow> rstring) \<Rightarrow> app_input list \<Rightarrow> 'c app \<Rightarrow> 'c app option" where
  "app_loop cp lower [] app = Some app"
| "app_loop cp lower (i # is) app =
     (if should_quit app then Some app else app_step cp lower i app \<bind> app_loop cp lower is)"

end
