(* ===== verification/App_Inv.thy ===== *)
theory App_Inv
  imports App
begin

text \<open>
  The application's invariants: the list of agents, the map of their views and the selection agree,
  the menu points at an entry that can be chosen, an open editor holds a well-formed buffer. Every
  handler preserves them, and on ASCII texts and keys no handler panics.
\<close>

section \<open>The fleet\<close>

definition fleet_inv ::
    "(rstring, agent_detail) hashmap \<Rightarrow> rstring list \<Rightarrow> rstring option \<Rightarrow> bool" where
  "fleet_inv ags ord sel \<longleftrightarrow> hm_wf ags \<and> distinct ord \<and> set ord = set (hm_keys ags)
     \<and> (\<forall>k a. hm_get ags k = Some a \<longrightarrow> ad_uid a = k)
     \<and> (case sel of None \<Rightarrow> ord = [] | Some u \<Rightarrow> u \<in> set ord)"

definition app_inv :: "'c app \<Rightarrow> bool" where
  "app_inv app \<longleftrightarrow> fleet_inv (agents app) (order app) (selected_uid app)
     \<and> (case app_menu app of None \<Rightarrow> True | Some m \<Rightarrow> menu_ok m)"

lemma fleet_inv_uid: "fleet_inv ags ord sel \<Longrightarrow> hm_get ags k = Some a \<Longrightarrow> ad_uid a = k"
  by (simp add: fleet_inv_def)

lemma fleet_inv_order: "fleet_inv ags ord sel \<Longrightarrow> u \<in> set ord \<longleftrightarrow> hm_get ags u \<noteq> None"
  by (simp add: fleet_inv_def hm.keys_get)

lemma fleet_inv_new: "fleet_inv hm_empty [] None"
  by (simp add: fleet_inv_def hm.keys_get)

lemma fleet_inv_select: "fleet_inv ags ord sel \<Longrightarrow> u \<in> set ord \<Longrightarrow> fleet_inv ags ord (Some u)"
  by (simp add: fleet_inv_def)

lemma fleet_inv_update:
  assumes "fleet_inv ags ord sel" "hm_get ags (ad_uid a) \<noteq> None"
  shows "fleet_inv (hm_insert (ad_uid a) a ags) ord sel"
  using assms by (auto simp: fleet_inv_def hm.keys_get split: option.splits)

lemma fleet_inv_add:
  assumes "fleet_inv ags ord sel" "hm_get ags (ad_uid a) = None"
  shows "fleet_inv (hm_insert (ad_uid a) a ags) (ord @ [ad_uid a])
    (case sel of None \<Rightarrow> Some (ad_uid a) | Some u \<Rightarrow> Some u)"
  using assms by (auto simp: fleet_inv_def hm.keys_get split: option.splits)

lemma fleet_inv_remove:
  assumes "fleet_inv ags ord sel"
  shows "fleet_inv (hm_remove uid ags) (filter (\<lambda>u. u \<noteq> uid) ord)
    (if sel = Some uid
     then case filter (\<lambda>u. u \<noteq> uid) ord of [] \<Rightarrow> None | u # _ \<Rightarrow> Some u else sel)"
proof -
  have first: "case (case xs of [] \<Rightarrow> None | u # _ \<Rightarrow> Some u) of None \<Rightarrow> xs = [] | Some u \<Rightarrow> u \<in> set xs"
    for xs :: "rstring list" by (cases xs) simp_all
  have "set (filter (\<lambda>u. u \<noteq> uid) ord) = set (hm_keys (hm_remove uid ags))"
    using assms by (auto simp: fleet_inv_def hm.keys_get)
  with assms first show ?thesis
    by (auto simp: fleet_inv_def hm.keys_get split: option.splits)
qed

section \<open>Visible agents\<close>

lemma set_visible:
  "a \<in> set (visible lower app) \<longleftrightarrow>
     (\<exists>u \<in> set (order app). hm_get (agents app) u = Some a) \<and> matches lower (lower (flt app)) a"
  by (force simp: visible_def Let_def List.map_filter_def)

lemma visible_mem:
  assumes "app_inv app"
  shows "a \<in> set (visible lower app) \<longleftrightarrow>
    hm_get (agents app) (ad_uid a) = Some a \<and> matches lower (lower (flt app)) a"
  using assms fleet_inv_uid fleet_inv_order unfolding set_visible app_inv_def
  by (metis option.discI)

lemma visible_order:
  "app_inv app \<Longrightarrow> a \<in> set (visible lower app) \<Longrightarrow> ad_uid a \<in> set (order app)"
  using fleet_inv_order by (auto simp: visible_mem app_inv_def)

lemma selected_agent_visible:
  "selected_agent lower app = Some a \<Longrightarrow> a \<in> set (visible lower app)"
  by (auto simp: selected_agent_def Let_def find_Some_iff split: option.splits list.splits)

section \<open>Panels\<close>

lemma set_active_panel_simps [simp]:
  "control (set_active_panel p app) = control app"
  "agents (set_active_panel p app) = agents app"
  "telemetry (set_active_panel p app) = telemetry app"
  "order (set_active_panel p app) = order app"
  "selected_uid (set_active_panel p app) = selected_uid app"
  "active (set_active_panel p app) = active app"
  "modal (set_active_panel p app) = modal app"
  "app_menu (set_active_panel p app) = app_menu app"
  "flt (set_active_panel p app) = flt app"
  "filtering (set_active_panel p app) = filtering app"
  "status (set_active_panel p app) = status app"
  "should_quit (set_active_panel p app) = should_quit app"
  "active_panel (set_active_panel p app) = p"
  by (simp_all add: set_active_panel_def active_panel_def split: side.split)

section \<open>The handlers preserve the invariant\<close>

lemma app_inv_new: "app_inv (app_new cp c)"
  by (simp add: app_inv_def app_new_def fleet_inv_new)

lemma app_inv_frame:
  "app_inv app \<Longrightarrow> agents app' = agents app \<Longrightarrow> order app' = order app \<Longrightarrow>
   selected_uid app' = selected_uid app \<Longrightarrow> app_menu app' = app_menu app \<or> app_menu app' = None \<Longrightarrow>
   app_inv app'"
  by (auto simp: app_inv_def)

lemma app_inv_control: "app_inv app \<Longrightarrow> app_inv (handle_control e app)"
proof (cases e)
  case (AgentUpserted a)
  moreover assume "app_inv app"
  ultimately show ?thesis
    using fleet_inv_add [of "agents app" "order app" "selected_uid app" a]
      fleet_inv_update [of "agents app" "order app" "selected_uid app" a]
    by (cases "hm_get (agents app) (ad_uid a)"; cases "selected_uid app")
      (simp_all add: app_inv_def Let_def)
next
  case (AgentDisconnected uid)
  moreover assume "app_inv app"
  ultimately show ?thesis
    using fleet_inv_remove [of "agents app" "order app" "selected_uid app" uid]
    by (cases "selected_uid app = Some uid") (simp_all add: app_inv_def Let_def)
qed (simp_all add: app_inv_def)

lemma open_editor_frame [simp]:
  "agents (open_editor lower app) = agents app" "order (open_editor lower app) = order app"
  "selected_uid (open_editor lower app) = selected_uid app"
  "app_menu (open_editor lower app) = app_menu app"
  "control (open_editor lower app) = control app"
  by (simp_all add: open_editor_def split: option.split)

lemma confirm_restart_frame [simp]:
  "agents (confirm_restart lower app) = agents app" "order (confirm_restart lower app) = order app"
  "selected_uid (confirm_restart lower app) = selected_uid app"
  "app_menu (confirm_restart lower app) = app_menu app"
  "control (confirm_restart lower app) = control app"
  by (simp_all add: confirm_restart_def split: option.split)

lemma do_push_frame [simp]:
  "agents (do_push cp uid yaml app) = agents app" "order (do_push cp uid yaml app) = order app"
  "selected_uid (do_push cp uid yaml app) = selected_uid app"
  "app_menu (do_push cp uid yaml app) = app_menu app"
  by (simp_all add: do_push_def Let_def split: prod.split sum.split)

lemma do_restart_frame [simp]:
  "agents (do_restart cp uid app) = agents app" "order (do_restart cp uid app) = order app"
  "selected_uid (do_restart cp uid app) = selected_uid app"
  "app_menu (do_restart cp uid app) = app_menu app"
  by (simp_all add: do_restart_def Let_def split: prod.split sum.split)

lemma handle_filter_key_frame [simp]:
  "agents (handle_filter_key k app) = agents app" "order (handle_filter_key k app) = order app"
  "selected_uid (handle_filter_key k app) = selected_uid app"
  "app_menu (handle_filter_key k app) = app_menu app"
  "control (handle_filter_key k app) = control app"
  "modal (handle_filter_key k app) = modal app"
  by (simp_all add: handle_filter_key_def split: key_code.split)

lemma apply_menu_action_frame [simp]:
  "agents (apply_menu_action lower x app) = agents app"
  "order (apply_menu_action lower x app) = order app"
  "selected_uid (apply_menu_action lower x app) = selected_uid app"
  "app_menu (apply_menu_action lower x app) = app_menu app"
  "control (apply_menu_action lower x app) = control app"
  by (cases x; simp)+

lemma move_selection_eq:
  "move_selection lower delta app =
     (let vis = visible lower app;
          current = (case selected_uid app of None \<Rightarrow> 0
             | Some uid \<Rightarrow> (case position (\<lambda>a. ad_uid a = uid) vis of Some i \<Rightarrow> i | None \<Rightarrow> 0))
      in Some (if vis = [] then app
         else app\<lparr>selected_uid :=
            Some (ad_uid (vis ! nat (clamp (int current + delta) 0 (int (length vis) - 1))))\<rparr>))"
  by (simp add: move_selection_def Let_def nat_clamp_less)

lemma app_inv_move_selection:
  assumes "app_inv app"
  shows "\<exists>sel. move_selection lower delta app = Some (app\<lparr>selected_uid := sel\<rparr>)
    \<and> app_inv (app\<lparr>selected_uid := sel\<rparr>)"
proof (cases "visible lower app = []")
  case True
  then show ?thesis
    using assms by (intro exI [of _ "selected_uid app"]) (simp add: move_selection_eq)
next
  case False
  let ?vis = "visible lower app"
  have mem: "ad_uid (?vis ! nat (clamp i 0 (int (length ?vis) - 1))) \<in> set (order app)" for i
    using False by (intro visible_order [OF assms, where lower = lower] nth_mem nat_clamp_less) simp
  have "app_inv (app\<lparr>selected_uid :=
      Some (ad_uid (?vis ! nat (clamp i 0 (int (length ?vis) - 1))))\<rparr>)" for i
    using assms by (auto simp: app_inv_def intro: fleet_inv_select mem)
  with False show ?thesis
    by (simp add: move_selection_eq Let_def) (intro exI conjI, rule refl, simp)
qed

text \<open>Navigation returns, and changes the selection or the active panel only.\<close>

lemma app_inv_navigate:
  assumes "app_inv app"
  shows "\<exists>app'. navigate lower delta app = Some app' \<and> app_inv app' \<and> agents app' = agents app
    \<and> modal app' = modal app \<and> control app' = control app"
proof (cases "view (active_panel app) = Fleet")
  case True
  then show ?thesis
    using app_inv_move_selection [OF assms, of lower delta] by (auto simp: navigate_def)
next
  case False
  then show ?thesis
    by (auto simp: navigate_def Let_def intro!: app_inv_frame [OF assms])
qed

text \<open>What a global key can do to the parts the invariants speak of.\<close>

definition global_result :: "(rstring \<Rightarrow> rstring) \<Rightarrow> 'c app \<Rightarrow> 'c app option \<Rightarrow> bool" where
  "global_result lower app r \<longleftrightarrow> (\<exists>app'. r = Some app' \<and> app_inv app' \<and> agents app' = agents app
     \<and> control app' = control app
     \<and> (modal app' = modal app \<or> modal app' = Some Help
        \<or> modal app' = modal (open_editor lower app) \<or> modal app' = modal (confirm_restart lower app)))"

lemma global_result_frame:
  assumes "app_inv app"
    and "agents app' = agents app" "order app' = order app" "selected_uid app' = selected_uid app"
    and "app_menu app' = app_menu app \<or> app_menu app' = None" "control app' = control app"
    and "modal app' = modal app \<or> modal app' = Some Help
       \<or> modal app' = modal (open_editor lower app) \<or> modal app' = modal (confirm_restart lower app)"
  shows "global_result lower app (Some app')"
  using assms app_inv_frame [OF assms(1)] by (simp add: global_result_def)

lemma global_result_navigate: "app_inv app \<Longrightarrow> global_result lower app (navigate lower d app)"
  using app_inv_navigate [of app lower d] by (auto simp: global_result_def)

lemma global_result_menu:
  "app_inv app \<Longrightarrow> global_result lower app (Some (app\<lparr>app_menu := Some menu_new\<rparr>))"
  by (simp add: app_inv_def menu_ok_new global_result_def)

lemma handle_global_key_result:
  assumes "app_inv app"
  shows "global_result lower app (handle_global_key lower k app)"
proof -
  note intros = global_result_navigate [OF assms] global_result_menu [OF assms]
    global_result_frame [OF assms]
  show ?thesis
    unfolding handle_global_key_def
    by (simp split: if_split key_code.split option.split) (intro conjI impI allI intros; simp)
qed

lemma selected_agent_menu [simp]:
  "selected_agent lower (app\<lparr>app_menu := m\<rparr>) = selected_agent lower app"
  by (simp add: selected_agent_def visible_def)

lemma dialogs_menu [simp]:
  "modal (open_editor lower (app\<lparr>app_menu := m\<rparr>)) = modal (open_editor lower app)"
  "modal (confirm_restart lower (app\<lparr>app_menu := m\<rparr>)) = modal (confirm_restart lower app)"
  by (simp_all add: open_editor_def confirm_restart_def split: option.split)

lemma global_result_menu_move:
  assumes "app_inv app" "app_menu app = Some m" "d = 1 \<or> d = -1"
  shows "global_result lower app (menu_move d m app)"
proof -
  have "menu_ok m" using assms by (simp add: app_inv_def)
  then obtain m' where "menu_step d m = Some m'" "menu_ok m'"
    using menu_ok_step assms(3) by blast
  with assms show ?thesis by (simp add: menu_move_def app_inv_def global_result_def)
qed

lemma global_result_action:
  "app_inv app \<Longrightarrow> global_result lower app (Some (apply_menu_action lower x (app\<lparr>app_menu := None\<rparr>)))"
  by (rule global_result_frame) (cases x; simp)+

lemma handle_menu_key_result:
  assumes "app_inv app"
  shows "global_result lower app (handle_menu_key lower k app)"
proof (cases "app_menu app")
  case None
  then show ?thesis using global_result_frame [OF assms] by (simp add: handle_menu_key_def)
next
  case (Some m)
  then have "selected m < length (entries m)"
    using assms by (simp add: app_inv_def menu_ok_def)
  moreover have "global_result lower app (Some (app\<lparr>app_menu := None\<rparr>))" "global_result lower app (Some app)"
    by (rule global_result_frame [OF assms]; simp)+
  ultimately show ?thesis
    using Some global_result_menu_move [OF assms Some, of _ lower] global_result_action [OF assms, of lower]
    by (simp add: handle_menu_key_def)
qed

section \<open>Open editors\<close>

text \<open>On ASCII configurations an open editor's buffer is well-formed and ASCII.\<close>

definition app_ascii :: "'c app \<Rightarrow> bool" where
  "app_ascii app \<longleftrightarrow>
     (\<forall>k a. hm_get (agents app) k = Some a \<longrightarrow> is_ascii (ad_effective_config a))
     \<and> (case modal app of Some (ModalEditor e) \<Rightarrow> ed_inv e | _ \<Rightarrow> True)"

fun input_ascii :: "app_input \<Rightarrow> bool" where
  "input_ascii (InKey k) \<longleftrightarrow> key_ascii k"
| "input_ascii (InControl (AgentUpserted a)) \<longleftrightarrow> is_ascii (ad_effective_config a)"
| "input_ascii _ \<longleftrightarrow> True"

lemma app_ascii_dialogs:
  assumes "app_ascii app" "agents app' = agents app"
    and "modal app' = modal app \<or> modal app' = Some Help \<or> modal app' = None
       \<or> modal app' = modal (open_editor lower app) \<or> modal app' = modal (confirm_restart lower app)"
  shows "app_ascii app'"
proof -
  have "is_ascii (ad_effective_config a)" if "selected_agent lower app = Some a" for a
    using selected_agent_visible [OF that] assms(1) by (auto simp: set_visible app_ascii_def)
  then show ?thesis
    using assms
    by (auto simp: app_ascii_def open_editor_def confirm_restart_def editor_new_inv
        split: option.splits if_splits)
qed

lemma app_ascii_control:
  "app_ascii app \<Longrightarrow> input_ascii (InControl e) \<Longrightarrow> app_ascii (handle_control e app)"
  by (cases e) (auto simp: app_ascii_def Let_def split: if_splits)

lemma do_push_modal:
  "modal (do_push cp uid yaml app) = modal app \<or> (\<exists>t b. modal (do_push cp uid yaml app) = Some (ModalMessage t b))"
  by (simp add: do_push_def error_modal_def Let_def split: prod.split sum.split)

lemma do_restart_modal:
  "modal (do_restart cp uid app) = modal app \<or> (\<exists>t b. modal (do_restart cp uid app) = Some (ModalMessage t b))"
  by (simp add: do_restart_def error_modal_def Let_def split: prod.split sum.split)

text \<open>A key pressed over a dialog: the dialog stays or closes, or a message takes its place.\<close>

lemma handle_modal_key_result:
  assumes "handle_modal_key cp k app = Some app'"
  shows "agents app' = agents app \<and> order app' = order app \<and> selected_uid app' = selected_uid app
    \<and> app_menu app' = app_menu app
    \<and> (modal app' = modal app \<or> modal app' = None \<or> (\<exists>t b. modal app' = Some (ModalMessage t b))
       \<or> (\<exists>e e'. modal app = Some (ModalEditor e) \<and> editor_key k e = Some e'
            \<and> modal app' = Some (ModalEditor e')))"
proof (cases "modal app")
  case (Some m)
  show ?thesis
  proof (cases m)
    case (Confirm t b uid)
    then show ?thesis
      using assms Some do_restart_modal [of cp uid "app\<lparr>modal := None\<rparr>"]
      by (auto simp: handle_modal_key_def split: if_splits)
  next
    case (ModalEditor e)
    then show ?thesis
      using assms Some do_push_modal [of cp "ed_uid e" "editor_text e" "app\<lparr>modal := None\<rparr>"]
      by (auto simp: handle_modal_key_def bind_eq_Some_conv split: if_splits)
  qed (use assms Some in \<open>auto simp: handle_modal_key_def split: key_code.splits\<close>)
qed (use assms in \<open>simp add: handle_modal_key_def\<close>)

lemma handle_modal_key_returns:
  assumes "app_ascii app" "key_ascii k"
  shows "\<exists>app'. handle_modal_key cp k app = Some app' \<and> app_ascii app'"
proof -
  have ed: "\<exists>e'. editor_key k e = Some e' \<and> ed_inv e'" if "modal app = Some (ModalEditor e)" for e
    using assms that by (intro ed_safe.step_safe) (simp_all add: app_ascii_def)
  have "\<exists>app'. handle_modal_key cp k app = Some app'"
  proof (cases "modal app")
    case (Some m)
    with ed show ?thesis by (cases m) (auto simp: handle_modal_key_def)
  qed (simp add: handle_modal_key_def)
  then obtain app' where app': "handle_modal_key cp k app = Some app'" ..
  have "app_ascii app'"
    using handle_modal_key_result [OF app'] assms(1) ed by (auto simp: app_ascii_def)
  with app' show ?thesis by blast
qed

section \<open>The event loop\<close>

lemma app_inv_step: "app_inv app \<Longrightarrow> app_step cp lower i app = Some app' \<Longrightarrow> app_inv app'"
proof (cases i)
  case (InKey k)
  assume inv: "app_inv app" and "app_step cp lower i app = Some app'"
  then have step: "handle_key cp lower k app = Some app'" using InKey by simp
  consider (modal) "modal app \<noteq> None" | (menu) "modal app = None" "app_menu app \<noteq> None"
    | (flt) "modal app = None" "app_menu app = None" "filtering app"
    | (global) "modal app = None" "app_menu app = None" "\<not> filtering app" by blast
  then show ?thesis
  proof cases
    case modal
    then show ?thesis
      using step handle_modal_key_result [of cp k app app'] app_inv_frame [OF inv]
      by (auto simp: handle_key_def)
  next
    case menu
    then show ?thesis
      using step handle_menu_key_result [OF inv, of lower k]
      by (auto simp: handle_key_def global_result_def)
  next
    case flt
    then show ?thesis
      using step inv by (auto simp: handle_key_def app_inv_def)
  next
    case global
    then show ?thesis
      using step handle_global_key_result [OF inv, of lower k]
      by (auto simp: handle_key_def global_result_def)
  qed
qed (auto simp: app_inv_control)

lemma app_step_returns:
  assumes "app_inv app" "app_ascii app" "input_ascii i"
  shows "\<exists>app'. app_step cp lower i app = Some app' \<and> app_ascii app'"
proof (cases i)
  case (InKey k)
  then have k: "key_ascii k" using assms(3) by simp
  show ?thesis
  proof (cases "modal app")
    case (Some m)
    then show ?thesis
      using handle_modal_key_returns [OF assms(2) k] InKey by (simp add: handle_key_def)
  next
    case None
    have flt: "app_ascii (handle_filter_key k app)" using assms(2) by (simp add: app_ascii_def)
    have "\<exists>app'. r = Some app' \<and> app_ascii app'" if "global_result lower app r" for r
      using that app_ascii_dialogs [OF assms(2)] unfolding global_result_def by metis
    then show ?thesis
      using None InKey flt handle_menu_key_result [OF assms(1), of lower k]
        handle_global_key_result [OF assms(1), of lower k]
      by (simp add: handle_key_def)
  qed
qed (use assms in \<open>auto simp: app_ascii_control\<close>)

interpretation app: safe_machine "app_step cp lower" "\<lambda>app. app_inv app \<and> app_ascii app" input_ascii
  for cp lower
  using app_step_returns app_inv_step by unfold_locales blast

section \<open>Dialogs\<close>

text \<open>
  An editor or a restart dialog is opened only for a visible agent that has the capability, and
  keys change an open editor only by editing. So a property of what is being edited and of whom a
  restart dialog is about is kept by every key when the agents grant it.
\<close>

fun dialog_ok :: "(editor \<Rightarrow> bool) \<Rightarrow> (rstring \<Rightarrow> bool) \<Rightarrow> modal option \<Rightarrow> bool" where
  "dialog_ok P Q (Some (ModalEditor e)) = P e"
| "dialog_ok P Q (Some (Confirm t b uid)) = Q uid"
| "dialog_ok P Q _ = True"

definition agent_grants :: "(editor \<Rightarrow> bool) \<Rightarrow> (rstring \<Rightarrow> bool) \<Rightarrow> agent_detail \<Rightarrow> bool" where
  "agent_grants P Q a \<longleftrightarrow>
     (agent_supports a (lit ''AcceptsRemoteConfig'') \<longrightarrow>
        P (editor_new (ad_uid a) (ad_name a) (ad_effective_config a)))
     \<and> (agent_supports a (lit ''AcceptsRestartCommand'') \<longrightarrow> Q (ad_uid a))"

definition fleet_all :: "(agent_detail \<Rightarrow> bool) \<Rightarrow> (rstring, agent_detail) hashmap \<Rightarrow> bool" where
  "fleet_all A ags \<longleftrightarrow> (\<forall>k a. hm_get ags k = Some a \<longrightarrow> A a)"

lemma fleet_all_control:
  assumes "fleet_all A (agents app)" "\<And>a. e = AgentUpserted a \<Longrightarrow> A a"
  shows "fleet_all A (agents (handle_control e app))"
  using assms by (cases e) (auto simp: fleet_all_def Let_def split: if_splits)

lemma handle_control_frame [simp]:
  "modal (handle_control e app) = modal app" "control (handle_control e app) = control app"
  by (cases e; simp add: Let_def)+

lemma dialog_ok_opened:
  assumes "fleet_all (agent_grants P Q) (agents app)" "dialog_ok P Q (modal app)"
  shows "dialog_ok P Q (modal (open_editor lower app))" "dialog_ok P Q (modal (confirm_restart lower app))"
proof -
  have grants: "agent_grants P Q a" if "selected_agent lower app = Some a" for a
    using selected_agent_visible [OF that] assms(1) by (auto simp: set_visible fleet_all_def)
  show "dialog_ok P Q (modal (open_editor lower app))"
    using assms(2) grants
    by (cases "selected_agent lower app") (simp_all add: open_editor_def agent_grants_def)
  show "dialog_ok P Q (modal (confirm_restart lower app))"
    using assms(2) grants
    by (cases "selected_agent lower app") (simp_all add: confirm_restart_def agent_grants_def)
qed

lemma dialog_ok_global:
  assumes "global_result lower app (Some app')"
    and "fleet_all (agent_grants P Q) (agents app)" "dialog_ok P Q (modal app)"
  shows "dialog_ok P Q (modal app') \<and> agents app' = agents app \<and> control app' = control app"
proof -
  note opened = dialog_ok_opened [OF assms(2,3), of lower]
  have "dialog_ok P Q (modal app')"
    using assms(1) assms(3) opened unfolding global_result_def
    by (elim exE conjE disjE) (simp_all del: dialog_ok.simps, simp)
  with assms(1) show ?thesis by (simp add: global_result_def)
qed

text \<open>What a key can do to the control plane: confirm the open dialog, or nothing.\<close>

definition control_effect :: "'c control_plane \<Rightarrow> 'c app \<Rightarrow> 'c \<Rightarrow> bool" where
  "control_effect cp app c \<longleftrightarrow>
     c = control app
     \<or> (\<exists>e. modal app = Some (ModalEditor e)
          \<and> c = snd (cp_push_config cp (ed_uid e) (editor_text e) (control app)))
     \<or> (\<exists>t b uid. modal app = Some (Confirm t b uid) \<and> c = snd (cp_restart cp uid (control app)))"

lemma do_push_control: "control (do_push cp uid yaml app) = snd (cp_push_config cp uid yaml (control app))"
  by (simp add: do_push_def Let_def split: prod.split sum.split)

lemma do_restart_control: "control (do_restart cp uid app) = snd (cp_restart cp uid (control app))"
  by (simp add: do_restart_def Let_def split: prod.split sum.split)

lemma handle_modal_key_control:
  assumes "handle_modal_key cp k app = Some app'"
  shows "control_effect cp app (control app')"
proof (cases "modal app")
  case (Some m)
  show ?thesis
  proof (cases m)
    case (Confirm t b uid)
    with Some assms show ?thesis
      by (auto simp: handle_modal_key_def control_effect_def do_restart_control split: if_splits)
  next
    case (ModalEditor e)
    with Some assms show ?thesis
      by (auto simp: handle_modal_key_def control_effect_def do_push_control bind_eq_Some_conv split: if_splits)
  qed (use Some assms in \<open>auto simp: handle_modal_key_def control_effect_def split: key_code.splits\<close>)
qed (use assms in \<open>simp add: handle_modal_key_def control_effect_def\<close>)

lemma handle_key_effect:
  assumes inv: "app_inv app" and grants: "fleet_all (agent_grants P Q) (agents app)"
    and ok: "dialog_ok P Q (modal app)"
    and edit: "\<And>e e'. P e \<Longrightarrow> editor_key k e = Some e' \<Longrightarrow> P e'"
    and step: "handle_key cp lower k app = Some app'"
  shows "dialog_ok P Q (modal app') \<and> agents app' = agents app \<and> control_effect cp app (control app')"
proof -
  have global: ?thesis if "global_result lower app (Some app')"
    using dialog_ok_global [OF that grants ok] by (simp add: control_effect_def)
  show ?thesis
  proof (cases "modal app")
    case None
    then have "handle_menu_key lower k app = Some app' \<or> app' = handle_filter_key k app
        \<or> handle_global_key lower k app = Some app'"
      using step unfolding handle_key_def by (metis option.inject)
    then consider "handle_menu_key lower k app = Some app'" | "app' = handle_filter_key k app"
      | "handle_global_key lower k app = Some app'"
      by blast
    then show ?thesis
    proof cases
      case 1
      show ?thesis by (rule global) (metis 1 handle_menu_key_result [OF inv])
    next
      case 2
      with ok show ?thesis by (simp add: control_effect_def)
    next
      case 3
      show ?thesis by (rule global) (metis 3 handle_global_key_result [OF inv])
    qed
  next
    case (Some m)
    then have modal: "handle_modal_key cp k app = Some app'" using step by (simp add: handle_key_def)
    from handle_modal_key_result [OF modal]
    have res: "agents app' = agents app"
      "modal app' = modal app \<or> modal app' = None \<or> (\<exists>t b. modal app' = Some (ModalMessage t b))
       \<or> (\<exists>e e'. modal app = Some (ModalEditor e) \<and> editor_key k e = Some e'
            \<and> modal app' = Some (ModalEditor e'))"
      by blast+
    have "dialog_ok P Q (modal app')"
      using res(2)
    proof (elim disjE exE conjE)
      fix e e' assume "modal app = Some (ModalEditor e)" "editor_key k e = Some e'"
        "modal app' = Some (ModalEditor e')"
      with ok edit show ?thesis by simp
    qed (use ok in simp_all)
    with res(1) handle_modal_key_control [OF modal] show ?thesis by simp
  qed
qed

end
