(* ===== verification/App_Props.thy ===== *)
theory App_Props
  imports App_Inv
begin

text \<open>
  What the application guarantees over every sequence of inputs: it keeps a consistent fleet, does
  not panic on ASCII, sends a command only to an agent that advertised the capability, pushes
  exactly the edited text, and can always be quit; and what its list, selection and panels show.
\<close>

section \<open>Runs of the event loop\<close>

lemma app_loop_invariant:
  assumes "\<And>i app app'. P app \<Longrightarrow> i \<in> set ins \<Longrightarrow> app_step cp lower i app = Some app' \<Longrightarrow> P app'"
  shows "P app \<Longrightarrow> app_loop cp lower ins app = Some app' \<Longrightarrow> P app'"
  using assms
proof (induction ins arbitrary: app)
  case (Cons i ins)
  show ?case
  proof (cases "should_quit app")
    case False
    then obtain app1 where step: "app_step cp lower i app = Some app1" "app_loop cp lower ins app1 = Some app'"
      using Cons.prems(2) by (auto simp: bind_eq_Some_conv)
    then have "P app1" using Cons.prems by auto
    with Cons.IH step Cons.prems(3) show ?thesis by (meson list.set_intros(2))
  qed (use Cons.prems in simp)
qed simp

lemma app_loop_returns:
  "app_inv app \<Longrightarrow> app_ascii app \<Longrightarrow> list_all input_ascii ins \<Longrightarrow>
     \<exists>app'. app_loop cp lower ins app = Some app'"
proof (induction ins arbitrary: app)
  case (Cons i ins)
  have "\<exists>app1. app_step cp lower i app = Some app1 \<and> app_inv app1 \<and> app_ascii app1"
    by (rule app.step_safe) (use Cons.prems in simp_all)
  with Cons show ?case by auto
qed simp

lemma app_ascii_new: "app_ascii (app_new cp c)"
  by (simp add: app_ascii_def app_new_def)

lemma app_loop_append:
  "app_loop cp lower (is @ js) app = app_loop cp lower is app \<bind> app_loop cp lower js"
proof (induction "is" arbitrary: app)
  case Nil
  then show ?case by simp
next
  case (Cons i "is")
  have "app_loop cp lower js app = Some app" if "should_quit app"
    using that by (cases js) simp_all
  with Cons show ?case by (cases "app_step cp lower i app") simp_all
qed

section \<open>The fleet\<close>

definition sample_cp :: "unit control_plane" where
  "sample_cp = \<lparr>cp_mode = [], cp_endpoint = (\<lambda>_. []),
     cp_push_config = (\<lambda>uid yaml c. (Inr (), c)), cp_restart = (\<lambda>uid c. (Inr (), c))\<rparr>"

definition sample_detail :: "rstring \<Rightarrow> rstring \<Rightarrow> agent_detail" where
  "sample_detail uid config = (agent_detail_new 0 uid)
     \<lparr>ad_capabilities := [(lit ''AcceptsRemoteConfig'', True), (lit ''AcceptsRestartCommand'', True)],
      ad_effective_config := config\<rparr>"

text \<open>
  C13: whatever events and keys arrive in whatever order, the list of agents has no duplicates and
  names exactly the agents with a view, each view is filed under its own UID, and an agent is
  selected exactly when there is one, always one of the list.
\<close>

theorem fleet_consistent:
  assumes "app_loop cp lower ins (app_new cp c) = Some app"
  shows "distinct (order app)
    \<and> set (order app) = set (hm_keys (agents app))
    \<and> (hm_get (agents app) k = Some a \<longrightarrow> ad_uid a = k)
    \<and> (case selected_uid app of None \<Rightarrow> order app = [] | Some u \<Rightarrow> u \<in> set (order app))"
proof -
  have "app_inv app"
    by (rule app_loop_invariant [where P = app_inv, OF _ app_inv_new assms]) (rule app_inv_step)
  then show ?thesis by (simp add: app_inv_def fleet_inv_def)
qed

lemma fleet_consistent_witness:
  "\<exists>app. app_loop sample_cp id [InControl (AgentUpserted (sample_detail [97] [])),
        InControl (AgentUpserted (sample_detail [98] [])), InKey KDown,
        InControl (AgentDisconnected [98])] (app_new sample_cp ()) = Some app
     \<and> distinct (order app) \<and> set (order app) = set (hm_keys (agents app))"
proof -
  let ?ins = "[InControl (AgentUpserted (sample_detail [97] [])),
      InControl (AgentUpserted (sample_detail [98] [])), InKey KDown, InControl (AgentDisconnected [98])]"
  obtain app where run: "app_loop sample_cp id ?ins (app_new sample_cp ()) = Some app"
    using app_loop_returns [OF app_inv_new app_ascii_new, of ?ins sample_cp id]
    by (auto simp: sample_detail_def)
  from fleet_consistent [OF run] run show ?thesis by blast
qed

text \<open>
  C12: as long as the agents' configurations and the typed characters are ASCII, no sequence of
  events and keys makes the application panic or hang.
\<close>

theorem app_never_panics_ascii:
  assumes "list_all input_ascii ins"
  shows "\<exists>app. app_loop cp lower ins (app_new cp c) = Some app"
  by (rule app_loop_returns [OF app_inv_new app_ascii_new assms])

lemma app_never_panics_ascii_witness:
  "\<exists>app. app_loop sample_cp id [InControl (AgentUpserted (sample_detail [97] [98, 10, 99])),
     InKey (KF 4), InKey KEnd, InKey KBackspace, InKey KDown, InKey KBackspace, InKey (KF 5)]
     (app_new sample_cp ()) = Some app"
  by (rule app_never_panics_ascii) (simp add: sample_detail_def)

text \<open>
  Outside ASCII it can panic: an agent whose configuration is a single accented letter, then
  F4, End, Backspace.
\<close>

theorem app_panics_outside_ascii:
  "app_loop sample_cp id [InControl (AgentUpserted (sample_detail [97] [233])),
     InKey (KF 4), InKey KEnd, InKey KBackspace] (app_new sample_cp ()) = None"
proof -
  let ?a = "sample_detail [97] [233]"
  let ?app = "handle_control (AgentUpserted ?a) (app_new sample_cp ())"
  have vis: "visible id ?app = [?a]"
    by (simp add: visible_def app_new_def Let_def sample_detail_def agent_detail_new_def matches_def)
  then have "open_editor id ?app = ?app\<lparr>modal := Some (ModalEditor (editor_new [97] [97] [233]))\<rparr>"
    by (simp add: open_editor_def selected_agent_def Let_def agent_supports_def sample_detail_def
        agent_detail_new_def app_new_def)
  moreover have "modal ?app = None" "app_menu ?app = None" "\<not> filtering ?app" "\<not> should_quit ?app"
    "\<not> should_quit (app_new sample_cp ())"
    by (simp_all add: app_new_def Let_def)
  moreover have "editor_key KEnd (editor_new [97] [97] [233]) = Some (editor_new [97] [97] [233]\<lparr>cx := 2\<rparr>)"
    by (simp add: editor_new_def line_len_def utf8_len_def)
  moreover have "editor_key KBackspace (editor_new [97] [97] [233]\<lparr>cx := 2\<rparr>) = None"
    by (simp add: editor_new_def backspace_def)
  ultimately show ?thesis
    by (simp add: handle_key_def handle_global_key_def handle_modal_key_def del: handle_control.simps)
qed

text \<open>
  C40: an agent that disconnects vanishes from the list, the map of views, the telemetry and the
  selection; every other agent's view and telemetry stay, and so does the selection if it was
  another agent.
\<close>

theorem disconnect_forgets_only_that_agent:
  assumes "app_inv app" "app' = handle_control (AgentDisconnected uid) app"
  shows "hm_get (agents app') k = (if k = uid then None else hm_get (agents app) k)
    \<and> hm_get (telemetry app') k = (if k = uid then None else hm_get (telemetry app) k)
    \<and> order app' = removeAll uid (order app)
    \<and> selected_uid app' \<noteq> Some uid
    \<and> (selected_uid app \<noteq> Some uid \<longrightarrow> selected_uid app' = selected_uid app)
    \<and> app_inv app'"
proof -
  have inv: "app_inv app'" unfolding assms(2) by (rule app_inv_control [OF assms(1)])
  have "uid \<notin> set (order app')" by (simp add: assms(2) Let_def)
  then have "selected_uid app' \<noteq> Some uid"
    using inv by (auto simp: app_inv_def fleet_inv_def)
  with inv show ?thesis
    by (auto simp: assms(2) Let_def removeAll_filter_not_eq intro!: filter_cong)
qed

lemma disconnect_forgets_only_that_agent_witness:
  "selected_uid (handle_control (AgentDisconnected [97])
      (handle_control (AgentUpserted (sample_detail [97] [])) (app_new sample_cp ()))) \<noteq> Some [97]"
proof -
  have inv: "app_inv (handle_control (AgentUpserted (sample_detail [97] [])) (app_new sample_cp ()))"
    by (intro app_inv_control app_inv_new)
  show ?thesis
    using disconnect_forgets_only_that_agent [OF inv refl, where uid = "[97]" and k = "[]"] by blast
qed

text \<open>
  Removing an agent's telemetry when it disconnects does not last: the next telemetry round of
  the store, which never forgets a key, files it again while the agent itself stays forgotten.
\<close>

theorem telemetry_outlives_agent:
  "hm_get (telemetry (handle_control (TelemetryEvent uid ts) (handle_control (AgentDisconnected uid) app))) uid
     = Some ts
   \<and> hm_get (agents (handle_control (TelemetryEvent uid ts) (handle_control (AgentDisconnected uid) app))) uid
     = None"
  by (simp add: Let_def)

section \<open>Commands\<close>

text \<open>A control plane that keeps a record of the commands it was given.\<close>

definition recording :: "'c control_plane \<Rightarrow> ('c \<times> command list) control_plane" where
  "recording cp =
     \<lparr>cp_mode = cp_mode cp, cp_endpoint = cp_endpoint cp \<circ> fst,
      cp_push_config = (\<lambda>uid yaml (c, log).
        let (r, c') = cp_push_config cp uid yaml c in (r, (c', log @ [PushCommand uid yaml]))),
      cp_restart = (\<lambda>uid (c, log).
        let (r, c') = cp_restart cp uid c in (r, (c', log @ [RestartCommand uid])))\<rparr>"

fun authorised :: "agent_detail set \<Rightarrow> command \<Rightarrow> bool" where
  "authorised seen (PushCommand uid yaml) \<longleftrightarrow>
     (\<exists>a \<in> seen. ad_uid a = uid \<and> agent_supports a (lit ''AcceptsRemoteConfig''))"
| "authorised seen (RestartCommand uid) \<longleftrightarrow>
     (\<exists>a \<in> seen. ad_uid a = uid \<and> agent_supports a (lit ''AcceptsRestartCommand''))"

definition auth_inv :: "agent_detail set \<Rightarrow> ('c \<times> command list) app \<Rightarrow> bool" where
  "auth_inv seen app \<longleftrightarrow> fleet_all (\<lambda>a. a \<in> seen) (agents app)
     \<and> dialog_ok (\<lambda>e. authorised seen (PushCommand (ed_uid e) [])) (\<lambda>u. authorised seen (RestartCommand u))
         (modal app)
     \<and> (\<forall>cmd \<in> set (snd (control app)). authorised seen cmd)"

lemma auth_grants:
  "fleet_all (\<lambda>a. a \<in> seen) ags \<Longrightarrow>
     fleet_all (agent_grants (\<lambda>e. authorised seen (PushCommand (ed_uid e) []))
       (\<lambda>u. authorised seen (RestartCommand u))) ags"
  by (auto simp: fleet_all_def agent_grants_def editor_new_def)

lemma editor_key_uid: "editor_key k e = Some e' \<Longrightarrow> ed_uid e' = ed_uid e"
  by (cases k)
    (auto simp: insert_char_def newline_def backspace_def move_cursor_def move_vertical_def
      move_horizontal_def Let_def bind_eq_Some_conv split: if_splits prod.splits)

lemma recording_log:
  "snd (snd (cp_push_config (recording cp) uid yaml c)) = snd c @ [PushCommand uid yaml]"
  "snd (snd (cp_restart (recording cp) uid c)) = snd c @ [RestartCommand uid]"
  by (simp_all add: recording_def split: prod.split)

lemma authorised_any_text: "authorised seen (PushCommand uid []) \<Longrightarrow> authorised seen (PushCommand uid y)"
  by simp

lemma authorised_effect:
  assumes "control_effect (recording cp) app c"
    and "dialog_ok (\<lambda>e. authorised seen (PushCommand (ed_uid e) []))
      (\<lambda>u. authorised seen (RestartCommand u)) (modal app)"
    and "\<forall>cmd \<in> set (snd (control app)). authorised seen cmd"
  shows "\<forall>cmd \<in> set (snd c). authorised seen cmd"
  using assms unfolding control_effect_def
  by (elim disjE exE conjE)
    (simp_all add: recording_log authorised_any_text del: authorised.simps)

definition upserts :: "app_input list \<Rightarrow> agent_detail set" where
  "upserts ins = {a. InControl (AgentUpserted a) \<in> set ins}"

lemma auth_inv_step:
  assumes "auth_inv seen app" "app_inv app" "app_step (recording cp) lower i app = Some app'"
    and "\<And>a. i = InControl (AgentUpserted a) \<Longrightarrow> a \<in> seen"
  shows "auth_inv seen app'"
proof (cases i)
  case (InKey k)
  note inv = assms(1) [unfolded auth_inv_def]
  have "handle_key (recording cp) lower k app = Some app'" using assms(3) InKey by simp
  from handle_key_effect [OF assms(2) auth_grants inv [THEN conjunct2, THEN conjunct1] _ this] inv
  show ?thesis
    unfolding auth_inv_def using authorised_effect [of cp app "control app'" seen]
    by (metis (no_types, lifting) editor_key_uid)
next
  case (InControl e)
  then have app': "app' = handle_control e app" using assms(3) by simp
  have "fleet_all (\<lambda>a. a \<in> seen) (agents app')"
    unfolding app' by (rule fleet_all_control) (use assms InControl in \<open>auto simp: auth_inv_def\<close>)
  with assms(1) show ?thesis by (simp add: auth_inv_def app')
qed (use assms in simp)

text \<open>
  C2: whatever the control plane and the inputs, every command the application issues goes to an
  agent that the control plane reported with the capability for it: a configuration push only to
  one that accepts remote configurations, a restart only to one that accepts restart commands.
\<close>

theorem commands_are_authorised:
  assumes "app_loop (recording cp) lower ins (app_new (recording cp) (c, [])) = Some app"
    and "cmd \<in> set (snd (control app))"
  shows "\<exists>a. InControl (AgentUpserted a) \<in> set ins
    \<and> (case cmd of
         PushCommand uid yaml \<Rightarrow> ad_uid a = uid \<and> agent_supports a (lit ''AcceptsRemoteConfig'')
       | RestartCommand uid \<Rightarrow> ad_uid a = uid \<and> agent_supports a (lit ''AcceptsRestartCommand''))"
proof -
  let ?P = "\<lambda>app. app_inv app \<and> auth_inv (upserts ins) app"
  have init: "?P (app_new (recording cp) (c, []))"
    by (simp add: app_inv_new auth_inv_def) (simp add: fleet_all_def app_new_def)
  have "?P app"
    by (rule app_loop_invariant [where P = ?P, OF _ init assms(1)])
      (auto simp: upserts_def intro: app_inv_step auth_inv_step)
  then have "authorised (upserts ins) cmd" using assms(2) by (simp add: auth_inv_def)
  then show ?thesis by (cases cmd) (auto simp: upserts_def)
qed

text \<open>The application at rest: no dialog, no menu, no filter being typed.\<close>

definition at_rest :: "'c app \<Rightarrow> bool" where
  "at_rest app \<longleftrightarrow> modal app = None \<and> app_menu app = None \<and> \<not> filtering app \<and> \<not> should_quit app"

lemma at_rest_key: "at_rest app \<Longrightarrow> handle_key cp lower k app = handle_global_key lower k app"
  by (simp add: at_rest_def handle_key_def)

lemma open_editor_supported:
  "selected_agent lower app = Some a \<Longrightarrow> agent_supports a (lit ''AcceptsRemoteConfig'') \<Longrightarrow>
   open_editor lower app =
     app\<lparr>modal := Some (ModalEditor (editor_new (ad_uid a) (ad_name a) (ad_effective_config a)))\<rparr>"
  by (simp add: open_editor_def)

text \<open>While the editor is open, keys other than Esc and F5 go to it.\<close>

lemma app_loop_editor:
  assumes "modal app = Some (ModalEditor e)" "\<not> should_quit app" "KEsc \<notin> set ks" "KF 5 \<notin> set ks"
    and "run editor_key ks e = Some e'"
  shows "app_loop cp lower (map InKey ks) app = Some (app\<lparr>modal := Some (ModalEditor e')\<rparr>)"
  using assms
proof (induction ks arbitrary: app e)
  case (Cons k ks)
  then obtain e1 where e1: "editor_key k e = Some e1" "run editor_key ks e1 = Some e'"
    by (auto simp: bind_eq_Some_conv)
  have "handle_key cp lower k app = Some (app\<lparr>modal := Some (ModalEditor e1)\<rparr>)"
    using Cons.prems e1(1) by (auto simp: handle_key_def handle_modal_key_def)
  moreover have "app_loop cp lower (map InKey ks) (app\<lparr>modal := Some (ModalEditor e1)\<rparr>)
      = Some (app\<lparr>modal := Some (ModalEditor e')\<rparr>)"
    using Cons.IH [of "app\<lparr>modal := Some (ModalEditor e1)\<rparr>" e1] Cons.prems e1(2) by simp
  ultimately show ?case using Cons.prems(2) by simp
qed simp

lemma push_key:
  "modal app = Some (ModalEditor e) \<Longrightarrow> \<not> should_quit app \<Longrightarrow>
   app_loop cp lower [InKey (KF 5)] app = Some (do_push cp (ed_uid e) (editor_text e) (app\<lparr>modal := None\<rparr>))"
  by (simp add: handle_key_def handle_modal_key_def)

lemma do_push_cases:
  "do_push cp uid yaml app =
     (case cp_push_config cp uid yaml (control app) of
        (Inr _, c) \<Rightarrow> app\<lparr>control := c, status := lit ''remote config pushed to '' @ agent_name uid app\<rparr>
      | (Inl err, c) \<Rightarrow> app\<lparr>control := c, modal := Some (ModalMessage (lit ''Config push failed'') err)\<rparr>)"
  by (simp add: do_push_def Let_def error_modal_def split: prod.split sum.split)

lemma edit_and_push_run:
  assumes "at_rest app" "selected_agent lower app = Some a"
    and "agent_supports a (lit ''AcceptsRemoteConfig'')"
    and "is_ascii t" "is_ascii (ad_effective_config a) \<or> t = []"
  shows "app_loop cp lower
      (InKey (KF 4) # map (\<lambda>c. InKey (if c = nl then KEnter else KChar c)) t @ [InKey (KF 5)]) app =
    Some (do_push cp (ad_uid a) (t @ ad_effective_config a) app)"
proof -
  let ?e = "editor_new (ad_uid a) (ad_name a) (ad_effective_config a)"
  let ?ks = "map (\<lambda>c. if c = nl then KEnter else KChar c) t"
  let ?app1 = "app\<lparr>modal := Some (ModalEditor ?e)\<rparr>"
  have key: "ed.key_of = (\<lambda>c. if c = nl then KEnter else KChar c)"
    by (rule ext) (simp add: ed.key_of_def)
  have "\<exists>e1. run editor_key ?ks ?e = Some e1 \<and> editor_text e1 = t @ ad_effective_config a"
  proof (cases "t = []")
    case False
    then obtain e1 where "run editor_key ?ks ?e = Some e1" "ed_inv e1" "ed_gap e1 = ([] @ t, ad_effective_config a)"
      using ed.type_text [of ?e t "[]" "ad_effective_config a"] assms(4,5)
      by (auto simp: key editor_new_inv editor_new_gap is_ascii_def)
    then show ?thesis using ed_gap_text [of e1 t "ad_effective_config a"] by (auto simp: ed_inv_def)
  qed (simp add: editor_text_new)
  then obtain e1 where e1: "run editor_key ?ks ?e = Some e1" "editor_text e1 = t @ ad_effective_config a"
    by blast
  have uid: "ed_uid e1 = ad_uid a"
  proof -
    have "run editor_key ks e = Some e' \<Longrightarrow> ed_uid e' = ed_uid e" for ks e e'
      by (induction ks arbitrary: e) (auto simp: bind_eq_Some_conv editor_key_uid)
    from this [OF e1(1)] show ?thesis by (simp add: editor_new_def)
  qed
  have quit: "\<not> should_quit app" using assms(1) by (simp add: at_rest_def)
  have "app_loop cp lower [InKey (KF 4)] app = Some ?app1"
    using assms(1) by (simp add: at_rest_key handle_global_key_def quit open_editor_supported assms(2,3))
  moreover have "app_loop cp lower (map InKey ?ks) ?app1 = Some (?app1\<lparr>modal := Some (ModalEditor e1)\<rparr>)"
    by (rule app_loop_editor) (auto simp: quit e1(1))
  moreover have "app_loop cp lower [InKey (KF 5)] (?app1\<lparr>modal := Some (ModalEditor e1)\<rparr>)
      = Some (do_push cp (ad_uid a) (t @ ad_effective_config a) (app\<lparr>modal := None\<rparr>))"
    using push_key [of "?app1\<lparr>modal := Some (ModalEditor e1)\<rparr>" e1 cp lower] by (simp add: quit uid e1(2))
  moreover have "app\<lparr>modal := None\<rparr> = app" using assms(1) by (simp add: at_rest_def)
  ultimately have "app_loop cp lower ([InKey (KF 4)] @ map InKey ?ks @ [InKey (KF 5)]) app
      = Some (do_push cp (ad_uid a) (t @ ad_effective_config a) app)"
    by (simp only: app_loop_append bind.bind_lunit)
  then show ?thesis by (simp add: comp_def)
qed

text \<open>
  C4: F4 opens the editor on the selected agent's effective configuration, typing an ASCII text
  (Enter for a newline) inserts it at the top, and F5 pushes exactly that text to that agent,
  once: then the dialog closes with a status, or the control plane's error is shown, and the rest
  of the state is as before. With nothing typed the pushed text is the agent's own, unchanged.
\<close>

theorem edit_and_push:
  assumes "at_rest app" "selected_agent lower app = Some a"
    and "agent_supports a (lit ''AcceptsRemoteConfig'')"
    and "is_ascii t" "is_ascii (ad_effective_config a) \<or> t = []"
  shows "app_loop cp lower
      (InKey (KF 4) # map (\<lambda>c. InKey (if c = nl then KEnter else KChar c)) t @ [InKey (KF 5)]) app =
    Some (case cp_push_config cp (ad_uid a) (t @ ad_effective_config a) (control app) of
        (Inr _, c) \<Rightarrow> app\<lparr>control := c,
           status := lit ''remote config pushed to '' @ agent_name (ad_uid a) app\<rparr>
      | (Inl err, c) \<Rightarrow> app\<lparr>control := c,
           modal := Some (ModalMessage (lit ''Config push failed'') err)\<rparr>)"
  by (simp only: edit_and_push_run [OF assms] do_push_cases)

text \<open>One agent, at rest, with an ASCII configuration; the commands are recorded.\<close>

definition sample_app :: "(unit \<times> command list) app" where
  "sample_app = handle_control (AgentUpserted (sample_detail [97] [98])) (app_new (recording sample_cp) ((), []))"

lemma sample_app_facts:
  "at_rest sample_app" "app_inv sample_app" "control sample_app = ((), [])"
  "visible id sample_app = [sample_detail [97] [98]]" "selected_uid sample_app = Some [97]"
  "selected_agent id sample_app = Some (sample_detail [97] [98])"
  "view (active_panel sample_app) = Fleet"
proof -
  show "app_inv sample_app" unfolding sample_app_def by (intro app_inv_control app_inv_new)
  show vis: "visible id sample_app = [sample_detail [97] [98]]"
    by (simp add: sample_app_def visible_def app_new_def Let_def sample_detail_def agent_detail_new_def
        matches_def)
  show "at_rest sample_app" "control sample_app = ((), [])" "selected_uid sample_app = Some [97]"
    "view (active_panel sample_app) = Fleet"
    by (simp_all add: sample_app_def at_rest_def app_new_def Let_def sample_detail_def
        agent_detail_new_def active_panel_def)
  then show "selected_agent id sample_app = Some (sample_detail [97] [98])"
    by (simp add: selected_agent_def vis sample_detail_def agent_detail_new_def)
qed

lemma sample_detail_simps [simp]:
  "ad_uid (sample_detail u c) = u" "ad_name (sample_detail u c) = u"
  "ad_effective_config (sample_detail u c) = c"
  "agent_supports (sample_detail u c) (lit ''AcceptsRemoteConfig'')"
  "agent_supports (sample_detail u c) (lit ''AcceptsRestartCommand'')"
  by (simp_all add: sample_detail_def agent_detail_new_def agent_supports_def)

lemma edit_and_push_witness:
  "map_option (snd \<circ> control) (app_loop (recording sample_cp) id
      [InKey (KF 4), InKey (KChar 99), InKey KEnter, InKey (KF 5)] sample_app)
    = Some [PushCommand [97] [99, 10, 98]]"
  using edit_and_push [OF sample_app_facts(1,6), of "[99, 10]" "recording sample_cp"]
  by (simp add: sample_app_facts recording_def sample_cp_def)

lemma commands_are_authorised_witness:
  "\<exists>app. app_loop (recording sample_cp) id
      [InControl (AgentUpserted (sample_detail [97] [98])), InKey (KF 4), InKey (KF 5)]
      (app_new (recording sample_cp) ((), [])) = Some app
    \<and> PushCommand [97] [98] \<in> set (snd (control app))
    \<and> (\<exists>a. InControl (AgentUpserted a) \<in> set [InControl (AgentUpserted (sample_detail [97] [98])),
           InKey (KF 4), InKey (KF 5)]
         \<and> ad_uid a = [97] \<and> agent_supports a (lit ''AcceptsRemoteConfig''))"
proof -
  have "app_loop (recording sample_cp) id [InKey (KF 4), InKey (KF 5)] sample_app
      = Some (do_push (recording sample_cp) [97] [98] sample_app)"
    using edit_and_push_run [OF sample_app_facts(1,6), of "[]" "recording sample_cp"] by simp
  then have run: "app_loop (recording sample_cp) id
      [InControl (AgentUpserted (sample_detail [97] [98])), InKey (KF 4), InKey (KF 5)]
      (app_new (recording sample_cp) ((), [])) = Some (do_push (recording sample_cp) [97] [98] sample_app)"
    by (simp add: sample_app_def app_new_def)
  have "PushCommand [97] [98] \<in> set (snd (control (do_push (recording sample_cp) [97] [98] sample_app)))"
    by (simp add: do_push_control recording_log)
  from commands_are_authorised [OF run this] run this show ?thesis by auto
qed

section \<open>List, selection and panels\<close>

lemma visible_uids_distinct: "app_inv app \<Longrightarrow> distinct (map ad_uid (visible lower app))"
  (is "_ \<Longrightarrow> ?goal")
proof -
  assume inv: "app_inv app"
  have "map ad_uid (List.map_filter (hm_get (agents app)) us) = us" if "set us \<subseteq> set (order app)" for us
    using that inv
    by (induction us) (auto simp: app_inv_def fleet_inv_def hm.keys_get split: option.split)
  then have "distinct (map ad_uid (List.map_filter (hm_get (agents app)) (order app)))"
    using inv by (simp add: app_inv_def fleet_inv_def)
  then have "distinct (map ad_uid (filter (matches lower (lower (flt app)))
      (List.map_filter (hm_get (agents app)) (order app))))"
    by (rule distinct_map_filter)
  then show ?goal
    unfolding visible_def Let_def
    by (metis mset_eq_imp_distinct_iff mset_map mset_sort)
qed

text \<open>
  C29: the fleet list shows exactly the known agents whose name or UID contains the filter text
  after lower-casing (all of them for an empty text), each once, sorted by name.
\<close>

theorem visible_spec:
  assumes "app_inv app"
  shows "distinct (map ad_uid (visible lower app))
    \<and> sorted (map ad_name (visible lower app))
    \<and> (a \<in> set (visible lower app) \<longleftrightarrow> hm_get (agents app) (ad_uid a) = Some a
         \<and> (lower (flt app) = [] \<or> sublist (lower (flt app)) (lower (ad_name a))
            \<or> sublist (lower (flt app)) (lower (ad_uid a))))"
proof (intro conjI)
  show "distinct (map ad_uid (visible lower app))" by (rule visible_uids_distinct [OF assms])
  show "sorted (map ad_name (visible lower app))"
    by (simp add: visible_def Let_def)
  show "a \<in> set (visible lower app) \<longleftrightarrow> hm_get (agents app) (ad_uid a) = Some a
      \<and> (lower (flt app) = [] \<or> sublist (lower (flt app)) (lower (ad_name a))
         \<or> sublist (lower (flt app)) (lower (ad_uid a)))"
    by (simp add: visible_mem [OF assms] matches_def str_contains_sublist)
qed

lemma visible_spec_witness: "sample_detail [97] [98] \<in> set (visible id sample_app)"
  using visible_spec [OF sample_app_facts(2), of id "sample_detail [97] [98]"] sample_app_facts(4)
  by simp

lemma position_unique:
  "distinct (map f xs) \<Longrightarrow> i < length xs \<Longrightarrow> position (\<lambda>x. f x = f (xs ! i)) xs = Some i"
proof (induction xs arbitrary: i)
  case (Cons x xs)
  show ?case
  proof (cases i)
    case (Suc j)
    then have "f (xs ! j) \<in> f ` set xs" using Cons.prems by simp
    then have "f x \<noteq> f (xs ! j)" using Cons.prems by auto
    with Suc Cons show ?thesis by simp
  qed simp
qed simp

lemma find_unique:
  "distinct (map f xs) \<Longrightarrow> i < length xs \<Longrightarrow> find (\<lambda>x. f x = f (xs ! i)) xs = Some (xs ! i)"
proof (induction xs arbitrary: i)
  case (Cons x xs)
  show ?case
  proof (cases i)
    case (Suc j)
    then have "f (xs ! j) \<in> f ` set xs" using Cons.prems by simp
    then have "f x \<noteq> f (xs ! j)" using Cons.prems by auto
    with Suc Cons show ?thesis by simp
  qed simp
qed simp

lemma visible_selected_uid [simp]: "visible lower (app\<lparr>selected_uid := u\<rparr>) = visible lower app"
  by (simp add: visible_def)

text \<open>The row the code moves from is the row of the selected agent.\<close>

lemma selected_row:
  assumes "app_inv app" "selected_agent lower app = Some (visible lower app ! i)"
    "i < length (visible lower app)"
  shows "(case selected_uid app of None \<Rightarrow> 0
     | Some uid \<Rightarrow> (case position (\<lambda>a. ad_uid a = uid) (visible lower app) of
         Some j \<Rightarrow> j | None \<Rightarrow> 0)) = i"
proof -
  let ?vis = "visible lower app"
  have dist: "distinct (map ad_uid ?vis)" by (rule visible_uids_distinct [OF assms(1)])
  have ne: "?vis \<noteq> []" using assms(3) by auto
  have zero: "i = 0" if "?vis ! i = hd ?vis"
    using that ne assms(3) dist
    by (metis distinct_map hd_conv_nth length_greater_0_conv nth_eq_iff_index_eq)
  show ?thesis
  proof (cases "selected_uid app")
    case None
    with assms(2) ne show ?thesis by (auto simp: selected_agent_def Let_def intro: zero split: list.splits)
  next
    case (Some uid)
    show ?thesis
    proof (cases "position (\<lambda>a. ad_uid a = uid) ?vis")
      case None
      then have "find (\<lambda>a. ad_uid a = uid) ?vis = None"
        by (auto simp: position_None find_None_iff)
      with None Some assms(2) ne show ?thesis
        by (auto simp: selected_agent_def Let_def intro: zero split: list.splits)
    next
      case (Some j)
      then have j: "j < length ?vis" "ad_uid (?vis ! j) = uid"
        using position_Some by force+
      with find_unique [OF dist j(1)] have "?vis ! j = ?vis ! i"
        using assms(2) \<open>selected_uid app = Some uid\<close> by (simp add: selected_agent_def Let_def)
      then have "j = i"
        using dist j(1) assms(3) by (metis distinct_map nth_eq_iff_index_eq)
      with Some \<open>selected_uid app = Some uid\<close> show ?thesis by simp
    qed
  qed
qed

text \<open>
  C28: in the fleet list, Up, Down, PageUp and PageDown move the selection from its row by 1 or 10
  rows, stopping at the first and last row; an empty list is left alone. The rows do not change.
\<close>

theorem move_selection_rows:
  assumes "app_inv app" "view (active_panel app) = Fleet" "at_rest app"
    and "selected_agent lower app = Some (visible lower app ! i)" "i < length (visible lower app)"
    and "(key, delta) \<in> {(KUp, -1), (KDown, 1), (KPageUp, -10), (KPageDown, 10)}"
  shows "\<exists>app'. handle_key cp lower key app = Some app' \<and> visible lower app' = visible lower app
    \<and> selected_agent lower app' = Some (visible lower app !
         nat (max 0 (min (int i + delta) (int (length (visible lower app)) - 1))))"
proof -
  let ?vis = "visible lower app"
  let ?n = "nat (max 0 (min (int i + delta) (int (length ?vis) - 1)))"
  let ?app' = "app\<lparr>selected_uid := Some (ad_uid (?vis ! ?n))\<rparr>"
  have ne: "?vis \<noteq> []" using assms(5) by auto
  have n: "?n < length ?vis" using assms(5) by linarith
  have clamp: "nat (clamp (int i + delta) 0 (int (length ?vis) - 1)) = ?n"
    using assms(5) by (auto simp: clamp_def)
  have "handle_key cp lower key app = move_selection lower delta app"
    using assms(2,3,6) by (auto simp: at_rest_key handle_global_key_def navigate_def)
  also have "\<dots> = Some ?app'"
    unfolding move_selection_eq Let_def selected_row [OF assms(1,4,5)] clamp using ne by simp
  finally have "handle_key cp lower key app = Some ?app'" .
  moreover have "selected_agent lower ?app' = Some (?vis ! ?n)"
    using find_unique [OF visible_uids_distinct [OF assms(1)] n] by (simp add: selected_agent_def Let_def)
  ultimately show ?thesis by auto
qed

lemma move_selection_rows_witness:
  "\<exists>app'. handle_key (recording sample_cp) id KPageDown sample_app = Some app'
     \<and> selected_agent id app' = Some (sample_detail [97] [98])"
proof -
  have "selected_agent id sample_app = Some (visible id sample_app ! 0)" "0 < length (visible id sample_app)"
    by (simp_all add: sample_app_facts)
  from move_selection_rows [OF sample_app_facts(2,7,1) this, of KPageDown 10 "recording sample_cp"]
  show ?thesis by (auto simp: sample_app_facts)
qed

text \<open>
  In any other view the keys scroll the active panel, never above the top; but the offset is
  kept in 16 bits, so that scrolling beyond row 65535 jumps back to the top rows.
\<close>

theorem scroll_wraps_at_16_bits:
  assumes "view (active_panel app) \<noteq> Fleet" "-32768 < delta" "delta < 32768"
  shows "\<exists>app'. navigate lower delta app = Some app'
    \<and> (let n = uint (scroll (active_panel app)) + delta in
       uint (scroll (active_panel app')) = (if n < 0 then 0 else if n < 65536 then n else n - 65536))"
proof -
  let ?n = "uint (scroll (active_panel app)) + delta"
  have range: "uint (scroll (active_panel app)) < 65536" "0 \<le> uint (scroll (active_panel app))"
    using uint_lt2p [of "scroll (active_panel app)"] by simp_all
  have "uint (word_of_int (max ?n 0) :: u16) = max ?n 0 mod 65536"
    by (simp add: uint_word_of_int)
  also have "\<dots> = (if ?n < 0 then 0 else if ?n < 65536 then ?n else ?n - 65536)"
  proof -
    have "?n mod 65536 = ?n - 65536" if "65536 \<le> ?n"
    proof -
      have "?n mod 65536 = (?n - 65536) mod 65536" by simp
      also have "\<dots> = ?n - 65536" using that range assms(3) by (intro mod_pos_pos_trivial) linarith+
      finally show ?thesis .
    qed
    then show ?thesis by (auto simp: max_def)
  qed
  finally show ?thesis using assms(1) by (simp add: navigate_def Let_def)
qed

lemma scroll_wraps_at_16_bits_witness:
  "\<exists>app'. navigate id 1 (sample_app\<lparr>left := \<lparr>view = Logs, scroll = 65535\<rparr>\<rparr>) = Some app'
     \<and> uint (scroll (active_panel app')) = 0"
proof -
  let ?app = "sample_app\<lparr>left := \<lparr>view = Logs, scroll = 65535\<rparr>\<rparr>"
  have panel: "active_panel ?app = \<lparr>view = Logs, scroll = 65535\<rparr>"
    by (simp add: active_panel_def sample_app_def app_new_def Let_def)
  then have "view (active_panel ?app) \<noteq> Fleet" by simp
  from scroll_wraps_at_16_bits [OF this, of 1 id] panel show ?thesis by (simp add: Let_def)
qed

section \<open>Dialogs\<close>

text \<open>
  C31: while a dialog is open no key reaches what is behind it: the fleet, the telemetry, the
  selection, the panels, the menu, the filter and the quit flag stay as they are, and only the
  keys that confirm (F5 in the editor, Enter or y on a restart) reach the control plane.
\<close>

theorem dialogs_capture_keys:
  assumes "modal app \<noteq> None" "handle_key cp lower k app = Some app'"
  shows "agents app' = agents app \<and> telemetry app' = telemetry app \<and> order app' = order app
    \<and> selected_uid app' = selected_uid app \<and> left app' = left app \<and> right app' = right app
    \<and> active app' = active app \<and> app_menu app' = app_menu app \<and> flt app' = flt app
    \<and> filtering app' = filtering app \<and> should_quit app' = should_quit app
    \<and> (k \<notin> {KF 5, KEnter, KChar 121} \<longrightarrow> control app' = control app)"
proof -
  have frames: "telemetry (do_push cp u y a) = telemetry a" "left (do_push cp u y a) = left a"
    "right (do_push cp u y a) = right a" "active (do_push cp u y a) = active a"
    "flt (do_push cp u y a) = flt a" "filtering (do_push cp u y a) = filtering a"
    "should_quit (do_push cp u y a) = should_quit a"
    "telemetry (do_restart cp u a) = telemetry a" "left (do_restart cp u a) = left a"
    "right (do_restart cp u a) = right a" "active (do_restart cp u a) = active a"
    "flt (do_restart cp u a) = flt a" "filtering (do_restart cp u a) = filtering a"
    "should_quit (do_restart cp u a) = should_quit a" for u y a
    by (simp_all add: do_push_def do_restart_def Let_def split: prod.split sum.split)
  obtain m where m: "modal app = Some m" using assms(1) by auto
  with assms(2) have step: "handle_modal_key cp k app = Some app'" by (simp add: handle_key_def)
  show ?thesis
  proof (cases m)
    case (ModalEditor e)
    with m step show ?thesis
      by (auto simp: handle_modal_key_def frames bind_eq_Some_conv split: if_splits)
  next
    case (Confirm t b uid)
    with m step show ?thesis
      by (auto simp: handle_modal_key_def frames split: if_splits)
  qed (use m step in \<open>auto simp: handle_modal_key_def split: key_code.splits\<close>)
qed

lemma dialogs_capture_keys_witness:
  "\<exists>app'. handle_key (recording sample_cp) id (KChar 113) (sample_app\<lparr>modal := Some Help\<rparr>) = Some app'
     \<and> should_quit app' = should_quit sample_app \<and> modal app' = None"
proof -
  have step: "handle_key (recording sample_cp) id (KChar 113) (sample_app\<lparr>modal := Some Help\<rparr>)
      = Some (sample_app\<lparr>modal := None\<rparr>)"
    by (simp add: handle_key_def handle_modal_key_def)
  show ?thesis
    using dialogs_capture_keys [OF _ step] step by simp
qed

text \<open>
  C30: from every state, three times Esc and then F10 leave the application, without a panic and
  without a command to the control plane, whatever dialog, menu or filter is open.
\<close>

theorem can_always_quit:
  "\<exists>app'. app_loop cp lower [InKey KEsc, InKey KEsc, InKey KEsc, InKey (KF 10)] app = Some app'
     \<and> should_quit app' \<and> control app' = control app"
proof -
  define open_layers where "open_layers app =
      (if modal app = None then 0 else 1) + (if app_menu app = None then 0 else 1)
      + (if filtering app then 1 else (0::nat))" for app :: "'a app"
  have esc: "\<exists>app'. handle_key cp lower KEsc app = Some app' \<and> open_layers app' = open_layers app - 1
      \<and> control app' = control app \<and> should_quit app' = should_quit app" for app
  proof (cases "modal app")
    case (Some m)
    then show ?thesis
      by (cases m) (simp_all add: handle_key_def handle_modal_key_def open_layers_def)
  next
    case None
    then show ?thesis
      by (cases "app_menu app"; cases "filtering app")
        (simp_all add: handle_key_def handle_menu_key_def handle_filter_key_def handle_global_key_def
          open_layers_def)
  qed
  have f10: "handle_key cp lower (KF 10) app = Some (app\<lparr>should_quit := True\<rparr>)" if "open_layers app = 0" for app
    using that by (auto simp: open_layers_def handle_key_def handle_global_key_def split: if_splits)
  show ?thesis
  proof (cases "should_quit app")
    case False
    obtain a1 where a1: "handle_key cp lower KEsc app = Some a1" "open_layers a1 = open_layers app - 1"
        "control a1 = control app" "\<not> should_quit a1" using esc [of app] False by auto
    obtain a2 where a2: "handle_key cp lower KEsc a1 = Some a2" "open_layers a2 = open_layers a1 - 1"
        "control a2 = control app" "\<not> should_quit a2" using esc [of a1] a1 by auto
    obtain a3 where a3: "handle_key cp lower KEsc a2 = Some a3" "open_layers a3 = open_layers a2 - 1"
        "control a3 = control app" "\<not> should_quit a3" using esc [of a2] a2 by auto
    have "open_layers app \<le> 3" by (simp add: open_layers_def)
    then have "open_layers a3 = 0" using a1(2) a2(2) a3(2) by simp
    from f10 [OF this] a1 a2 a3 False show ?thesis by simp
  qed simp
qed

end
