(* ===== verification/Mock_Agent.thy ===== *)
theory Mock_Agent
  imports Server Telemetry
begin

text \<open>
  The mock agent of \<open>examples/mock-agent/src/main.rs\<close>: the fleet's profiles, the messages and
  telemetry requests it builds, and the loop of \<open>run_agent\<close> as a step function. A step takes what
  the \<open>select!\<close> yields and gives the writes the agent attempts in order; the agent waits for each
  write, and the first that fails ends it. The platform strings and the clock are parameters; a
  health report reads the clock five times, a step that receives reads it once more for a restart.
\<close>

section \<open>Profiles\<close>

definition base_config :: rstring where
  "base_config = join [10] (map lit
     [''receivers:'',
      ''  otlp:'',
      ''    protocols:'',
      ''      grpc:'',
      ''        endpoint: 0.0.0.0:4317'',
      ''      http:'',
      ''        endpoint: 0.0.0.0:4318'',
      ''  hostmetrics:'',
      ''    collection_interval: 30s'',
      ''processors:'',
      ''  memory_limiter:'',
      ''    check_interval: 1s'',
      ''    limit_mib: 512'',
      ''  resourcedetection:'',
      ''    detectors: [env, system]'',
      ''  batch:'',
      ''    timeout: 5s'',
      ''connectors:'',
      ''  spanmetrics:'',
      ''    histogram:'',
      ''      explicit:'',
      ''        buckets: [10ms, 100ms, 1s]'',
      ''exporters:'',
      ''  otlphttp:'',
      ''    endpoint: https://backend.example.com:4318'',
      ''  prometheus:'',
      ''    endpoint: 0.0.0.0:8889'',
      ''  debug:'',
      ''    verbosity: basic'',
      ''extensions:'',
      ''  health_check:'',
      ''    endpoint: 0.0.0.0:13133'',
      ''  opamp:'',
      ''    server:'',
      ''      ws:'',
      ''        endpoint: ws://127.0.0.1:4320/v1/opamp'',
      ''service:'',
      ''  extensions: [health_check, opamp]'',
      ''  pipelines:'',
      ''    traces:'',
      ''      receivers: [otlp]'',
      ''      processors: [memory_limiter, resourcedetection, batch]'',
      ''      exporters: [otlphttp, spanmetrics]'',
      ''    metrics:'',
      ''      receivers: [otlp, hostmetrics, spanmetrics]'',
      ''      processors: [memory_limiter, batch]'',
      ''      exporters: [otlphttp, prometheus]'',
      ''    logs:'',
      ''      receivers: [otlp]'',
      ''      processors: [memory_limiter, batch]'',
      ''      exporters: [otlphttp, debug]'']) @ [10]"

record profile =
  pr_name :: rstring
  pr_version :: rstring
  pr_host :: rstring
  degraded :: bool

definition templates :: "(rstring \<times> rstring \<times> rstring \<times> bool) list" where
  "templates =
     [(lit ''otel-gateway-01'', lit ''0.110.0'', lit ''ip-10-0-1-12'', False),
      (lit ''otel-agent-fra'', lit ''0.110.0'', lit ''fra-edge-3'', False),
      (lit ''otel-edge-collector'', lit ''0.109.1'', lit ''pop-syd-1'', True),
      (lit ''otel-gateway-02'', lit ''0.110.0'', lit ''ip-10-0-2-44'', False),
      (lit ''otel-agent-iad'', lit ''0.110.0'', lit ''iad-edge-7'', False)]"

definition profile_at :: "nat \<Rightarrow> profile" where
  "profile_at i =
     (let (name, version, host, deg) = templates ! (i mod length templates);
          suffix = (if length templates \<le> i then 45 # nat_to_string i else [])
      in \<lparr>pr_name = name @ suffix, pr_version = version, pr_host = host @ suffix, degraded = deg\<rparr>)"

definition profiles :: "nat \<Rightarrow> profile list" where
  "profiles n = map profile_at [0..<n]"

section \<open>OpAMP messages\<close>

definition agent_caps :: u64 where
  "agent_caps =
     agent_capability_u64 ReportsStatus
     OR agent_capability_u64 AcceptsRemoteConfig
     OR agent_capability_u64 ReportsEffectiveConfig
     OR agent_capability_u64 ReportsHealth
     OR agent_capability_u64 ReportsRemoteConfig
     OR agent_capability_u64 AcceptsRestartCommand
     OR agent_capability_u64 ReportsOwnMetrics
     OR agent_capability_u64 ReportsOwnLogs
     OR agent_capability_u64 AcceptsOpAmpConnectionSettings"

definition opamp_kv :: "rstring \<Rightarrow> rstring \<Rightarrow> key_value" where
  "opamp_kv key v = \<lparr>kv_key = key, kv_value = Some (AnyValue (Some (StringValue v)))\<rparr>"

record platform =
  os :: rstring
  arch :: rstring

definition agent_description_of :: "deps \<Rightarrow> platform \<Rightarrow> instance_uid \<Rightarrow> profile \<Rightarrow> agent_description" where
  "agent_description_of d pf uid p =
     \<lparr>identifying_attributes =
        [opamp_kv (lit ''service.name'') (lit ''io.opentelemetry.collector''),
         opamp_kv (lit ''service.version'') (pr_version p),
         opamp_kv (lit ''service.instance.id'') (uid_to_string d uid)],
      non_identifying_attributes =
        [opamp_kv (lit ''os.type'') (os pf),
         opamp_kv (lit ''host.name'') (pr_host p),
         opamp_kv (lit ''host.arch'') (arch pf)]\<rparr>"

definition sub_health :: "bool \<Rightarrow> rstring \<Rightarrow> rstring \<Rightarrow> u64 \<Rightarrow> component_health" where
  "sub_health healthy status error now = ComponentHealth healthy 0 error status now hm_empty"

definition health :: "profile \<Rightarrow> u64 \<Rightarrow> (nat \<Rightarrow> u64) \<Rightarrow> component_health" where
  "health p start_ns now =
     (let ok = lit ''StatusOK'';
          sub = hm_empty;
          sub = hm_insert (lit ''pipeline:traces'') (sub_health True ok [] (now 0)) sub;
          sub = hm_insert (lit ''pipeline:metrics'') (sub_health True ok [] (now 1)) sub;
          sub = hm_insert (lit ''pipeline:logs'')
            (sub_health (\<not> degraded p)
               (if degraded p then lit ''StatusRecoverableError'' else ok)
               (if degraded p then lit ''exporter otlphttp: connection refused'' else [])
               (now 2)) sub;
          sub = hm_insert (lit ''extension:health_check'') (sub_health True ok [] (now 3)) sub
      in ComponentHealth (\<not> degraded p) start_ns
           (if degraded p then lit ''1 pipeline reporting recoverable errors'' else [])
           (if degraded p then lit ''StatusRecoverableError'' else ok)
           (now 4) sub)"

definition effective_config :: "rstring \<Rightarrow> effective_config_msg" where
  "effective_config yaml = \<lparr>ec_config_map = Some (yaml_config_map yaml)\<rparr>"

definition full_status ::
    "deps \<Rightarrow> platform \<Rightarrow> instance_uid \<Rightarrow> u64 \<Rightarrow> profile \<Rightarrow> rstring \<Rightarrow> u64 \<Rightarrow> (nat \<Rightarrow> u64) \<Rightarrow> agent_to_server" where
  "full_status d pf uid seq p eff start_ns now = agent_to_server_default
     \<lparr>a2s_instance_uid := uid_to_vec uid, a2s_sequence_num := seq, a2s_capabilities := agent_caps,
      a2s_agent_description := Some (agent_description_of d pf uid p),
      a2s_health := Some (health p start_ns now),
      a2s_effective_config := Some (effective_config eff)\<rparr>"

definition health_report ::
    "instance_uid \<Rightarrow> u64 \<Rightarrow> profile \<Rightarrow> u64 \<Rightarrow> (nat \<Rightarrow> u64) \<Rightarrow> agent_to_server" where
  "health_report uid seq p start_ns now = agent_to_server_default
     \<lparr>a2s_instance_uid := uid_to_vec uid, a2s_sequence_num := seq, a2s_capabilities := agent_caps,
      a2s_health := Some (health p start_ns now)\<rparr>"

definition config_status ::
    "instance_uid \<Rightarrow> u64 \<Rightarrow> bytes \<Rightarrow> remote_config_statuses \<Rightarrow> rstring \<Rightarrow> agent_to_server" where
  "config_status uid seq hash st error = agent_to_server_default
     \<lparr>a2s_instance_uid := uid_to_vec uid, a2s_sequence_num := seq, a2s_capabilities := agent_caps,
      a2s_remote_config_status := Some
        \<lparr>last_remote_config_hash = hash, rcs_status = remote_config_statuses_i32 st,
         error_message = error\<rparr>\<rparr>"

definition config_applied :: "instance_uid \<Rightarrow> u64 \<Rightarrow> bytes \<Rightarrow> rstring \<Rightarrow> agent_to_server" where
  "config_applied uid seq hash eff =
     (config_status uid seq hash Applied [])\<lparr>a2s_effective_config := Some (effective_config eff)\<rparr>"

section \<open>Own telemetry\<close>

definition otlp_kv_of :: "rstring \<Rightarrow> rstring \<Rightarrow> otlp_kv" where
  "otlp_kv_of key v = \<lparr>okv_key = key, okv_value = Some (Some (OStringValue v))\<rparr>"

definition own_resource :: "rstring \<Rightarrow> resource" where
  "own_resource uid = \<lparr>attributes =
     [otlp_kv_of (lit ''service.name'') (lit ''io.opentelemetry.collector''),
      otlp_kv_of (lit ''service.instance.id'') uid]\<rparr>"

definition number_point :: "f64 \<Rightarrow> u64 \<Rightarrow> number_data_point" where
  "number_point v now = \<lparr>dp_time_unix_nano = now, dp_value = Some (AsDouble v)\<rparr>"

definition gauge_metric :: "rstring \<Rightarrow> rstring \<Rightarrow> f64 \<Rightarrow> u64 \<Rightarrow> metric" where
  "gauge_metric name unit v now =
     \<lparr>m_name = name, m_unit = unit, m_data = Some (Gauge [number_point v now])\<rparr>"

definition sum_metric :: "rstring \<Rightarrow> rstring \<Rightarrow> f64 \<Rightarrow> u64 \<Rightarrow> metric" where
  "sum_metric name unit v now =
     \<lparr>m_name = name, m_unit = unit, m_data = Some (Sum [number_point v now])\<rparr>"

definition u64_as_f64 :: "u64 \<Rightarrow> f64" where
  "u64_as_f64 n = f64_of_int (uint n)"

text \<open>
  The memory gauge is computed in doubles from integers below 2 to the 53, where the sum and the
  product are exact.
\<close>

definition build_metrics :: "rstring \<Rightarrow> profile \<Rightarrow> u64 \<Rightarrow> (nat \<Rightarrow> u64) \<Rightarrow> resource_metrics list" where
  "build_metrics uid p tick now =
     (let queue = (if degraded p then 80 + tick * 5 else 4 + tick mod 6);
          ms = [sum_metric (lit ''otelcol_process_uptime'') (lit ''s'') (u64_as_f64 (tick * 3)) (now 0),
                gauge_metric (lit ''otelcol_process_memory_rss'') (lit ''By'')
                  (f64_of_int (105000000 + uint (tick mod 11) * 2000000)) (now 1),
                sum_metric (lit ''otelcol_receiver_accepted_spans'') (lit ''1'')
                  (u64_as_f64 (tick * 1840)) (now 2),
                sum_metric (lit ''otelcol_exporter_sent_spans'') (lit ''1'')
                  (u64_as_f64 (tick * 1820)) (now 3),
                gauge_metric (lit ''otelcol_exporter_queue_size'') (lit ''1'') (u64_as_f64 queue) (now 4),
                gauge_metric (lit ''otelcol_processor_batch_batch_send_size'') (lit ''1'')
                  (f64_of_int 512) (now 5)]
      in [\<lparr>rm_resource = Some (own_resource uid), scope_metrics = [ms]\<rparr>])"

definition own_log_record :: "i32 \<Rightarrow> rstring \<Rightarrow> rstring \<Rightarrow> u64 \<Rightarrow> log_record" where
  "own_log_record number sev text now =
     \<lparr>lr_time_unix_nano = now, severity_number = number, severity_text = sev,
      lr_body = Some (Some (OStringValue text))\<rparr>"

definition build_logs :: "rstring \<Rightarrow> profile \<Rightarrow> u64 \<Rightarrow> (nat \<Rightarrow> u64) \<Rightarrow> resource_logs list" where
  "build_logs uid p tick now =
     (let records = [own_log_record 9 (lit ''INFO'')
            (lit ''Everything is ready. Begin running and processing data.'') (now 0)];
          records = (if degraded p then
              records @ [own_log_record 17 (lit ''ERROR'')
                (lit ''Exporting failed. Will retry the request after interval. {exporter=otlphttp}'')
                (now 1)]
            else if tick mod 4 = 0 then
              records @ [own_log_record 13 (lit ''WARN'')
                (lit ''Memory usage is above soft limit, forcing a GC.'') (now 1)]
            else records)
      in [\<lparr>rl_resource = Some (own_resource uid), scope_logs = [records]\<rparr>])"

section \<open>The agent's loop\<close>

record agent =
  ag_uid :: instance_uid
  ag_profile :: profile
  ag_start_ns :: u64
  ag_seq :: u64
  ag_effective :: rstring
  ag_tick :: u64

datatype agent_write = WriteMessage agent_to_server | WritePong bytes

text \<open>Before the loop: the first report.\<close>

definition agent_start ::
    "deps \<Rightarrow> platform \<Rightarrow> instance_uid \<Rightarrow> profile \<Rightarrow> u64 \<Rightarrow> (nat \<Rightarrow> u64) \<Rightarrow> agent \<times> agent_write list" where
  "agent_start d pf uid p start_ns now =
     (\<lparr>ag_uid = uid, ag_profile = p, ag_start_ns = start_ns, ag_seq = 1,
       ag_effective = base_config, ag_tick = 0\<rparr>,
      [WriteMessage (full_status d pf uid 1 p base_config start_ns now)])"

text \<open>The text of an offer: the unnamed file, or else the first file the map yields.\<close>

definition offered_text :: "agent_remote_config \<Rightarrow> rstring option" where
  "offered_text rc =
     (case arc_config rc of
        None \<Rightarrow> None
      | Some m \<Rightarrow>
          map_option (\<lambda>file. from_utf8_lossy (body file))
            (case hm_get m [] of
               Some file \<Rightarrow> Some file
             | None \<Rightarrow> (case m of [] \<Rightarrow> None | (_, file) # _ \<Rightarrow> Some file)))"

definition on_remote_config :: "agent_remote_config \<Rightarrow> agent \<Rightarrow> agent \<times> agent_write list" where
  "on_remote_config rc ag =
     (let ag = (case offered_text rc of Some text \<Rightarrow> ag\<lparr>ag_effective := text\<rparr> | None \<Rightarrow> ag);
          ag = ag\<lparr>ag_seq := ag_seq ag + 1\<rparr>;
          applying = config_status (ag_uid ag) (ag_seq ag) (config_hash_field rc) Applying [];
          ag = ag\<lparr>ag_seq := ag_seq ag + 1\<rparr>;
          applied = config_applied (ag_uid ag) (ag_seq ag) (config_hash_field rc) (ag_effective ag)
      in (ag, [WriteMessage applying, WriteMessage applied]))"

definition on_command ::
    "server_to_agent_command \<Rightarrow> u64 \<Rightarrow> (nat \<Rightarrow> u64) \<Rightarrow> agent \<Rightarrow> agent \<times> agent_write list" where
  "on_command cmd restart_ns now ag =
     (if cmd_type cmd = command_type_i32 Restart then
        (let ag = ag\<lparr>ag_start_ns := restart_ns, ag_seq := ag_seq ag + 1\<rparr>
         in (ag, [WriteMessage (health_report (ag_uid ag) (ag_seq ag) (ag_profile ag) (ag_start_ns ag) now)]))
      else (ag, []))"

definition on_server_message ::
    "server_to_agent \<Rightarrow> u64 \<Rightarrow> (nat \<Rightarrow> u64) \<Rightarrow> agent \<Rightarrow> agent \<times> agent_write list" where
  "on_server_message s2a restart_ns now ag =
     (let (ag, w1) = (case s2a_remote_config s2a of
            Some rc \<Rightarrow> on_remote_config rc ag | None \<Rightarrow> (ag, []));
          (ag, w2) = (case s2a_command s2a of
            Some cmd \<Rightarrow> on_command cmd restart_ns now ag | None \<Rightarrow> (ag, []))
      in (ag, w1 @ w2))"

datatype agent_input = FromSocket read_result | Tick

text \<open>How a step of the loop goes on: the next state, a clean end, or an error.\<close>

datatype agent_next = Continue agent | Ended | AgentError opamp_error

definition agent_step ::
    "deps \<Rightarrow> agent_input \<Rightarrow> u64 \<Rightarrow> (nat \<Rightarrow> u64) \<Rightarrow> agent \<Rightarrow> agent_next \<times> agent_write list" where
  "agent_step d inp restart_ns now ag =
     (case inp of
        FromSocket (ReadOk (WsBinary data)) \<Rightarrow>
          (case framing_decode d (d_decode_s2a d) data of
             Inl e \<Rightarrow> (AgentError e, [])
           | Inr s2a \<Rightarrow> (let (ag', ws) = on_server_message s2a restart_ns now ag in (Continue ag', ws)))
      | FromSocket (ReadOk (WsPing p)) \<Rightarrow> (Continue ag, [WritePong p])
      | FromSocket (ReadOk WsClose) \<Rightarrow> (Ended, [])
      | FromSocket ReadEnd \<Rightarrow> (Ended, [])
      | FromSocket (ReadErr e) \<Rightarrow> (AgentError (Ws e), [])
      | FromSocket (ReadOk _) \<Rightarrow> (Continue ag, [])
      | Tick \<Rightarrow>
          (let ag = ag\<lparr>ag_tick := ag_tick ag + 1, ag_seq := ag_seq ag + 1\<rparr>
           in (Continue ag,
               [WriteMessage (health_report (ag_uid ag) (ag_seq ag) (ag_profile ag) (ag_start_ns ag) now)])))"

text \<open>The exports that follow the report of a tick.\<close>

definition tick_exports ::
    "deps \<Rightarrow> agent \<Rightarrow> (nat \<Rightarrow> u64) \<Rightarrow> (nat \<Rightarrow> u64) \<Rightarrow> resource_metrics list \<times> resource_logs list" where
  "tick_exports d ag now now' =
     (build_metrics (uid_to_string d (ag_uid ag)) (ag_profile ag) (ag_tick ag) now,
      build_logs (uid_to_string d (ag_uid ag)) (ag_profile ag) (ag_tick ag) now')"

text \<open>The bytes of a write on the wire.\<close>

fun agent_frame :: "deps \<Rightarrow> agent_write \<Rightarrow> ws_message" where
  "agent_frame d (WriteMessage m) = WsBinary (framing_encode d (d_encode_a2s d) m)"
| "agent_frame d (WritePong p) = WsPong p"

section \<open>The OTLP clients\<close>

text \<open>
  \<open>push_metrics\<close> and \<open>push_logs\<close>: the client is connected on first use and dropped when an export
  fails. \<open>connect\<close> is the outcome of a connection attempt, \<open>send\<close> that of an export over a client;
  the results are the client kept and the request sent, if any.
\<close>

definition push_metrics ::
    "(rstring, 'k) result \<Rightarrow> ('k \<Rightarrow> resource_metrics list \<Rightarrow> (rstring, unit) result) \<Rightarrow>
     rstring \<Rightarrow> profile \<Rightarrow> u64 \<Rightarrow> (nat \<Rightarrow> u64) \<Rightarrow> 'k option \<Rightarrow> 'k option \<times> resource_metrics list option" where
  "push_metrics connect send uid p tick now client =
     (case (case client of None \<Rightarrow> connect | Some c \<Rightarrow> Inr c) of
        Inl e \<Rightarrow> (None, None)
      | Inr c \<Rightarrow>
          (let request = build_metrics uid p tick now
           in (case send c request of Inl e \<Rightarrow> None | Inr _ \<Rightarrow> Some c, Some request)))"

definition push_logs ::
    "(rstring, 'k) result \<Rightarrow> ('k \<Rightarrow> resource_logs list \<Rightarrow> (rstring, unit) result) \<Rightarrow>
     rstring \<Rightarrow> profile \<Rightarrow> u64 \<Rightarrow> (nat \<Rightarrow> u64) \<Rightarrow> 'k option \<Rightarrow> 'k option \<times> resource_logs list option" where
  "push_logs connect send uid p tick now client =
     (case (case client of None \<Rightarrow> connect | Some c \<Rightarrow> Inr c) of
        Inl e \<Rightarrow> (None, None)
      | Inr c \<Rightarrow>
          (let request = build_logs uid p tick now
           in (case send c request of Inl e \<Rightarrow> None | Inr _ \<Rightarrow> Some c, Some request)))"

section \<open>Sessions\<close>

type_synonym agent_event = "agent_input \<times> u64 \<times> (nat \<Rightarrow> u64)"

text \<open>The loop over what the socket and the ticker yield: what is written, and how the loop ends.\<close>

datatype session_end = Running | Clean | Failed opamp_error

fun agent_loop :: "deps \<Rightarrow> agent_event list \<Rightarrow> agent \<Rightarrow> agent_write list \<times> session_end" where
  "agent_loop d [] ag = ([], Running)"
| "agent_loop d ((inp, restart_ns, now) # es) ag =
     (case agent_step d inp restart_ns now ag of
        (Continue ag', ws) \<Rightarrow> (let (ws', r) = agent_loop d es ag' in (ws @ ws', r))
      | (Ended, ws) \<Rightarrow> (ws, Clean)
      | (AgentError e, ws) \<Rightarrow> (ws, Failed e))"

text \<open>
  One call of \<open>run_agent\<close>: a new UID, the connection, the first report, the loop. \<open>connect\<close> is the
  outcome of connecting to the server; when it fails nothing is written.
\<close>

record session =
  ss_uid :: instance_uid
  ss_connect :: "(rstring, unit) result"
  ss_start_ns :: u64
  ss_now :: "nat \<Rightarrow> u64"
  ss_events :: "agent_event list"

definition run_agent :: "deps \<Rightarrow> platform \<Rightarrow> profile \<Rightarrow> session \<Rightarrow> agent_write list \<times> session_end" where
  "run_agent d pf p ss =
     (case ss_connect ss of
        Inl e \<Rightarrow> ([], Failed (Ws e))
      | Inr _ \<Rightarrow>
          (let (ag, ws) = agent_start d pf (ss_uid ss) p (ss_start_ns ss) (ss_now ss);
               (ws', r) = agent_loop d (ss_events ss) ag
           in (ws @ ws', r)))"

text \<open>The task of one agent: it runs sessions one after the other, however they end.\<close>

fun agent_task :: "deps \<Rightarrow> platform \<Rightarrow> profile \<Rightarrow> session list \<Rightarrow> agent_write list list" where
  "agent_task d pf p [] = []"
| "agent_task d pf p (ss # sss) =
     (case run_agent d pf p ss of
        (ws, Running) \<Rightarrow> [ws]
      | (ws, _) \<Rightarrow> ws # agent_task d pf p sss)"

end
