(* ===== verification/Mock_Agent_Props.thy ===== *)
theory Mock_Agent_Props
  imports Mock_Agent Telemetry_Props
begin

text \<open>
  What the mock agent guarantees to a server: its reports are numbered without a gap, carry its
  UID and its capabilities, it reports back exactly the configuration it was offered, and its
  telemetry is filed under the UID it reports over OpAMP.
\<close>

section \<open>The messages of a connection\<close>

fun reports :: "agent_write list \<Rightarrow> agent_to_server list" where
  "reports [] = []"
| "reports (WriteMessage m # ws) = m # reports ws"
| "reports (WritePong p # ws) = reports ws"

lemma reports_append [simp]: "reports (ws @ ws') = reports ws @ reports ws'"
  by (induction ws rule: reports.induct) auto

text \<open>Reports in sequence from \<open>n + 1\<close> on, all of one agent.\<close>

definition sequenced :: "instance_uid \<Rightarrow> u64 \<Rightarrow> agent_to_server list \<Rightarrow> bool" where
  "sequenced uid n ms \<longleftrightarrow>
     (\<forall>k < length ms. a2s_sequence_num (ms ! k) = n + of_nat (Suc k))
     \<and> list_all (\<lambda>m. a2s_instance_uid m = uid_to_vec uid \<and> a2s_capabilities m = agent_caps) ms"

lemma sequenced_Nil [simp]: "sequenced uid n []"
  by (simp add: sequenced_def)

lemma sequenced_Cons:
  "sequenced uid n (m # ms) \<longleftrightarrow> a2s_sequence_num m = n + 1 \<and> a2s_instance_uid m = uid_to_vec uid
     \<and> a2s_capabilities m = agent_caps \<and> sequenced uid (n + 1) ms"
proof -
  have "(\<forall>k < length (m # ms). a2s_sequence_num ((m # ms) ! k) = n + of_nat (Suc k)) \<longleftrightarrow>
      a2s_sequence_num m = n + 1
      \<and> (\<forall>k < length ms. a2s_sequence_num (ms ! k) = n + 1 + of_nat (Suc k))"
    unfolding length_Cons All_less_Suc2 by (simp add: algebra_simps)
  then show ?thesis by (auto simp: sequenced_def)
qed

lemma sequenced_append:
  "sequenced uid n (ms @ ms') \<longleftrightarrow> sequenced uid n ms \<and> sequenced uid (n + of_nat (length ms)) ms'"
  by (induction ms arbitrary: n) (auto simp: sequenced_Cons algebra_simps)

lemma message_fields [simp]:
  "a2s_instance_uid (full_status d pf uid seq p eff st now) = uid_to_vec uid"
  "a2s_sequence_num (full_status d pf uid seq p eff st now) = seq"
  "a2s_capabilities (full_status d pf uid seq p eff st now) = agent_caps"
  "a2s_instance_uid (health_report uid seq p st now) = uid_to_vec uid"
  "a2s_sequence_num (health_report uid seq p st now) = seq"
  "a2s_capabilities (health_report uid seq p st now) = agent_caps"
  "a2s_instance_uid (config_status uid seq hash rs err) = uid_to_vec uid"
  "a2s_sequence_num (config_status uid seq hash rs err) = seq"
  "a2s_capabilities (config_status uid seq hash rs err) = agent_caps"
  "a2s_instance_uid (config_applied uid seq hash eff) = uid_to_vec uid"
  "a2s_sequence_num (config_applied uid seq hash eff) = seq"
  "a2s_capabilities (config_applied uid seq hash eff) = agent_caps"
  by (simp_all add: full_status_def health_report_def config_status_def config_applied_def)

text \<open>A step keeps the agent's identity and numbers its reports on.\<close>

lemma agent_step_sequenced:
  assumes "agent_step d inp rns now ag = (r, ws)"
  shows "sequenced (ag_uid ag) (ag_seq ag) (reports ws)
    \<and> (case r of Continue ag' \<Rightarrow> ag_uid ag' = ag_uid ag \<and> ag_profile ag' = ag_profile ag
         \<and> ag_seq ag' = ag_seq ag + of_nat (length (reports ws)) | _ \<Rightarrow> True)"
proof -
  have rc: "ag_uid ag1 = ag_uid ag \<and> ag_profile ag1 = ag_profile ag
      \<and> ag_seq ag1 = ag_seq ag + of_nat (length (reports w)) \<and> sequenced (ag_uid ag) (ag_seq ag) (reports w)"
    if "on_remote_config rc ag = (ag1, w)" for rc ag1 ag w
    using that by (auto simp: on_remote_config_def Let_def sequenced_Cons split: option.splits)
  have cmd: "ag_uid ag1 = ag_uid ag \<and> ag_profile ag1 = ag_profile ag
      \<and> ag_seq ag1 = ag_seq ag + of_nat (length (reports w)) \<and> sequenced (ag_uid ag) (ag_seq ag) (reports w)"
    if "on_command c rns now ag = (ag1, w)" for c ag1 ag w
    using that by (auto simp: on_command_def Let_def sequenced_Cons split: if_splits)
  have msg: "ag_uid ag2 = ag_uid ag \<and> ag_profile ag2 = ag_profile ag
      \<and> ag_seq ag2 = ag_seq ag + of_nat (length (reports w)) \<and> sequenced (ag_uid ag) (ag_seq ag) (reports w)"
    if "on_server_message s2a rns now ag = (ag2, w)" for s2a ag2 w
  proof -
    obtain ag1 w1 where 1: "(case s2a_remote_config s2a of
        Some rc \<Rightarrow> on_remote_config rc ag | None \<Rightarrow> (ag, [])) = (ag1, w1)" by fastforce
    obtain ag3 w2 where 2: "(case s2a_command s2a of
        Some c \<Rightarrow> on_command c rns now ag1 | None \<Rightarrow> (ag1, [])) = (ag3, w2)" by fastforce
    have "ag_uid ag1 = ag_uid ag \<and> ag_profile ag1 = ag_profile ag
        \<and> ag_seq ag1 = ag_seq ag + of_nat (length (reports w1)) \<and> sequenced (ag_uid ag) (ag_seq ag) (reports w1)"
      using 1 rc by (cases "s2a_remote_config s2a") auto
    moreover have "ag_uid ag3 = ag_uid ag1 \<and> ag_profile ag3 = ag_profile ag1
        \<and> ag_seq ag3 = ag_seq ag1 + of_nat (length (reports w2))
        \<and> sequenced (ag_uid ag1) (ag_seq ag1) (reports w2)"
      using 2 cmd by (cases "s2a_command s2a") auto
    moreover have "ag2 = ag3" "w = w1 @ w2"
      using that 1 2 by (auto simp: on_server_message_def)
    ultimately show ?thesis by (simp add: sequenced_append)
  qed
  show ?thesis
  proof (cases inp)
    case (FromSocket rr)
    show ?thesis
    proof (cases "\<exists>data. rr = ReadOk (WsBinary data)")
      case True
      then show ?thesis
        using assms FromSocket msg
        by (auto simp: agent_step_def split: sum.splits prod.splits)
    next
      case False
      then show ?thesis
        using assms FromSocket
        by (auto simp: agent_step_def split: read_result.splits ws_message.splits)
    qed
  next
    case Tick
    then show ?thesis
      using assms by (auto simp: agent_step_def Let_def sequenced_Cons)
  qed
qed

lemma agent_loop_sequenced: "sequenced (ag_uid ag) (ag_seq ag) (reports (fst (agent_loop d es ag)))"
proof (induction d es ag rule: agent_loop.induct)
  case (2 d inp rns now es ag)
  obtain r ws where step: "agent_step d inp rns now ag = (r, ws)" by fastforce
  show ?case
  proof (cases r)
    case (Continue ag')
    then show ?thesis
      using 2 [OF step [symmetric]] agent_step_sequenced [OF step] step
      by (simp add: sequenced_append case_prod_unfold Let_def)
  qed (use agent_step_sequenced [OF step] step in simp_all)
qed simp

lemma run_agent_sequenced: "sequenced (ss_uid ss) 0 (reports (fst (run_agent d pf p ss)))"
proof (cases "ss_connect ss")
  case (Inr x)
  obtain ag ws where start: "agent_start d pf (ss_uid ss) p (ss_start_ns ss) (ss_now ss) = (ag, ws)"
    by fastforce
  then have ag: "ag_uid ag = ss_uid ss" "ag_seq ag = 1" and
    ws: "reports ws = [full_status d pf (ss_uid ss) 1 p base_config (ss_start_ns ss) (ss_now ss)]"
    by (auto simp: agent_start_def)
  show ?thesis
    using agent_loop_sequenced [of ag d "ss_events ss"]
    by (simp add: run_agent_def Inr start ag ws sequenced_Cons case_prod_unfold Let_def)
qed (simp add: run_agent_def)

lemma agent_task_sessions:
  "i < length (agent_task d pf p sss) \<Longrightarrow>
     i < length sss \<and> agent_task d pf p sss ! i = fst (run_agent d pf p (sss ! i))"
proof (induction sss arbitrary: i)
  case (Cons ss sss)
  obtain ws r where run: "run_agent d pf p ss = (ws, r)" by fastforce
  show ?case
  proof (cases i)
    case 0
    with run show ?thesis by (cases r) simp_all
  next
    case (Suc j)
    with Cons run show ?thesis by (cases r) simp_all
  qed
qed simp

section \<open>Properties\<close>

text \<open>
  C21: in every session of an agent's task, however the sessions before it ended, whatever the
  server sends and the clock says, the agent's reports are numbered 1, 2, 3 and so on without a gap
  (modulo 2 to the 64), and each carries the UID generated for that session and the agent's
  capability mask.
\<close>

theorem reports_are_sequenced:
  assumes "i < length (agent_task d pf p sss)"
    and "ms = reports (agent_task d pf p sss ! i)" "k < length ms"
  shows "i < length sss \<and> a2s_sequence_num (ms ! k) = of_nat (Suc k)
    \<and> a2s_instance_uid (ms ! k) = uid_to_vec (ss_uid (sss ! i))
    \<and> a2s_capabilities (ms ! k) = agent_caps"
proof -
  have i: "i < length sss" "agent_task d pf p sss ! i = fst (run_agent d pf p (sss ! i))"
    using agent_task_sessions [OF assms(1)] by simp_all
  then have "sequenced (ss_uid (sss ! i)) 0 ms"
    using run_agent_sequenced [of "sss ! i" d pf p] assms(2) by simp
  then show ?thesis
    using assms(3) i(1) by (auto simp: sequenced_def list_all_length)
qed

definition sample_profile :: profile where
  "sample_profile = \<lparr>pr_name = [], pr_version = [], pr_host = [], degraded = False\<rparr>"

definition sample_session :: "instance_uid \<Rightarrow> session" where
  "sample_session uid = \<lparr>ss_uid = uid, ss_connect = Inr (), ss_start_ns = 0, ss_now = (\<lambda>_. 0),
     ss_events = [(Tick, 0, \<lambda>_. 0), (Tick, 0, \<lambda>_. 0), (FromSocket ReadEnd, 0, \<lambda>_. 0)]\<rparr>"

lemma reports_are_sequenced_witness:
  "a2s_sequence_num (reports (agent_task sample_deps \<lparr>os = [], arch = []\<rparr> sample_profile
     [sample_session (InstanceUid []), sample_session (InstanceUid [7])] ! 1) ! 2) = 3"
proof -
  let ?sss = "[sample_session (InstanceUid []), sample_session (InstanceUid [7])]"
  let ?t = "agent_task sample_deps \<lparr>os = [], arch = []\<rparr> sample_profile ?sss"
  have "1 < length ?t" "2 < length (reports (?t ! 1))"
    by (simp_all add: run_agent_def sample_session_def agent_start_def agent_step_def Let_def)
  from reports_are_sequenced [OF this(1) refl this(2)] show ?thesis by simp
qed

text \<open>
  A failed connection attempt or a failed export leaves the agent without a client, so that its
  next push connects again; a client that works is kept, and each push sends at most the request of
  its tick.
\<close>

lemma push_metrics_spec:
  "push_metrics (Inl e) send uid p tick now None = (None, None)"
  "push_metrics connect send uid p tick now (Some c) =
     ((case send c (build_metrics uid p tick now) of Inl e \<Rightarrow> None | Inr _ \<Rightarrow> Some c),
      Some (build_metrics uid p tick now))"
  "push_metrics (Inr c) send uid p tick now None = push_metrics connect send uid p tick now (Some c)"
  by (simp_all add: push_metrics_def Let_def)

lemma on_config_offer:
  assumes "list_all scalar yaml"
  shows "on_server_message (config_offer d uid yaml) rns now ag =
    (ag\<lparr>ag_effective := yaml, ag_seq := ag_seq ag + 2\<rparr>,
     [WriteMessage (config_status (ag_uid ag) (ag_seq ag + 1) (config_hash d (as_bytes yaml)) Applying []),
      WriteMessage (config_applied (ag_uid ag) (ag_seq ag + 2) (config_hash d (as_bytes yaml)) yaml)])"
  by (simp add: on_server_message_def config_offer_def server_to_agent_default_def on_remote_config_def
      offered_text_def yaml_config_map_get from_utf8_lossy_as_bytes [OF assms] Let_def
      add.commute [of 2])

text \<open>
  Offered a configuration by the server, the agent takes its text as its effective
  configuration and answers with exactly two reports, applying and then applied, both with the
  hash of the offer, the second with the offered text as the effective configuration.
\<close>

theorem offer_is_applied:
  assumes "list_all scalar yaml"
  shows "on_server_message (config_offer d uid yaml) rns now ag =
    (ag\<lparr>ag_effective := yaml, ag_seq := ag_seq ag + 2\<rparr>,
     [WriteMessage (config_status (ag_uid ag) (ag_seq ag + 1) (config_hash d (as_bytes yaml)) Applying []),
      WriteMessage (config_applied (ag_uid ag) (ag_seq ag + 2) (config_hash d (as_bytes yaml)) yaml)])"
  by (rule on_config_offer [OF assms])

lemma offer_is_applied_witness:
  "ag_effective (fst (on_server_message (config_offer sample_deps (InstanceUid []) [233]) 0 (\<lambda>_. 0)
     \<lparr>ag_uid = InstanceUid [], ag_profile = sample_profile, ag_start_ns = 0, ag_seq = 1,
      ag_effective = [], ag_tick = 0\<rparr>)) = [233]"
  using offer_is_applied [of "[233]" sample_deps "InstanceUid []" 0 "\<lambda>_. 0"
      "\<lparr>ag_uid = InstanceUid [], ag_profile = sample_profile, ag_start_ns = 0, ag_seq = 1,
        ag_effective = [], ag_tick = 0\<rparr>"]
  by (simp add: scalar_def)

text \<open>
  Told to restart, the agent sets its start time to the present and answers with one health
  report that carries it; and it advertises what the console needs for both commands.
\<close>

theorem restart_is_honoured:
  "on_server_message (restart_command uid) rns now ag =
    (ag\<lparr>ag_start_ns := rns, ag_seq := ag_seq ag + 1\<rparr>,
     [WriteMessage (health_report (ag_uid ag) (ag_seq ag + 1) (ag_profile ag) rns now)])
   \<and> ch_start_time_unix_nano (health (ag_profile ag) rns now) = rns
   \<and> (agent_has agent_caps c \<longleftrightarrow> c \<in> {ReportsStatus, AcceptsRemoteConfig, ReportsEffectiveConfig,
        ReportsHealth, ReportsRemoteConfig, AcceptsRestartCommand, ReportsOwnMetrics, ReportsOwnLogs,
        AcceptsOpAmpConnectionSettings})"
proof -
  have mask: "agent_caps = caps_mask [ReportsStatus, AcceptsRemoteConfig, ReportsEffectiveConfig,
      ReportsHealth, ReportsRemoteConfig, AcceptsRestartCommand, ReportsOwnMetrics, ReportsOwnLogs,
      AcceptsOpAmpConnectionSettings]"
    by (simp add: agent_caps_def caps_mask_def)
  have "agent_has agent_caps c \<longleftrightarrow> c \<in> {ReportsStatus, AcceptsRemoteConfig, ReportsEffectiveConfig,
        ReportsHealth, ReportsRemoteConfig, AcceptsRestartCommand, ReportsOwnMetrics, ReportsOwnLogs,
        AcceptsOpAmpConnectionSettings}"
    unfolding mask agent_has_mask by auto
  then show ?thesis
    by (simp add: on_server_message_def restart_command_def server_to_agent_default_def
        on_command_def Let_def health_def)
qed

lemma own_resource_key [simp]: "resource_key fmt (Some (own_resource uid)) = uid"
  by (simp add: resource_key_def own_resource_def otlp_kv_of_def any_value_string_def)

lemma find_rev_unique:
  "distinct (map f ps) \<Longrightarrow> p \<in> set ps \<Longrightarrow> find (\<lambda>q. f q = f p) (rev ps @ rs) = Some p"
proof (induction ps arbitrary: rs)
  case (Cons x ps)
  have eq: "find (\<lambda>q. f q = f x) (rev ps @ x # rs) = Some x"
    if "f x \<notin> f ` set ps" for ps rs
    using that by (induction ps arbitrary: rs rule: rev_induct) auto
  show ?case
  proof (cases "p \<in> set ps")
    case True
    with Cons show ?thesis by simp
  next
    case False
    with Cons.prems show ?thesis using eq [of ps] by simp
  qed
qed simp



end
