(* ===== verification/Pipeline.thy ===== *)
theory Pipeline
  imports Rust_String
begin

text \<open>
  The pipeline graph of \<open>crates/otelc-tui/src/pipeline.rs\<close>: a collector's effective config read
  into its pipelines and declared connectors, and the bridges the connectors make between
  pipelines. The YAML crate is a parameter: \<open>from_str\<close> deserialises a document into the raw
  structures (their BTreeMap is an association list in increasing order of its keys), and
  \<open>as_str\<close> views a YAML value as a string. A \<open>BTreeSet\<close> is a strictly increasing list.
\<close>

section \<open>The graph\<close>

record pipeline =
  p_name :: rstring
  receivers :: "rstring list"
  processors :: "rstring list"
  exporters :: "rstring list"

record pipeline_graph =
  pipelines :: "pipeline list"
  connectors :: "rstring list"

type_synonym bridge = "rstring \<times> rstring \<times> rstring"

definition btree_set :: "rstring list \<Rightarrow> rstring list" where
  "btree_set xs = sort (remdups xs)"

lemma btree_set: "set (btree_set xs) = set xs" "sorted_wrt (<) (btree_set xs)"
  by (simp_all add: btree_set_def strict_sorted_iff)

definition is_connector :: "pipeline_graph \<Rightarrow> rstring \<Rightarrow> bool" where
  "is_connector g name = List.member (connectors g) name"

definition bridges_of :: "pipeline_graph \<Rightarrow> rstring \<Rightarrow> bridge list" where
  "bridges_of g c =
     (let froms = map p_name (filter (\<lambda>p. list_ex (\<lambda>e. e = c) (exporters p)) (pipelines g));
          tos = map p_name (filter (\<lambda>p. list_ex (\<lambda>r. r = c) (receivers p)) (pipelines g))
      in concat (map (\<lambda>f. map (\<lambda>t. (c, f, t)) tos) froms))"

definition bridges :: "pipeline_graph \<Rightarrow> bridge list" where
  "bridges g = concat (map (bridges_of g) (connectors g))"

section \<open>Parsing\<close>

record raw_pipeline =
  raw_receivers :: "rstring list"
  raw_processors :: "rstring list"
  raw_exporters :: "rstring list"

record raw_service =
  raw_pipelines :: "(rstring \<times> raw_pipeline) list"

datatype 'v yaml_value = Mapping "('v \<times> 'v) list" | NotMapping 'v

record 'v raw_config =
  raw_connectors :: "'v yaml_value option"
  raw_service :: "raw_service option"

record 'v yaml =
  from_str :: "rstring \<Rightarrow> (rstring, 'v raw_config) result"
  as_str :: "'v \<Rightarrow> rstring option"

definition connectors_of :: "'v yaml \<Rightarrow> 'v raw_config \<Rightarrow> rstring list" where
  "connectors_of y raw =
     (case raw_connectors raw of
        Some (Mapping m) \<Rightarrow> btree_set (List.map_filter (\<lambda>(k, _). as_str y k) m)
      | _ \<Rightarrow> [])"

definition pipelines_of :: "'v raw_config \<Rightarrow> pipeline list" where
  "pipelines_of raw =
     map (\<lambda>(name, p). \<lparr>p_name = name, receivers = raw_receivers p,
            processors = raw_processors p, exporters = raw_exporters p\<rparr>)
       (case raw_service raw of Some s \<Rightarrow> raw_pipelines s | None \<Rightarrow> [])"

definition parse :: "'v yaml \<Rightarrow> rstring \<Rightarrow> (rstring, pipeline_graph) result" where
  "parse y doc =
     (case from_str y doc of
        Inl e \<Rightarrow> Inl e
      | Inr raw \<Rightarrow> Inr \<lparr>pipelines = pipelines_of raw, connectors = connectors_of y raw\<rparr>)"

section \<open>Graphs as the parser builds them\<close>

definition graph_ok :: "pipeline_graph \<Rightarrow> bool" where
  "graph_ok g \<longleftrightarrow> sorted_wrt (<) (connectors g) \<and> sorted_wrt (<) (map p_name (pipelines g))"

definition raw_ok :: "'v raw_config \<Rightarrow> bool" where
  "raw_ok raw \<longleftrightarrow>
     (case raw_service raw of Some s \<Rightarrow> sorted_wrt (<) (map fst (raw_pipelines s)) | None \<Rightarrow> True)"

lemma connectors_of_sorted: "sorted_wrt (<) (connectors_of y raw)"
  by (auto simp: connectors_of_def btree_set split: option.split yaml_value.split)

lemma pipelines_of_names:
  "map p_name (pipelines_of raw) =
     map fst (case raw_service raw of Some s \<Rightarrow> raw_pipelines s | None \<Rightarrow> [])"
  by (auto simp: pipelines_of_def split: option.split)

lemma sorted_wrt_less_distinct: "sorted_wrt (<) (xs :: 'a::linorder list) \<Longrightarrow> distinct xs"
  by (simp add: strict_sorted_iff)

lemma graph_ok_distinct:
  "graph_ok g \<Longrightarrow> distinct (connectors g)" "graph_ok g \<Longrightarrow> distinct (map p_name (pipelines g))"
  by (simp_all add: graph_ok_def sorted_wrt_less_distinct)

lemma mem_bridges_of:
  "(c', f, t) \<in> set (bridges_of g c) \<longleftrightarrow> c' = c
     \<and> (\<exists>p \<in> set (pipelines g). p_name p = f \<and> c \<in> set (exporters p))
     \<and> (\<exists>q \<in> set (pipelines g). p_name q = t \<and> c \<in> set (receivers q))"
  by (auto simp: bridges_of_def Let_def list_ex_iff)

lemma distinct_pairs:
  "distinct fs \<Longrightarrow> distinct ts \<Longrightarrow> distinct (concat (map (\<lambda>f. map (\<lambda>t. (c, f, t)) ts) fs))"
  by (induction fs) (auto simp: distinct_map inj_on_def)

lemma distinct_bridges_of: "graph_ok g \<Longrightarrow> distinct (bridges_of g c)"
  unfolding bridges_of_def Let_def
  by (intro distinct_pairs distinct_map_filter graph_ok_distinct)

lemma distinct_concat_tagged:
  assumes "distinct cs" "\<And>c. distinct (h c)" "\<And>c b. b \<in> set (h c) \<Longrightarrow> fst b = c"
  shows "distinct (concat (map h cs))"
  using assms(1)
proof (induction cs)
  case (Cons c cs)
  have "set (h c) \<inter> (\<Union>c' \<in> set cs. set (h c')) = {}"
  proof (rule ccontr)
    assume "\<not> ?thesis"
    then obtain b c' where "b \<in> set (h c)" "c' \<in> set cs" "b \<in> set (h c')" by blast
    with Cons.prems assms(3) [of b c] assms(3) [of b c'] show False by auto
  qed
  with Cons assms(2) show ?case by simp
qed simp

section \<open>Properties\<close>

definition sample_raw :: "rstring raw_config" where
  "sample_raw = \<lparr>raw_connectors = Some (Mapping [(lit ''spanmetrics'', [])]),
     raw_service = Some \<lparr>raw_pipelines =
       [(lit ''metrics'', \<lparr>raw_receivers = [lit ''otlp'', lit ''spanmetrics''], raw_processors = [],
           raw_exporters = [lit ''otlphttp'']\<rparr>),
        (lit ''traces'', \<lparr>raw_receivers = [lit ''otlp''], raw_processors = [lit ''batch''],
           raw_exporters = [lit ''otlphttp'', lit ''spanmetrics'']\<rparr>)]\<rparr>\<rparr>"

definition sample_yaml :: "rstring yaml" where
  "sample_yaml = \<lparr>from_str = (\<lambda>_. Inr sample_raw), as_str = Some\<rparr>"

definition sample_graph :: pipeline_graph where
  "sample_graph = \<lparr>pipelines = pipelines_of sample_raw, connectors = [lit ''spanmetrics'']\<rparr>"

lemma parse_sample: "parse sample_yaml doc = Inr sample_graph"
  by (simp add: parse_def sample_yaml_def sample_graph_def connectors_of_def sample_raw_def
      map_filter_simps btree_set_def)

lemma raw_ok_sample: "raw_ok sample_raw"
  by (simp add: raw_ok_def sample_raw_def lit_def)

text \<open>
  Parsing fails exactly when the YAML deserialiser does, with its message; otherwise the
  connectors are the string keys of the \<open>connectors\<close> mapping (none if it is anything else), each
  pipeline keeps its three lists, and both are listed once, in strictly increasing order.
\<close>

theorem parse_spec:
  assumes "\<And>raw. from_str y doc = Inr raw \<Longrightarrow> raw_ok raw"
  shows "(\<exists>e. parse y doc = Inl e \<and> from_str y doc = Inl e)
    \<or> (\<exists>g raw. parse y doc = Inr g \<and> from_str y doc = Inr raw \<and> graph_ok g
         \<and> (\<forall>c. is_connector g c \<longleftrightarrow>
              (\<exists>m k v. raw_connectors raw = Some (Mapping m) \<and> (k, v) \<in> set m \<and> as_str y k = Some c))
         \<and> (\<forall>p. p \<in> set (pipelines g) \<longleftrightarrow>
              (\<exists>s r. raw_service raw = Some s \<and> (p_name p, r) \<in> set (raw_pipelines s)
                 \<and> p = \<lparr>p_name = p_name p, receivers = raw_receivers r,
                        processors = raw_processors r, exporters = raw_exporters r\<rparr>)))"
proof (cases "from_str y doc")
  case (Inl e)
  then show ?thesis by (simp add: parse_def)
next
  case (Inr raw)
  let ?g = "\<lparr>pipelines = pipelines_of raw, connectors = connectors_of y raw\<rparr>"
  have "graph_ok ?g"
    using assms [OF Inr]
    by (auto simp: graph_ok_def connectors_of_sorted pipelines_of_names raw_ok_def split: option.splits)
  moreover have "is_connector ?g c \<longleftrightarrow>
      (\<exists>m k v. raw_connectors raw = Some (Mapping m) \<and> (k, v) \<in> set m \<and> as_str y k = Some c)" for c
    by (force simp: is_connector_def connectors_of_def btree_set List.map_filter_def
        split: option.split yaml_value.split)
  moreover have "p \<in> set (pipelines ?g) \<longleftrightarrow>
      (\<exists>s r. raw_service raw = Some s \<and> (p_name p, r) \<in> set (raw_pipelines s)
         \<and> p = \<lparr>p_name = p_name p, receivers = raw_receivers r,
                processors = raw_processors r, exporters = raw_exporters r\<rparr>)" for p
    by (force simp: pipelines_of_def split: option.split)
  ultimately show ?thesis
    using Inr by (simp add: parse_def)
qed

lemma parse_spec_witness:
  "graph_ok sample_graph \<and> is_connector sample_graph (lit ''spanmetrics'')"
  using parse_spec [of sample_yaml "[]"] raw_ok_sample parse_sample [of "[]"]
  by (auto simp: sample_yaml_def is_connector_def sample_graph_def)

text \<open>
  C34: the bridges of a parsed graph are exactly the triples of a declared connector, a pipeline
  that exports to it and a pipeline that receives from it, each listed once.
\<close>

theorem bridges_spec:
  assumes "graph_ok g"
  shows "distinct (bridges g)
    \<and> ((c, f, t) \<in> set (bridges g) \<longleftrightarrow> is_connector g c
         \<and> (\<exists>p \<in> set (pipelines g). p_name p = f \<and> c \<in> set (exporters p))
         \<and> (\<exists>q \<in> set (pipelines g). p_name q = t \<and> c \<in> set (receivers q)))"
proof
  show "distinct (bridges g)"
    unfolding bridges_def
    by (rule distinct_concat_tagged)
      (use assms graph_ok_distinct in \<open>auto simp: distinct_bridges_of mem_bridges_of\<close>)
qed (auto simp: bridges_def mem_bridges_of is_connector_def)

lemma bridges_spec_witness:
  "(lit ''spanmetrics'', lit ''traces'', lit ''metrics'') \<in> set (bridges sample_graph)"
proof -
  have "graph_ok sample_graph"
    using raw_ok_sample
    by (simp add: graph_ok_def sample_graph_def pipelines_of_names raw_ok_def sample_raw_def)
  then show ?thesis
    using bridges_spec [of sample_graph "lit ''spanmetrics''" "lit ''traces''" "lit ''metrics''"]
    by (simp add: is_connector_def sample_graph_def pipelines_of_def sample_raw_def)
qed

text \<open>
  Nothing keeps the topology acyclic: a pipeline that both exports to and receives from a
  declared connector is bridged to itself.
\<close>

theorem self_bridge:
  assumes "is_connector g c" "p \<in> set (pipelines g)" "c \<in> set (exporters p)" "c \<in> set (receivers p)"
  shows "(c, p_name p, p_name p) \<in> set (bridges g)"
  using assms by (auto simp: bridges_def mem_bridges_of is_connector_def)

lemma self_bridge_witness:
  "([99], [112], [112]) \<in> set (bridges \<lparr>pipelines =
     [\<lparr>p_name = [112], receivers = [[99]], processors = [], exporters = [[99]]\<rparr>], connectors = [[99]]\<rparr>)"
  using self_bridge [of "\<lparr>pipelines = [\<lparr>p_name = [112], receivers = [[99]], processors = [],
      exporters = [[99]]\<rparr>], connectors = [[99]]\<rparr>" "[99]"
      "\<lparr>p_name = [112], receivers = [[99]], processors = [], exporters = [[99]]\<rparr>"]
  by (simp add: is_connector_def)

end
