(* ===== verification/Startup.thy ===== *)
theory Startup
  imports Control
begin

text \<open>
  What \<open>crates/otelc-tui/src/main.rs\<close> decides before the event loop: the command line
  (\<open>cli.rs\<close>), the optional configuration file (\<open>config.rs\<close>), and which control plane is started
  with which addresses. The file's YAML deserialiser and the address parser are parameters.
\<close>

record file_config =
  fc_listen :: "rstring option"
  fc_otlp_listen :: "rstring option"
  fc_external_url :: "rstring option"

definition file_config_default :: file_config where
  "file_config_default = \<lparr>fc_listen = None, fc_otlp_listen = None, fc_external_url = None\<rparr>"

datatype mode = EmbeddedMode | ExternalMode

record cli =
  cli_mode :: mode
  cli_listen :: "rstring option"
  cli_otlp_listen :: "rstring option"
  cli_external_url :: "rstring option"
  cli_config :: "rstring option"
  cli_log_file :: rstring

definition resolve :: "rstring option \<Rightarrow> rstring option \<Rightarrow> rstring \<Rightarrow> rstring" where
  "resolve cli file dflt =
     (case (case cli of Some v \<Rightarrow> Some v | None \<Rightarrow> file) of Some v \<Rightarrow> v | None \<Rightarrow> dflt)"

text \<open>Reading the file may fail, and so may deserialising it.\<close>

definition load_config ::
    "(rstring \<Rightarrow> (rstring, rstring) result) \<Rightarrow> (rstring \<Rightarrow> (rstring, file_config) result) \<Rightarrow>
     rstring \<Rightarrow> (rstring, file_config) result" where
  "load_config read_file from_yaml path =
     (case read_file path of Inl e \<Rightarrow> Inl e | Inr text \<Rightarrow> from_yaml text)"

text \<open>The log file is created before anything else; what is written to it is not modelled.\<close>

definition init_logging :: "(rstring \<Rightarrow> (rstring, unit) result) \<Rightarrow> rstring \<Rightarrow> (rstring, unit) result" where
  "init_logging create path = (case create path of Inl e \<Rightarrow> Inl e | Inr _ \<Rightarrow> Inr ())"

text \<open>What \<open>main\<close> starts: the embedded control plane on two addresses, or the external one.\<close>

datatype 'addr start = StartEmbedded 'addr 'addr | StartExternal rstring

definition main_start ::
    "(rstring \<Rightarrow> (rstring, unit) result) \<Rightarrow>
     (rstring \<Rightarrow> (rstring, rstring) result) \<Rightarrow> (rstring \<Rightarrow> (rstring, file_config) result) \<Rightarrow>
     (rstring \<Rightarrow> (rstring, 'addr) result) \<Rightarrow> cli \<Rightarrow> (rstring, 'addr start) result" where
  "main_start create read_file from_yaml parse_addr cli =
     (case init_logging create (cli_log_file cli) of
        Inl e \<Rightarrow> Inl e
      | Inr _ \<Rightarrow>
     (case (case cli_config cli of
              Some path \<Rightarrow> load_config read_file from_yaml path
            | None \<Rightarrow> Inr file_config_default) of
        Inl e \<Rightarrow> Inl e
      | Inr file_cfg \<Rightarrow>
          (case cli_mode cli of
             EmbeddedMode \<Rightarrow>
               (let listen = resolve (cli_listen cli) (fc_listen file_cfg) (lit ''127.0.0.1:4320'');
                    otlp = resolve (cli_otlp_listen cli) (fc_otlp_listen file_cfg) (lit ''127.0.0.1:4317'')
                in case parse_addr listen of
                     Inl e \<Rightarrow> Inl e
                   | Inr a \<Rightarrow> (case parse_addr otlp of Inl e \<Rightarrow> Inl e | Inr b \<Rightarrow> Inr (StartEmbedded a b)))
           | ExternalMode \<Rightarrow>
               Inr (StartExternal (resolve (cli_external_url cli) (fc_external_url file_cfg)
                      (lit ''http://127.0.0.1:8080''))))))"

text \<open>
  A flag on the command line decides over the configuration file, and the file over the default;
  a log file that cannot be created stops the start-up, and so does a configuration file that
  cannot be loaded, even when every setting is given on the command line; the external mode never
  parses an address.
\<close>

lemma resolve_priority:
  "resolve (Some v) file dflt = v" "resolve None (Some v) dflt = v" "resolve None None dflt = dflt"
  by (simp_all add: resolve_def)

lemma main_start_log_error:
  "create (cli_log_file cli) = Inl e \<Longrightarrow> main_start create rd fy pa cli = Inl e"
  by (simp add: main_start_def init_logging_def)

lemma main_start_config_error:
  "create (cli_log_file cli) = Inr () \<Longrightarrow> cli_config cli = Some path \<Longrightarrow> load_config rd fy path = Inl e \<Longrightarrow>
   main_start create rd fy pa cli = Inl e"
  by (simp add: main_start_def init_logging_def)

lemma main_start_external:
  "create (cli_log_file cli) = Inr () \<Longrightarrow> cli_config cli = None \<Longrightarrow> cli_mode cli = ExternalMode \<Longrightarrow>
   main_start create rd fy pa cli =
     Inr (StartExternal (resolve (cli_external_url cli) None (lit ''http://127.0.0.1:8080'')))"
  by (simp add: main_start_def init_logging_def file_config_default_def)

end
