(* ===== verification/Theme.thy ===== *)
theory Theme
  imports Rust_String
begin

text \<open>
  The palette of \<open>crates/otelc-tui/src/theme.rs\<close>, and the data the renderers hand to the
  \<open>ratatui\<close> crate: styles, spans, lines, rectangles, blocks and paragraphs. A renderer is a function
  to the list of calls it makes on the frame, in their order; what the crate paints for a call is
  outside the model. The layout solver and the inner area of a block are the parameter \<open>layout\<close>.
\<close>

section \<open>Styles\<close>

datatype color = Black | Red | Green | Yellow | LightYellow | Magenta | Cyan | Gray | White
  | Rgb byte byte byte

record style =
  fg :: "color option"
  bg :: "color option"
  bold :: bool

definition style_default :: style where
  "style_default = \<lparr>fg = None, bg = None, bold = False\<rparr>"

definition style_fg :: "color \<Rightarrow> style" where
  "style_fg c = style_default\<lparr>fg := Some c\<rparr>"

definition theme_BG :: color where "theme_BG = Rgb 0 10 60"
definition theme_FG :: color where "theme_FG = White"
definition theme_DIM :: color where "theme_DIM = Gray"
definition theme_ACCENT :: color where "theme_ACCENT = Yellow"
definition theme_BORDER :: color where "theme_BORDER = Yellow"
definition theme_BORDER_ACTIVE :: color where "theme_BORDER_ACTIVE = LightYellow"
definition theme_BAR_BG :: color where "theme_BAR_BG = Rgb 245 168 0"
definition theme_BAR_FG :: color where "theme_BAR_FG = Black"
definition theme_SEL_BG :: color where "theme_SEL_BG = Cyan"
definition theme_SEL_FG :: color where "theme_SEL_FG = Black"
definition theme_OK :: color where "theme_OK = Green"
definition theme_WARN :: color where "theme_WARN = Yellow"
definition theme_ERR :: color where "theme_ERR = Red"
definition theme_NODE_RECEIVER :: color where "theme_NODE_RECEIVER = Green"
definition theme_NODE_PROCESSOR :: color where "theme_NODE_PROCESSOR = Cyan"
definition theme_NODE_EXPORTER :: color where "theme_NODE_EXPORTER = Magenta"
definition theme_NODE_CONNECTOR :: color where "theme_NODE_CONNECTOR = Yellow"

definition theme_base :: style where
  "theme_base = style_default\<lparr>bg := Some theme_BG, fg := Some theme_FG\<rparr>"

definition theme_text :: style where
  "theme_text = style_fg theme_FG"

definition theme_dim :: style where
  "theme_dim = style_fg theme_DIM"

definition theme_accent :: style where
  "theme_accent = (style_fg theme_ACCENT)\<lparr>bold := True\<rparr>"

definition theme_bar :: style where
  "theme_bar = style_default\<lparr>bg := Some theme_BAR_BG, fg := Some theme_BAR_FG\<rparr>"

definition theme_fnkey :: style where
  "theme_fnkey = style_default\<lparr>bg := Some theme_BAR_FG, fg := Some theme_BAR_BG, bold := True\<rparr>"

definition theme_selection :: style where
  "theme_selection = style_default\<lparr>bg := Some theme_SEL_BG, fg := Some theme_SEL_FG, bold := True\<rparr>"

definition theme_border :: "bool \<Rightarrow> style" where
  "theme_border act = style_fg (if act then theme_BORDER_ACTIVE else theme_BORDER)"

definition theme_title :: "bool \<Rightarrow> style" where
  "theme_title act =
     (if act then style_default\<lparr>bg := Some theme_BAR_BG, fg := Some theme_BAR_FG, bold := True\<rparr>
      else (style_fg theme_BORDER)\<lparr>bold := True\<rparr>)"

definition theme_health :: "bool \<Rightarrow> color" where
  "theme_health healthy = (if healthy then theme_OK else theme_ERR)"

lemmas theme_colors = theme_BG_def theme_FG_def theme_DIM_def theme_ACCENT_def theme_BORDER_def
  theme_BORDER_ACTIVE_def theme_BAR_BG_def theme_BAR_FG_def theme_SEL_BG_def theme_SEL_FG_def
  theme_OK_def theme_WARN_def theme_ERR_def theme_NODE_RECEIVER_def theme_NODE_PROCESSOR_def
  theme_NODE_EXPORTER_def theme_NODE_CONNECTOR_def

lemmas theme_styles = style_default_def style_fg_def theme_base_def theme_text_def theme_dim_def
  theme_accent_def theme_bar_def theme_fnkey_def theme_selection_def theme_border_def
  theme_title_def theme_health_def

text \<open>The selection is told apart from every other style the fleet view uses.\<close>

lemma selection_distinct:
  "theme_selection \<noteq> theme_text" "theme_selection \<noteq> theme_dim" "theme_selection \<noteq> theme_accent"
  "theme_selection \<noteq> style_fg c"
  by (simp_all add: theme_styles)

section \<open>Text and widgets\<close>

record span =
  content :: rstring
  span_style :: style

type_synonym line = "span list"

definition styled :: "rstring \<Rightarrow> style \<Rightarrow> span" where
  "styled s st = \<lparr>content = s, span_style = st\<rparr>"

definition raw :: "rstring \<Rightarrow> span" where
  "raw s = styled s style_default"

definition line_text :: "line \<Rightarrow> rstring" where
  "line_text l = concat (map content l)"

lemma line_text_simps [simp]:
  "line_text [] = []" "line_text (s # l) = content s @ line_text l"
  "content (styled t st) = t" "span_style (styled t st) = st"
  "content (raw t) = t" "span_style (raw t) = style_default"
  by (simp_all add: line_text_def styled_def raw_def)

record rect =
  rx :: u16
  ry :: u16
  width :: u16
  height :: u16

datatype border = DoubleBorder style | NoBorder

record block =
  bl_border :: border
  bl_title :: "line option"
  bl_style :: "style option"

record para =
  par_lines :: "line list"
  par_scroll :: u16
  par_style :: "style option"
  par_wrap :: "bool option"  \<comment> \<open>\<open>Wrap { trim }\<close>\<close>

definition paragraph_new :: "line list \<Rightarrow> para" where
  "paragraph_new ls = \<lparr>par_lines = ls, par_scroll = 0, par_style = None, par_wrap = None\<rparr>"

text \<open>The calls on the frame.\<close>

datatype draw =
    DrawBlock block rect
  | DrawParagraph para rect
  | Clear rect
  | SetCursor u16 u16

text \<open>The constraints the renderers give to the layout solver.\<close>

datatype constraint = Fixed u16 | AtLeast u16 | Percentage u16

record layout =
  block_inner :: "block \<Rightarrow> rect \<Rightarrow> rect"
  split_vertical :: "constraint list \<Rightarrow> rect \<Rightarrow> rect list"
  split_horizontal :: "constraint list \<Rightarrow> rect \<Rightarrow> rect list"

text \<open>What the array returned by \<open>areas\<close> is relied on for: one area for each constraint.\<close>

definition layout_ok :: "layout \<Rightarrow> bool" where
  "layout_ok lay \<longleftrightarrow>
     (\<forall>cs r. length (split_vertical lay cs r) = length cs \<and> length (split_horizontal lay cs r) = length cs)"

section \<open>Formatting\<close>

text \<open>The padding of \<open>format!\<close> (\<open>{:<w}\<close>, \<open>{:>w}\<close>, \<open>{:0w}\<close>) counts characters and never cuts.\<close>

definition pad_left_aligned :: "nat \<Rightarrow> rstring \<Rightarrow> rstring" where
  "pad_left_aligned w s = s @ replicate (w - length s) 32"

definition pad_right_aligned :: "nat \<Rightarrow> rstring \<Rightarrow> rstring" where
  "pad_right_aligned w s = replicate (w - length s) 32 @ s"

definition pad_zeros :: "nat \<Rightarrow> rstring \<Rightarrow> rstring" where
  "pad_zeros w s = replicate (w - length s) 48 @ s"

lemma length_pads [simp]:
  "length (pad_left_aligned w s) = max w (length s)"
  "length (pad_right_aligned w s) = max w (length s)"
  "length (pad_zeros w s) = max w (length s)"
  by (simp_all add: pad_left_aligned_def pad_right_aligned_def pad_zeros_def)

text \<open>\<open>str::lines\<close>: pieces between newlines, each without a final carriage return; an empty last
  piece is dropped.\<close>

definition strip_cr :: "rstring \<Rightarrow> rstring" where
  "strip_cr s = (if s \<noteq> [] \<and> last s = 13 then butlast s else s)"

definition str_lines :: "rstring \<Rightarrow> rstring list" where
  "str_lines s =
     (let ps = split_char 10 s
      in map strip_cr (butlast ps) @ (if last ps = [] then [] else [last ps]))"

lemma strip_cr_id [simp]: "13 \<notin> set s \<Longrightarrow> strip_cr s = s"
  using last_in_set by (fastforce simp: strip_cr_def)

lemma join_snoc: "join sep (ls @ [l]) = (if ls = [] then l else join sep ls @ sep @ l)"
proof (induction ls)
  case (Cons a ls)
  then show ?case by (cases "ls = []") (simp_all add: join_Cons_ne)
qed simp

text \<open>
  Nothing is lost: without carriage returns, the lines joined by newlines are the text, less its
  final newline if it has one.
\<close>

lemma join_str_lines:
  assumes "13 \<notin> set s"
  shows "join [10] (str_lines s) = (if s \<noteq> [] \<and> last s = 10 then butlast s else s)"
proof -
  let ?ps = "split_char 10 s"
  have clean: "strip_cr l = l" if "l \<in> set ?ps" for l
    using split_char_chars [OF that] assms by (intro strip_cr_id) auto
  then have strip: "map strip_cr (butlast ?ps) = butlast ?ps"
    by (intro map_idI) (auto dest: in_set_butlastD)
  have ps: "?ps = butlast ?ps @ [last ?ps]" by simp
  show ?thesis
  proof (cases "last ?ps = []")
    case False
    then have "str_lines s = ?ps" by (simp add: str_lines_def Let_def strip)
    moreover have "last s \<noteq> 10"
    proof -
      have "10 \<notin> set (last ?ps)" by (rule split_char_no_sep [OF last_in_set]) simp
      moreover have "last s = last (last ?ps)"
        using join_snoc [of "[10]" "butlast ?ps" "last ?ps"] False
        by (simp add: join_split_char split: if_splits) (metis last_ConsR last_appendR list.distinct(1))
      ultimately show ?thesis using last_in_set [OF False] by metis
    qed
    ultimately show ?thesis by (auto simp: join_split_char)
  next
    case True
    then have lines: "str_lines s = butlast ?ps" by (simp add: str_lines_def Let_def strip)
    show ?thesis
    proof (cases "butlast ?ps = []")
      case True
      with \<open>last ?ps = []\<close> ps have "?ps = [[]]" by (metis append_Nil)
      then have "s = []" using join_split_char [of 10 s] by simp
      then show ?thesis by (simp add: str_lines_def)
    next
      case False
      have "s = join [10] (butlast ?ps @ [[]])"
        using join_split_char [of 10 s] ps \<open>last ?ps = []\<close> by metis
      also have "\<dots> = join [10] (butlast ?ps) @ [10]" using False by (simp add: join_snoc)
      finally show ?thesis using lines by (metis append_is_Nil_conv butlast_snoc last_snoc)
    qed
  qed
qed

end
