(* ===== verification/View_Text.thy ===== *)
theory View_Text
  imports F64 Theme
begin

text \<open>
  The text helpers at the end of \<open>crates/otelc-tui/src/views.rs\<close>: \<open>truncate\<close>, \<open>pad\<close> (the same
  function in \<open>ui.rs\<close>), \<open>fmt_num\<close>, \<open>ago\<close>, \<open>uptime\<close>, \<open>fmt_time\<close>.
  \<open>fmt_num\<close> compares, divides and prints doubles. A finite double is read as an exact fraction of
  integers; a comparison is exact, the division rounds to the nearest double with ties to even, and
  printing with a fixed number of decimals rounds the exact value the same way. Clock readings are
  arguments: nanoseconds of a monotonic clock, and nanoseconds since the epoch (\<open>None\<close> when the
  system clock stands before it).
\<close>

section \<open>Widths\<close>

definition truncate_text :: "rstring \<Rightarrow> nat \<Rightarrow> rstring" where
  "truncate_text s m = (if length s \<le> m then s else take (m - 1) s @ [8230])"

definition pad :: "rstring \<Rightarrow> nat \<Rightarrow> rstring" where
  "pad s w = (if length s < w then s @ replicate (w - length s) 32 else s)"

lemma length_pad [simp]: "length (pad s w) = max w (length s)"
  by (auto simp: pad_def)

lemma length_truncate: "0 < m \<Longrightarrow> length (truncate_text s m) = min m (length s)"
  by (auto simp: truncate_text_def)

lemma pad_left_aligned_pad: "pad_left_aligned w s = pad s w"
  by (simp add: pad_left_aligned_def pad_def)

section \<open>Numbers\<close>

text \<open>The nearest integer to a fraction of non-negative integers, ties to even.\<close>

definition round_ratio :: "int \<Rightarrow> int \<Rightarrow> int" where
  "round_ratio n d =
     (let q = n div d; r = n mod d
      in if d < 2 * r \<or> (2 * r = d \<and> odd q) then q + 1 else q)"

text \<open>The magnitude of a finite double as a fraction.\<close>

definition f64_frac :: "f64 \<Rightarrow> int \<times> int" where
  "f64_frac w =
     (let e = f64_exp w; m = f64_mant w
      in if e = 0 then (m, 2 ^ 1074)
         else if 1075 \<le> e then ((2 ^ 52 + m) * 2 ^ (e - 1075), 1)
         else (2 ^ 52 + m, 2 ^ (1075 - e)))"

text \<open>A quotient not below 1, rounded to the 53 significant bits of a double.\<close>

definition f64_div :: "int \<times> int \<Rightarrow> int \<Rightarrow> int \<times> int" where
  "f64_div x c =
     (let (n, d) = x; k = bit_len (n div (d * c)) - 1
      in if k \<le> 52 then (round_ratio (n * 2 ^ (52 - k)) (d * c), 2 ^ (52 - k))
         else (round_ratio n (d * c * 2 ^ (k - 52)) * 2 ^ (k - 52), 1))"

definition fixed_decimals :: "nat \<Rightarrow> int \<times> int \<Rightarrow> rstring" where
  "fixed_decimals p x =
     (let (n, d) = x; r = round_ratio (n * 10 ^ p) d
      in nat_to_string (nat (r div 10 ^ p))
           @ (if p = 0 then [] else 46 # pad_zeros p (nat_to_string (nat (r mod 10 ^ p)))))"

text \<open>The double written \<open>0.01\<close> is $5764607523034235 / 2^{59}$.\<close>

definition fmt_num :: "f64 \<Rightarrow> rstring" where
  "fmt_num v =
     (let sign = (if f64_neg v then [45] else []) in
      if f64_exp v = 2047 then (if f64_mant v = 0 then sign @ lit ''infG'' else lit ''NaN'')
      else
        (let (n, d) = f64_frac v in
         if 10 ^ 9 * d \<le> n then sign @ fixed_decimals 2 (f64_div (n, d) (10 ^ 9)) @ lit ''G''
         else if 10 ^ 6 * d \<le> n then sign @ fixed_decimals 2 (f64_div (n, d) (10 ^ 6)) @ lit ''M''
         else if 10 ^ 3 * d \<le> n then sign @ fixed_decimals 1 (f64_div (n, d) (10 ^ 3)) @ lit ''k''
         else if n mod d * 2 ^ 59 < 5764607523034235 * d then sign @ fixed_decimals 0 (n, d)
         else sign @ fixed_decimals 2 (n, d)))"

section \<open>Times\<close>

definition ago :: "nat \<Rightarrow> nat \<Rightarrow> rstring" where
  "ago now instant =
     (let secs = (now - instant) div 1000000000 in
      if secs < 60 then nat_to_string secs @ lit ''s''
      else if secs < 3600 then nat_to_string (secs div 60) @ lit ''m''
      else nat_to_string (secs div 3600) @ lit ''h'')"

text \<open>\<open>as_nanos() as u64\<close> keeps the low 64 bits; the subtraction saturates.\<close>

definition uptime :: "nat option \<Rightarrow> u64 \<Rightarrow> rstring" where
  "uptime clock start =
     (if start = 0 then lit ''unknown''
      else
        (let now = unat (case clock of Some ns \<Rightarrow> (of_nat ns :: u64) | None \<Rightarrow> 0);
             secs = (now - unat start) div 1000000000 in
         if secs < 60 then nat_to_string secs @ lit ''s''
         else if secs < 3600 then
           nat_to_string (secs div 60) @ lit ''m '' @ nat_to_string (secs mod 60) @ lit ''s''
         else
           nat_to_string (secs div 3600) @ lit ''h '' @ nat_to_string (secs mod 3600 div 60) @ lit ''m''))"

definition two_digits :: "nat \<Rightarrow> rstring" where
  "two_digits n = pad_zeros 2 (nat_to_string n)"

definition fmt_time :: "u64 \<Rightarrow> rstring" where
  "fmt_time unix_nano =
     (let secs = unat unix_nano div 1000000000; tod = secs mod 86400
      in two_digits (tod div 3600) @ [58] @ two_digits (tod mod 3600 div 60) @ [58]
           @ two_digits (tod mod 60))"

section \<open>Properties\<close>

lemma round_ratio_exact: "0 < d \<Longrightarrow> round_ratio (m * d) d = m"
  by (simp add: round_ratio_def)

lemma f64_frac_of_int:
  assumes "\<bar>i\<bar> < 2 ^ 53" "i \<noteq> 0"
  shows "\<exists>d > 0. f64_frac (f64_of_int i) = (\<bar>i\<bar> * d, d)"
proof -
  obtain e where e: "e \<le> 52" "f64_neg (f64_of_int i) = (i < 0)" "f64_exp (f64_of_int i) = e + 1023"
    "f64_mant (f64_of_int i) = \<bar>i\<bar> * 2 ^ (52 - e) - 2 ^ 52" "(2::int) ^ e * 2 ^ (52 - e) = 2 ^ 52"
    using f64_of_int_fields [OF assms] .
  show ?thesis
  proof (cases "e = 52")
    case True
    with e show ?thesis by (intro exI [of _ 1]) (simp add: f64_frac_def)
  next
    case False
    with e have "1075 - (e + 1023) = 52 - e" "\<not> 1075 \<le> e + 1023" by simp_all
    with e show ?thesis by (intro exI [of _ "2 ^ (52 - e)"]) (simp add: f64_frac_def)
  qed
qed

text \<open>A whole value below a thousand is shown as that number.\<close>

lemma fmt_num_small_int:
  assumes "\<bar>i\<bar> < 1000"
  shows "fmt_num (f64_of_int i) = int_to_string i"
proof (cases "i = 0")
  case True
  have "fmt_num 0 = [48]"
    by (simp add: fmt_num_def f64_neg_def f64_exp_def f64_mant_def f64_frac_def fixed_decimals_def
        round_ratio_def nat_to_string.simps)
  with True show ?thesis by (simp add: f64_of_int_def int_to_string_def nat_to_string.simps)
next
  case False
  have i: "\<bar>i\<bar> < 2 ^ 53" using assms by simp
  obtain e where e: "e \<le> 52" "f64_neg (f64_of_int i) = (i < 0)" "f64_exp (f64_of_int i) = e + 1023"
    "f64_mant (f64_of_int i) = \<bar>i\<bar> * 2 ^ (52 - e) - 2 ^ 52" "(2::int) ^ e * 2 ^ (52 - e) = 2 ^ 52"
    using f64_of_int_fields [OF i False] .
  obtain d where d: "d > 0" "f64_frac (f64_of_int i) = (\<bar>i\<bar> * d, d)"
    using f64_frac_of_int [OF i False] by blast
  have "\<not> c * d \<le> \<bar>i\<bar> * d" if "1000 \<le> c" for c
    using d(1) assms that by (simp add: not_le)
  then have small: "\<not> 10 ^ 9 * d \<le> \<bar>i\<bar> * d" "\<not> 10 ^ 6 * d \<le> \<bar>i\<bar> * d" "\<not> 10 ^ 3 * d \<le> \<bar>i\<bar> * d"
    by simp_all
  have fixed: "fixed_decimals 0 (\<bar>i\<bar> * d, d) = nat_to_string (nat \<bar>i\<bar>)"
    using d(1) by (simp add: fixed_decimals_def round_ratio_exact)
  have "fmt_num (f64_of_int i) = (if i < 0 then [45] else []) @ nat_to_string (nat \<bar>i\<bar>)"
    unfolding fmt_num_def Let_def d(2) prod.case
    using small fixed e(1,2,3) d(1) by (simp only: if_False) simp
  then show ?thesis by (simp add: int_to_string_def)
qed

text \<open>Reading decimal digits back.\<close>

definition read_digits :: "rstring \<Rightarrow> nat" where
  "read_digits s = foldl (\<lambda>n c. 10 * n + (c - 48)) 0 s"

lemma read_nat_to_string: "read_digits (nat_to_string n) = n"
proof (induction n rule: nat_to_string.induct)
  case (1 n)
  then show ?case by (subst nat_to_string.simps) (simp add: read_digits_def)
qed

lemma two_digits:
  assumes "n < 100"
  shows "length (two_digits n) = 2" "read_digits (two_digits n) = n"
proof -
  have len: "length (nat_to_string n) = (if n < 10 then 1 else 2)"
    using assms by (simp add: nat_to_string.simps [of n] nat_to_string.simps [of "n div 10"])
  then show "length (two_digits n) = 2" by (simp add: two_digits_def)
  show "read_digits (two_digits n) = n"
    using len read_nat_to_string [of n]
    by (cases "n < 10") (simp_all add: two_digits_def pad_zeros_def read_digits_def)
qed

text \<open>A time of day is shown in eight characters from which its seconds can be read back.\<close>

lemma fmt_time_reads_back:
  "length (fmt_time t) = 8
    \<and> read_digits (take 2 (fmt_time t)) * 3600 + read_digits (take 2 (drop 3 (fmt_time t))) * 60
        + read_digits (drop 6 (fmt_time t)) = unat t div 1000000000 mod 86400"
proof -
  define tod where "tod = unat t div 1000000000 mod 86400"
  have t: "fmt_time t = two_digits (tod div 3600) @ [58] @ two_digits (tod mod 3600 div 60) @ [58]
      @ two_digits (tod mod 60)"
    by (simp add: fmt_time_def tod_def Let_def)
  have "tod < 86400" by (simp add: tod_def)
  then have b: "tod div 3600 < 100" "tod mod 3600 div 60 < 100" "tod mod 60 < 100"
    by (simp_all add: less_mult_imp_div_less)
  have "tod mod 60 = tod mod 3600 mod 60"
    by (simp add: mod_mod_cancel)
  then have "tod div 3600 * 3600 + tod mod 3600 div 60 * 60 + tod mod 60 = tod"
    by (metis add.assoc div_mult_mod_eq)
  moreover note two_digits [OF b(1)] two_digits [OF b(2)] two_digits [OF b(3)]
  ultimately show ?thesis
    unfolding tod_def [symmetric] t by simp
qed

end
