(* ===== verification/Views.thy ===== *)
theory Views
  imports App Pipeline View_Text
begin

text \<open>
  The renderers of the six view modes, \<open>crates/otelc-tui/src/views.rs\<close>: for each view the lines
  it shows, and \<open>render_panel\<close>, which draws a panel's frame, title and view.
\<close>

section \<open>What a frame is rendered from, besides the application\<close>

text \<open>
  The third-party functions and the clock readings of one frame: \<open>rd_now s i\<close> is the \<open>i\<close>-th
  reading of the monotonic clock while panel \<open>s\<close> is drawn, \<open>rd_clock s\<close> that of the system clock.
\<close>

record 'v renv =
  rd_lower :: "rstring \<Rightarrow> rstring"
  rd_yaml :: "'v yaml"
  rd_layout :: layout
  rd_now :: "side \<Rightarrow> nat \<Rightarrow> instant"
  rd_clock :: "side \<Rightarrow> nat option"

definition render_placeholder :: "rect \<Rightarrow> rstring \<Rightarrow> draw list" where
  "render_placeholder area msg =
     [DrawParagraph ((paragraph_new [[styled msg theme_dim]])\<lparr>par_wrap := Some True\<rparr>) area]"

text \<open>\<open>Paragraph::new(Text::from(lines)).scroll((panel.scroll, 0))\<close>\<close>

definition render_scrolled :: "rect \<Rightarrow> panel \<Rightarrow> line list \<Rightarrow> draw list" where
  "render_scrolled area p ls = [DrawParagraph ((paragraph_new ls)\<lparr>par_scroll := scroll p\<rparr>) area]"

section \<open>Fleet\<close>

definition status_text :: "agent_detail \<Rightarrow> rstring" where
  "status_text a =
     (if ad_status a \<noteq> [] then ad_status a
      else if ad_healthy a then lit ''Healthy'' else lit ''Unhealthy'')"

definition fleet_row :: "instant \<Rightarrow> agent_detail \<Rightarrow> rstring" where
  "fleet_row now a =
     lit ''   '' @ (if ad_healthy a then lit ''up '' else lit ''DOWN'') @ lit ''  ''
       @ pad_left_aligned 18 (truncate_text (ad_name a) 18) @ lit '' ''
       @ pad_right_aligned 7 (truncate_text (ad_version a) 7) @ lit ''  ''
       @ pad_left_aligned 12 (truncate_text (status_text a) 12) @ lit '' ''
       @ pad_right_aligned 6 (ago now (ad_last_seen a))"

definition fleet_header :: "nat \<Rightarrow> line" where
  "fleet_header w =
     [styled (pad (lit '' STATE  NAME                VERSION  STATUS        SEEN'') w) theme_accent]"

definition fleet_line :: "nat \<Rightarrow> rstring option \<Rightarrow> instant \<Rightarrow> agent_detail \<Rightarrow> line" where
  "fleet_line w sel now a =
     (if Some (ad_uid a) = sel
      then [styled (pad (fleet_row now a) w) theme_selection]
      else [styled [32, 9679] (style_fg (theme_health (ad_healthy a))),
            styled (fleet_row now a) theme_text])"

definition fleet_offset :: "nat \<Rightarrow> rstring option \<Rightarrow> agent_detail list \<Rightarrow> nat" where
  "fleet_offset area_height sel vis =
     (let h = area_height - 1;
          selected_idx = (case sel of
              None \<Rightarrow> 0
            | Some uid \<Rightarrow> (case position (\<lambda>a. ad_uid a = uid) vis of Some i \<Rightarrow> i | None \<Rightarrow> 0))
      in selected_idx - (h - 1))"

definition fleet_lines :: "'v renv \<Rightarrow> (nat \<Rightarrow> instant) \<Rightarrow> rect \<Rightarrow> 'c app \<Rightarrow> line list" where
  "fleet_lines env now area app =
     (let vis = visible (rd_lower env) app;
          w = unat (width area);
          sel = map_option ad_uid (selected_agent (rd_lower env) app);
          ls = [fleet_header w];
          ls = (if vis = [] then
                  ls @ [[styled (lit ''  (no agents connected '' @ [8212]
                    @ lit '' start the mock-agent or point a collector here)'') theme_dim]]
                else ls);
          offset = fleet_offset (unat (height area)) sel vis
      in ls @ map (\<lambda>(i, a). fleet_line w sel (now i) a) (enumerate 0 (drop offset vis)))"

definition render_fleet :: "'v renv \<Rightarrow> (nat \<Rightarrow> instant) \<Rightarrow> rect \<Rightarrow> 'c app \<Rightarrow> draw list" where
  "render_fleet env now area app = [DrawParagraph (paragraph_new (fleet_lines env now area app)) area]"

section \<open>Config\<close>

definition config_lines :: "'v renv \<Rightarrow> 'c app \<Rightarrow> line list" where
  "config_lines env app =
     (let txt = (case selected_agent (rd_lower env) app of
            Some a \<Rightarrow> (if ad_effective_config a \<noteq> [] then ad_effective_config a
                       else lit ''(agent has not reported an effective config yet)'')
          | None \<Rightarrow> lit ''(no agent selected)'')
      in map (\<lambda>l. [styled l theme_text]) (str_lines txt))"

definition render_config :: "'v renv \<Rightarrow> rect \<Rightarrow> 'c app \<Rightarrow> panel \<Rightarrow> draw list" where
  "render_config env area app p = render_scrolled area p (config_lines env app)"

section \<open>Pipeline\<close>

text \<open>\<open>iter().enumerate()\<close> with a separator in front of every name but the first.\<close>

definition node_span :: "pipeline_graph \<Rightarrow> color \<Rightarrow> rstring \<Rightarrow> span" where
  "node_span graph c name =
     (if is_connector graph name then styled (name @ [8644]) (style_fg theme_NODE_CONNECTOR)
      else styled name (style_fg c))"

definition node_spans :: "rstring list \<Rightarrow> pipeline_graph \<Rightarrow> color \<Rightarrow> span list" where
  "node_spans names graph c =
     concat (map (\<lambda>(i, name).
         (if 0 < i then [styled [32, 183, 32] theme_dim] else []) @ [node_span graph c name])
       (enumerate 0 names))"

definition flow_arrow :: span where
  "flow_arrow = styled [32, 32, 9472, 9472, 9654, 32, 32] theme_dim"

definition pipeline_flow :: "pipeline_graph \<Rightarrow> pipeline \<Rightarrow> line" where
  "pipeline_flow graph pl =
     [raw (lit ''   '')] @ node_spans (receivers pl) graph theme_NODE_RECEIVER @ [flow_arrow]
       @ (if processors pl = [] then [styled (lit ''(none)'') theme_dim]
          else node_spans (processors pl) graph theme_NODE_PROCESSOR)
       @ [flow_arrow] @ node_spans (exporters pl) graph theme_NODE_EXPORTER"

definition pipeline_legend :: line where
  "pipeline_legend =
     [styled (lit ''receivers'') (style_fg theme_NODE_RECEIVER), raw (lit ''  ''),
      styled (lit ''processors'') (style_fg theme_NODE_PROCESSOR), raw (lit ''  ''),
      styled (lit ''exporters'') (style_fg theme_NODE_EXPORTER), raw (lit ''  ''),
      styled (lit ''connectors '' @ [8644]) (style_fg theme_NODE_CONNECTOR)]"

definition bridge_line :: "bridge \<Rightarrow> line" where
  "bridge_line b =
     (let (connector, src, dst) = b
      in [raw (lit ''   ''), styled connector (style_fg theme_NODE_CONNECTOR),
          styled (lit ''  '' @ src @ [32, 9654, 32] @ dst) theme_dim])"

definition pipeline_lines :: "pipeline_graph \<Rightarrow> line list" where
  "pipeline_lines graph =
     [pipeline_legend, [raw []]]
       @ (if pipelines graph = []
          then [[styled (lit ''  (no service.pipelines found in config)'') theme_dim]] else [])
       @ concat (map (\<lambda>pl. [[styled ([9635, 32] @ p_name pl) theme_accent], pipeline_flow graph pl, [raw []]])
           (pipelines graph))
       @ (if bridges graph \<noteq> []
          then [styled (lit ''connector bridges'') theme_accent] # map bridge_line (bridges graph)
          else [])"

definition render_pipeline :: "'v renv \<Rightarrow> rect \<Rightarrow> 'c app \<Rightarrow> panel \<Rightarrow> draw list" where
  "render_pipeline env area app p =
     (case selected_agent (rd_lower env) app of
        None \<Rightarrow> render_placeholder area (lit ''(no agent selected)'')
      | Some a \<Rightarrow>
          (case parse (rd_yaml env) (ad_effective_config a) of
             Inl e \<Rightarrow> render_placeholder area (lit ''config parse error: '' @ e)
           | Inr graph \<Rightarrow> render_scrolled area p (pipeline_lines graph)))"

section \<open>Metrics and logs\<close>

definition metric_line :: "metric_row \<Rightarrow> line" where
  "metric_line m =
     [styled (lit ''  '' @ pad_left_aligned 46 (truncate_text (mr_name m) 46)) theme_text,
      styled (pad_right_aligned 14 (fmt_num (mr_value m))) theme_accent,
      styled (lit ''  '' @ mr_unit m) theme_dim]"

definition metrics_lines :: "telemetry_snapshot \<Rightarrow> line list" where
  "metrics_lines t =
     [[styled (lit '' '' @ nat_to_string (length (ts_metrics t)) @ lit '' metric series '' @ [183]
         @ lit '' '' @ nat_to_string (unat (ts_span_count t)) @ lit '' spans observed'') theme_accent],
      [raw []]]
       @ map metric_line (ts_metrics t)"

definition render_metrics :: "'v renv \<Rightarrow> rect \<Rightarrow> 'c app \<Rightarrow> panel \<Rightarrow> draw list" where
  "render_metrics env area app p =
     (case selected_telemetry (rd_lower env) app of
        None \<Rightarrow> render_placeholder area
          (lit ''(no own-telemetry received yet '' @ [8212] @ lit '' agents push metrics over OTLP)'')
      | Some t \<Rightarrow> render_scrolled area p (metrics_lines t))"

definition severity_color :: "rstring \<Rightarrow> color" where
  "severity_color severity =
     (if severity = lit ''ERROR'' \<or> severity = lit ''FATAL'' then theme_ERR
      else if severity = lit ''WARN'' then theme_WARN
      else if severity = lit ''INFO'' then theme_OK
      else theme_DIM)"

definition log_view_line :: "log_row \<Rightarrow> line" where
  "log_view_line l =
     [styled (lit '' '' @ fmt_time (lrow_time_unix_nano l) @ lit '' '') theme_dim,
      styled (pad_left_aligned 6 (truncate_text (lrow_severity l) 6))
        (style_fg (severity_color (lrow_severity l))),
      styled (lit '' '' @ lrow_body l) theme_text]"

definition render_logs :: "'v renv \<Rightarrow> rect \<Rightarrow> 'c app \<Rightarrow> panel \<Rightarrow> draw list" where
  "render_logs env area app p =
     (case selected_telemetry (rd_lower env) app of
        None \<Rightarrow> render_placeholder area
          (lit ''(no own-telemetry received yet '' @ [8212] @ lit '' agents push logs over OTLP)'')
      | Some t \<Rightarrow>
          (if ts_logs t = [] then render_placeholder area (lit ''(no log records received yet)'')
           else render_scrolled area p (map log_view_line (ts_logs t))))"

section \<open>Health\<close>

definition section_line :: "rstring \<Rightarrow> line" where
  "section_line name = [styled (lit '' '' @ name) theme_accent]"

definition kv_line :: "rstring \<Rightarrow> rstring \<Rightarrow> line" where
  "kv_line key v =
     [styled (lit ''  '' @ pad_left_aligned 22 key) theme_dim, styled v theme_text]"

definition health_line :: "nat \<Rightarrow> health_node \<Rightarrow> line" where
  "health_line depth n =
     [raw (concat (replicate (depth + 1) (lit ''  ''))),
      styled [9679] (style_fg (theme_health (hn_healthy n))),
      styled (lit '' '' @ hn_name n) theme_text]
       @ (if hn_status n \<noteq> [] then [styled (lit ''  ['' @ hn_status n @ lit '']'') theme_dim] else [])
       @ (if hn_last_error n \<noteq> [] then [styled (lit ''  '' @ hn_last_error n) (style_fg theme_ERR)] else [])"

text \<open>The recursion of the source, which appends to the vector \<open>out\<close>.\<close>

fun health_lines :: "health_node \<Rightarrow> nat \<Rightarrow> line list \<Rightarrow> line list" where
  "health_lines (HealthNode name healthy st err children) depth out =
     fold (\<lambda>child out. health_lines child (depth + 1) out) children
       (out @ [health_line depth (HealthNode name healthy st err children)])"

definition capability_line :: "rstring \<times> bool \<Rightarrow> line" where
  "capability_line c =
     (let (name, enabled) = c
      in [raw (lit ''  ''),
          styled (if enabled then lit ''[x]'' else lit ''[ ]'')
            (style_fg (if enabled then theme_OK else theme_DIM)),
          styled (lit '' '' @ name) theme_text])"

definition remote_line :: "remote_status \<Rightarrow> line" where
  "remote_line r =
     kv_line (lit ''remote config'')
       (if rs_error r = [] then rs_state r
        else rs_state r @ [32, 8212, 32] @ rs_error r)"

definition health_view_lines :: "instant \<Rightarrow> nat option \<Rightarrow> agent_detail \<Rightarrow> line list" where
  "health_view_lines now clock a =
     (let ls = [section_line (lit ''Identity'')]
            @ map (\<lambda>(k, v). kv_line k v) (ad_identifying a)
            @ map (\<lambda>(k, v). kv_line k v) (ad_non_identifying a)
            @ [kv_line (lit ''instance.uid'') (ad_uid a),
               kv_line (lit ''uptime'') (uptime clock (ad_start_time_unix_nano a)),
               kv_line (lit ''seen by otelc'') (ago now (ad_connected_at a) @ lit '' ago''),
               kv_line (lit ''sequence'') (nat_to_string (unat (ad_sequence_num a)))]
            @ (case ad_remote_status a of None \<Rightarrow> [] | Some r \<Rightarrow> [remote_line r])
            @ [[raw []], section_line (lit ''Capabilities'')]
            @ map capability_line (ad_capabilities a)
            @ [[raw []], section_line (lit ''Component health'')]
      in case ad_health a of
           Some node \<Rightarrow> health_lines node 0 ls
         | None \<Rightarrow> ls @ [[styled (lit ''  (no health reported)'') theme_dim]])"

definition render_health :: "'v renv \<Rightarrow> instant \<Rightarrow> nat option \<Rightarrow> rect \<Rightarrow> 'c app \<Rightarrow> panel \<Rightarrow> draw list" where
  "render_health env now clock area app p =
     (case selected_agent (rd_lower env) app of
        None \<Rightarrow> render_placeholder area (lit ''(no agent selected)'')
      | Some a \<Rightarrow> render_scrolled area p (health_view_lines now clock a))"

section \<open>A panel\<close>

definition panel_of :: "side \<Rightarrow> 'c app \<Rightarrow> panel" where
  "panel_of s app = (case s of LeftSide \<Rightarrow> left app | RightSide \<Rightarrow> right app)"

definition panel_title :: "'v renv \<Rightarrow> 'c app \<Rightarrow> side \<Rightarrow> line" where
  "panel_title env app s =
     (let subject = (case view (panel_of s app) of
            Fleet \<Rightarrow> nat_to_string (length (visible (rd_lower env) app)) @ lit '' agent(s)''
          | _ \<Rightarrow> (case selected_agent (rd_lower env) app of
                    Some a \<Rightarrow> ad_name a | None \<Rightarrow> lit ''no agent''))
      in [raw (lit '' ''), styled (view_label (view (panel_of s app))) (theme_title (active app = s)),
          raw [32, 183, 32], styled subject theme_dim, raw (lit '' '')])"

definition render_panel :: "'v renv \<Rightarrow> rect \<Rightarrow> 'c app \<Rightarrow> side \<Rightarrow> draw list" where
  "render_panel env area app s =
     (let p = panel_of s app;
          block = \<lparr>bl_border = DoubleBorder (theme_border (active app = s)),
                   bl_title = Some (panel_title env app s), bl_style = None\<rparr>;
          inner = block_inner (rd_layout env) block area
      in [DrawBlock block area] @
         (case view p of
            Fleet \<Rightarrow> render_fleet env (rd_now env s) inner app
          | Config \<Rightarrow> render_config env inner app p
          | Pipeline \<Rightarrow> render_pipeline env inner app p
          | Metrics \<Rightarrow> render_metrics env inner app p
          | Logs \<Rightarrow> render_logs env inner app p
          | Health \<Rightarrow> render_health env (rd_now env s 0) (rd_clock env s) inner app p))"

end
