(* ===== verification/Views_Props.thy ===== *)
theory Views_Props
  imports Views Embedded
begin

text \<open>
  What the views show: the health view has one line for each component of the last health report,
  in pre-order; the config view loses nothing of the configuration; rows of the fleet view have a
  fixed width.
\<close>

section \<open>The health view\<close>

text \<open>The reference: the nodes of a tree in pre-order, with their depths.\<close>

fun preorder :: "nat \<Rightarrow> health_node \<Rightarrow> (nat \<times> health_node) list" where
  "preorder d (HealthNode name healthy st err children) =
     (d, HealthNode name healthy st err children) # concat (map (preorder (d + 1)) children)"

text \<open>The components of a report, each with its depth.\<close>

fun reported :: "nat \<Rightarrow> rstring \<Rightarrow> component_health \<Rightarrow> (nat \<times> rstring \<times> bool \<times> rstring \<times> rstring) list" where
  "reported d name (ComponentHealth healthy start_time last_error st status_time cmap) =
     (d, name, healthy, st, last_error) # concat (map (\<lambda>(k, v). reported (d + 1) k v) cmap)"

definition component_line :: "nat \<times> rstring \<times> bool \<times> rstring \<times> rstring \<Rightarrow> line" where
  "component_line c =
     (let (d, name, healthy, st, err) = c in health_line d (HealthNode name healthy st err []))"

lemma fold_append: "(\<And>x out. x \<in> set xs \<Longrightarrow> f x out = out @ g x) \<Longrightarrow> fold f xs out = out @ concat (map g xs)"
  by (induction xs arbitrary: out) auto

lemma health_lines_eq:
  "health_lines n d out = out @ map (\<lambda>(d, n). health_line d n) (preorder d n)"
proof (induction n arbitrary: d out rule: Control.health_node.induct)
  case (HealthNode name healthy st err children)
  have "fold (\<lambda>child out. health_lines child (d + 1) out) children out'
      = out' @ concat (map (\<lambda>child. map (\<lambda>(d, n). health_line d n) (preorder (d + 1) child)) children)"
    for out'
    by (rule fold_append) (rule HealthNode.IH)
  then show ?case by (simp add: map_concat comp_def)
qed

lemma mset_concat_map:
  "mset xs = mset ys \<Longrightarrow> mset (concat (map f xs)) = mset (concat (map f ys))"
proof -
  have "mset (concat (map f zs)) = sum_mset (image_mset (\<lambda>x. mset (f x)) (mset zs))" for zs
    by (induction zs) simp_all
  then show "mset xs = mset ys \<Longrightarrow> mset (concat (map f xs)) = mset (concat (map f ys))" by simp
qed

lemma health_line_children: "health_line d (HealthNode name healthy st err cs) = component_line (d, name, healthy, st, err)"
  by (simp add: component_line_def health_line_def)

lemma preorder_reported:
  "mset (map (\<lambda>(d, n). health_line d n) (preorder d (health_node name h)))
     = mset (map component_line (reported d name h))"
proof (induction name h arbitrary: d rule: health_node.induct)
  case (1 name healthy start_time last_error st status_time cmap)
  let ?L = "\<lambda>n. map (\<lambda>(d, n). health_line d n) (preorder (d + 1) n)"
  let ?cs = "map (\<lambda>(k, v). health_node k v) cmap"
  have "mset (concat (map ?L (sort_key hn_name ?cs))) = mset (concat (map ?L ?cs))"
    by (rule mset_concat_map) simp
  also have "\<dots> = mset (concat (map (\<lambda>(k, v). map component_line (reported (d + 1) k v)) cmap))"
    using 1 by (induction cmap) (auto simp: split_def)
  finally show ?case
    by (simp add: map_concat comp_def health_line_children split_def)
qed

text \<open>
  C25: the lines the health view appends for a reported health tree are those of the tree's
  components in pre-order (a parent above its children, each indented by its depth), and they are,
  with their multiplicities, exactly one line per component of the report, made from that
  component's own name, health, status and error.
\<close>

theorem health_view_lists_components:
  "health_lines (health_node name h) d out
      = out @ map (\<lambda>(d, n). health_line d n) (preorder d (health_node name h))
    \<and> mset (health_lines (health_node name h) d out) = mset out + mset (map component_line (reported d name h))"
  by (simp only: health_lines_eq mset_append preorder_reported)

section \<open>The config view\<close>

text \<open>
  The lines shown for a configuration, joined by newlines, are the configuration, less a final
  newline, when it has no carriage returns.
\<close>

lemma config_view_shows_text:
  assumes "selected_agent (rd_lower env) app = Some a" "ad_effective_config a \<noteq> []"
    and "13 \<notin> set (ad_effective_config a)"
  shows "join [10] (map line_text (config_lines env app)) =
    (if last (ad_effective_config a) = 10 then butlast (ad_effective_config a) else ad_effective_config a)"
  using assms by (simp add: config_lines_def comp_def join_str_lines)

section \<open>Rows of the fleet view\<close>

text \<open>
  Every field of a row is padded to a width it is cut to, except the age. The row of an unhealthy
  agent is a column wider than that of a healthy one, and the line of the selected agent lacks
  the two columns of the health indicator in front of it.
\<close>

lemma fleet_row_length:
  assumes "length (ago now (ad_last_seen a)) \<le> 6"
  shows "length (fleet_row now a) = (if ad_healthy a then 55 else 56)"
proof -
  have "length (truncate_text s m) \<le> m" if "0 < m" for s m
    using length_truncate [OF that] by simp
  then have "max m (length (truncate_text s m)) = m" if "0 < m" for s m
    using that by (simp add: max_def antisym)
  with assms show ?thesis by (simp add: fleet_row_def lit_def)
qed

lemma fleet_line_text:
  "line_text (fleet_line w sel now a) =
     (if Some (ad_uid a) = sel then pad (fleet_row now a) w else [32, 9679] @ fleet_row now a)"
  by (simp add: fleet_line_def)

section \<open>The pipeline view\<close>

text \<open>The components of a pipeline are shown in their order, connectors with a mark, between dots.\<close>

lemma node_spans_text:
  "line_text (node_spans names g c) =
     join [32, 183, 32] (map (\<lambda>n. content (node_span g c n)) names)"
proof -
  have tail: "line_text (concat (map (\<lambda>(i, name).
         (if 0 < i then [styled [32, 183, 32] theme_dim] else []) @ [node_span g c name])
       (enumerate (Suc k) ns))) = concat (map (\<lambda>n. [32, 183, 32] @ content (node_span g c n)) ns)" for k ns
    by (induction ns arbitrary: k) (simp_all add: line_text_def)
  have "join [32, 183, 32] (x # xs) = x @ concat (map (\<lambda>s. [32, 183, 32] @ s) xs)" for x xs
    by (induction xs arbitrary: x) (simp_all)
  with tail [of 0] show ?thesis
    by (cases names) (simp_all add: node_spans_def comp_def)
qed

end
