(* ===== verification/Ui.thy ===== *)
theory Ui
  imports Views
begin

text \<open>
  The root renderer, \<open>crates/otelc-tui/src/ui.rs\<close>: the bars, the menu, the dialogs, and \<open>draw\<close>,
  which composes them with the two panels. Drawing an open editor adjusts its scroll position, so
  \<open>draw\<close> yields the calls on the frame and the new state of the application; it is \<open>None\<close> when the
  layout solver answers with another number of areas than it was asked for. Coordinates are 16-bit
  words, whose arithmetic wraps as in a release build.
\<close>

section \<open>The bars\<close>

definition fn_keys :: "(rstring \<times> rstring) list" where
  "fn_keys =
     [(lit ''1'', lit ''Help''), (lit ''2'', lit ''Menu''), (lit ''3'', lit ''View''),
      (lit ''4'', lit ''Edit''), (lit ''5'', lit ''Push''), (lit ''6'', lit ''Restart''),
      (lit ''7'', lit ''Filter''), (lit ''8'', lit ''Health''), (lit ''9'', lit ''Menu''),
      (lit ''10'', lit ''Quit'')]"

definition draw_bar :: "line \<Rightarrow> rect \<Rightarrow> draw" where
  "draw_bar l area = DrawParagraph ((paragraph_new [l])\<lparr>par_style := Some theme_bar\<rparr>) area"

definition menubar_line :: "'v renv \<Rightarrow> 'c control_plane \<Rightarrow> 'c app \<Rightarrow> line" where
  "menubar_line env cp app =
     [styled (lit '' otelc '') (style_default\<lparr>bold := True\<rparr>)]
       @ concat (map (\<lambda>v. [raw (lit '' ''), raw (view_label v)]) all_views)
       @ [raw (lit ''   '' @ [9474] @ lit ''  ''),
          raw (cp_mode cp @ lit '' '' @ cp_endpoint cp (control app) @ lit ''  '' @ [183] @ lit ''  ''
            @ nat_to_string (length (visible (rd_lower env) app)) @ lit '' agent(s)'')]"

definition render_menubar :: "'v renv \<Rightarrow> 'c control_plane \<Rightarrow> rect \<Rightarrow> 'c app \<Rightarrow> draw list" where
  "render_menubar env cp area app = [draw_bar (menubar_line env cp app) area]"

definition short_cap :: "rstring \<Rightarrow> rstring" where
  "short_cap name =
     (case map_of
        [(lit ''AcceptsRemoteConfig'', lit ''CFG''),
         (lit ''ReportsEffectiveConfig'', lit ''EFFCFG''),
         (lit ''ReportsHealth'', lit ''HEALTH''),
         (lit ''ReportsOwnMetrics'', lit ''METRICS''),
         (lit ''ReportsOwnLogs'', lit ''LOGS''),
         (lit ''ReportsOwnTraces'', lit ''TRACES''),
         (lit ''AcceptsRestartCommand'', lit ''RESTART''),
         (lit ''ReportsRemoteConfig'', lit ''RCFG''),
         (lit ''ReportsStatus'', lit ''STATUS'')] name of
        Some s \<Rightarrow> s | None \<Rightarrow> name)"

definition status_caps :: "agent_detail \<Rightarrow> rstring list" where
  "status_caps a = map (\<lambda>(n, _). short_cap n) (filter (\<lambda>(_, on). on) (ad_capabilities a))"

definition status_line :: "'v renv \<Rightarrow> 'c app \<Rightarrow> line" where
  "status_line env app =
     (case selected_agent (rd_lower env) app of
        Some a \<Rightarrow>
          [styled (lit '' instance-uid '') theme_dim, styled (ad_uid a) theme_text,
           styled (lit ''  health '') theme_dim,
           styled (if ad_healthy a then lit ''OK'' else lit ''DEGRADED'')
             (style_fg (theme_health (ad_healthy a))),
           styled (lit ''  caps '') theme_dim, styled (join [183] (status_caps a)) theme_text]
      | None \<Rightarrow> [styled (lit '' no agent selected'') theme_dim])"

definition render_status :: "'v renv \<Rightarrow> rect \<Rightarrow> 'c app \<Rightarrow> draw list" where
  "render_status env area app = [DrawParagraph (paragraph_new [status_line env app]) area]"

definition cmdline_line :: "'c app \<Rightarrow> line" where
  "cmdline_line app =
     (if filtering app
      then [styled (lit '' filter> '') theme_accent, styled (flt app @ [9608]) theme_text]
      else [styled (lit '' otelc> '') theme_accent, styled (status app) theme_text])"

definition render_cmdline :: "rect \<Rightarrow> 'c app \<Rightarrow> draw list" where
  "render_cmdline area app = [DrawParagraph (paragraph_new [cmdline_line app]) area]"

definition fnbar_line :: line where
  "fnbar_line =
     concat (map (\<lambda>(num, label). [styled (lit '' '' @ num) theme_fnkey,
         raw (lit '' '' @ label @ lit '' '')]) fn_keys)"

definition render_fnbar :: "rect \<Rightarrow> draw list" where
  "render_fnbar area = [draw_bar fnbar_line area]"

section \<open>The menu\<close>

definition menu_rect :: "rect \<Rightarrow> menu \<Rightarrow> rect" where
  "menu_rect area m =
     \<lparr>rx = rx area + 1, ry = ry area + 1, width = min 30 (width area),
      height = min (of_nat (length (entries m)) + 2) (height area)\<rparr>"

definition menu_line :: "nat \<Rightarrow> menu \<Rightarrow> nat \<Rightarrow> menu_entry \<Rightarrow> line" where
  "menu_line w m i e =
     (if me_action e = Separator then [styled (replicate w 9472) theme_dim]
      else if i = selected m then [styled (pad (lit '' '' @ me_label e) w) theme_selection]
      else [styled (lit '' '' @ me_label e) theme_text])"

definition dialog_block :: "rstring \<Rightarrow> block" where
  "dialog_block title =
     \<lparr>bl_border = DoubleBorder (theme_border True), bl_title = Some [styled title (theme_title True)],
      bl_style = Some theme_base\<rparr>"

definition render_menu :: "'v renv \<Rightarrow> rect \<Rightarrow> menu \<Rightarrow> draw list" where
  "render_menu env area m =
     (let r = menu_rect area m;
          block = dialog_block (lit '' Menu '');
          inner = block_inner (rd_layout env) block r
      in [Clear r, DrawBlock block r,
          DrawParagraph (paragraph_new
            (map (\<lambda>(i, e). menu_line (unat (width inner)) m i e) (enumerate 0 (entries m)))) inner])"

section \<open>Dialogs\<close>

definition centered :: "u16 \<Rightarrow> u16 \<Rightarrow> rect \<Rightarrow> rect" where
  "centered w h area =
     (let w = min w (width area); h = min h (height area)
      in \<lparr>rx = rx area + (width area - w) div 2, ry = ry area + (height area - h) div 2,
          width = w, height = h\<rparr>)"

definition render_box :: "'v renv \<Rightarrow> rect \<Rightarrow> rstring \<Rightarrow> u16 \<Rightarrow> u16 \<Rightarrow> line list \<Rightarrow> draw list" where
  "render_box env area title w h ls =
     (let r = centered w h area;
          block = dialog_block (lit '' '' @ title @ lit '' '');
          inner = block_inner (rd_layout env) block r
      in [Clear r, DrawBlock block r,
          DrawParagraph ((paragraph_new ls)\<lparr>par_wrap := Some False\<rparr>) inner])"

definition help_rows :: "(rstring \<times> rstring) list" where
  "help_rows =
     [(lit ''Tab'', lit ''switch active panel''),
      (lit ''1-6'', lit ''set active panel view (Fleet/Config/Pipeline/Metrics/Logs/Health)''),
      (lit ''Up/Down'', lit ''move fleet selection, or scroll a view''),
      (lit ''Enter'', lit ''open the selected agent'' @ [39] @ lit ''s config''),
      (lit ''F1'', lit ''this help''),
      (lit ''F2 / F9'', lit ''open the menu''),
      (lit ''F3'', lit ''cycle the active panel'' @ [39] @ lit ''s view''),
      (lit ''F4 / F5'', lit ''edit and push remote config''),
      (lit ''F6'', lit ''restart the selected agent''),
      (lit ''F7'', lit ''filter the fleet''),
      (lit ''F10 / q'', lit ''quit'')]"

definition help_text :: "line list" where
  "help_text =
     [[raw []]]
       @ map (\<lambda>(key, desc). [styled (lit ''  '' @ pad_left_aligned 10 key) theme_accent,
            styled desc theme_text]) help_rows
       @ [[raw []], [styled (lit ''  otelc manages OpenTelemetry Collectors over OpAMP.'') theme_dim]]"

definition message_lines :: "rstring \<Rightarrow> line list" where
  "message_lines b =
     [[raw []], [styled b theme_text], [raw []],
      [styled (lit ''  press any key to dismiss'') theme_dim]]"

definition confirm_lines :: "rstring \<Rightarrow> line list" where
  "confirm_lines b =
     [[raw []], [styled b theme_text], [raw []],
      [styled (lit ''  [ Enter = Yes ]    [ Esc = No ]'') theme_accent]]"

section \<open>The editor's dialog\<close>

definition editor_rect :: "rect \<Rightarrow> rect" where
  "editor_rect area =
     centered (max (of_nat (unat (width area) - 6)) 24) (max (of_nat (unat (height area) - 4)) 10) area"

definition editor_scroll_to :: "nat \<Rightarrow> editor \<Rightarrow> editor" where
  "editor_scroll_to viewport e =
     (if 0 < viewport then
        (if cy e < ed_scroll e then e\<lparr>ed_scroll := cy e\<rparr>
         else if ed_scroll e + viewport \<le> cy e then e\<lparr>ed_scroll := cy e + 1 - viewport\<rparr>
         else e)
      else e)"

definition editor_lines :: "nat \<Rightarrow> editor \<Rightarrow> line list" where
  "editor_lines viewport e =
     map (\<lambda>l. [styled l theme_text]) (take viewport (drop (ed_scroll e) (ed_lines e)))"

definition editor_cursor :: "rect \<Rightarrow> editor \<Rightarrow> u16 \<times> u16" where
  "editor_cursor text_area e =
     (rx text_area + of_nat (min (cx e) (unat (width text_area) - 1)),
      ry text_area + (of_nat (cy e) - of_nat (ed_scroll e)))"

definition editor_block :: "editor \<Rightarrow> block" where
  "editor_block e = dialog_block (lit '' Edit remote config '' @ [8212] @ lit '' '' @ ed_agent e @ lit '' '')"

definition render_editor :: "'v renv \<Rightarrow> rect \<Rightarrow> editor \<Rightarrow> (draw list \<times> editor) option" where
  "render_editor env area e =
     (let r = editor_rect area;
          block = editor_block e;
          inner = block_inner (rd_layout env) block r
      in case split_vertical (rd_layout env) [AtLeast 1, Fixed 1] inner of
           [text_area, hint] \<Rightarrow>
             (let viewport = unat (height text_area);
                  e = editor_scroll_to viewport e;
                  (x, y) = editor_cursor text_area e
              in Some
                ([Clear r, DrawBlock block r,
                  DrawParagraph (paragraph_new (editor_lines viewport e)) text_area,
                  draw_bar [raw (lit '' F5 Push   Esc Cancel   arrows move   Enter newline '')] hint,
                  SetCursor x y], e))
         | _ \<Rightarrow> None)"

definition render_modal :: "'v renv \<Rightarrow> rect \<Rightarrow> 'c app \<Rightarrow> (draw list \<times> 'c app) option" where
  "render_modal env area app =
     (case modal app of
        None \<Rightarrow> Some ([], app)
      | Some Help \<Rightarrow>
          Some (render_box env area (lit ''Help '' @ [8212] @ lit '' otelc'') 66 18 help_text, app)
      | Some (ModalMessage title b) \<Rightarrow> Some (render_box env area title 60 8 (message_lines b), app)
      | Some (Confirm title b _) \<Rightarrow> Some (render_box env area title 56 8 (confirm_lines b), app)
      | Some (ModalEditor e) \<Rightarrow> do {
          (ops, e') \<leftarrow> render_editor env area e;
          Some (ops, app\<lparr>modal := Some (ModalEditor e')\<rparr>)
        })"

section \<open>The screen\<close>

definition draw_screen ::
    "'v renv \<Rightarrow> 'c control_plane \<Rightarrow> rect \<Rightarrow> 'c app \<Rightarrow> (draw list \<times> 'c app) option" where
  "draw_screen env cp area app =
     (case split_vertical (rd_layout env) [Fixed 1, AtLeast 3, Fixed 1, Fixed 1, Fixed 1] area of
        [menu_bar, bdy, status_bar, cmd_bar, key_bar] \<Rightarrow>
          (case split_horizontal (rd_layout env) [Percentage 50, Percentage 50] bdy of
             [l, r] \<Rightarrow> do {
               (modal_ops, app') \<leftarrow> render_modal env area app;
               Some
                 ([DrawBlock \<lparr>bl_border = NoBorder, bl_title = None, bl_style = Some theme_base\<rparr> area]
                    @ render_menubar env cp menu_bar app
                    @ render_panel env l app LeftSide @ render_panel env r app RightSide
                    @ render_status env status_bar app @ render_cmdline cmd_bar app
                    @ render_fnbar key_bar
                    @ (case app_menu app of Some m \<Rightarrow> render_menu env area m | None \<Rightarrow> [])
                    @ modal_ops, app')
             }
           | _ \<Rightarrow> None)
      | _ \<Rightarrow> None)"

text \<open>
  The loop of \<open>run\<close> with its drawing: each round draws, leaves if an input asked to quit, and
  handles one input. \<open>envs\<close> gives the environment of each frame, \<open>area\<close> the terminal's size at it.
\<close>

fun ui_loop ::
    "(nat \<Rightarrow> 'v renv) \<Rightarrow> (nat \<Rightarrow> rect) \<Rightarrow> 'c control_plane \<Rightarrow> (rstring \<Rightarrow> rstring) \<Rightarrow>
     app_input list \<Rightarrow> nat \<Rightarrow> 'c app \<Rightarrow> 'c app option" where
  "ui_loop envs area cp lower [] n app = map_option snd (draw_screen (envs n) cp (area n) app)"
| "ui_loop envs area cp lower (i # is) n app = do {
     (_, app) \<leftarrow> draw_screen (envs n) cp (area n) app;
     if should_quit app then Some app
     else app_step cp lower i app \<bind> ui_loop envs area cp lower is (n + 1)
   }"

end
