(* ===== verification/Ui_Props.thy ===== *)
theory Ui_Props
  imports Ui App_Props
begin

text \<open>
  What the renderers guarantee: drawing does not change how the program behaves, the selected agent
  and the cursor of the editor are on the screen, the dialogs stay inside it (and the menu does not
  on a small one), the health view lists every component.
\<close>

section \<open>Drawing is transparent\<close>

text \<open>An application up to the scroll position of its open editor.\<close>

definition erase_scroll :: "'c app \<Rightarrow> 'c app" where
  "erase_scroll app =
     (case modal app of
        Some (ModalEditor e) \<Rightarrow> app\<lparr>modal := Some (ModalEditor (e\<lparr>ed_scroll := 0\<rparr>))\<rparr>
      | _ \<Rightarrow> app)"

lemma erase_editor: "modal app = Some (ModalEditor e) \<Longrightarrow>
    erase_scroll app = app\<lparr>modal := Some (ModalEditor (e\<lparr>ed_scroll := 0\<rparr>))\<rparr>"
  by (simp add: erase_scroll_def)

lemma erase_other: "\<forall>e. modal app \<noteq> Some (ModalEditor e) \<Longrightarrow> erase_scroll app = app"
  by (auto simp: erase_scroll_def split: option.splits modal.splits)

lemma erase_idem [simp]: "erase_scroll (erase_scroll app) = erase_scroll app"
  by (cases "\<exists>e. modal app = Some (ModalEditor e)") (auto simp: erase_editor erase_other)

lemma erase_quit [simp]: "should_quit (erase_scroll app) = should_quit app"
  by (cases "\<exists>e. modal app = Some (ModalEditor e)") (auto simp: erase_editor erase_other)

lemma editor_key_scroll:
  "editor_key k (e\<lparr>ed_scroll := n\<rparr>) = map_option (\<lambda>e. e\<lparr>ed_scroll := n\<rparr>) (editor_key k e)"
proof -
  have vert: "move_vertical dy (e\<lparr>ed_scroll := n\<rparr>) = map_option (\<lambda>e. e\<lparr>ed_scroll := n\<rparr>) (move_vertical dy e)"
    for dy by (auto simp: move_vertical_def Let_def vec_get_def)
  have len: "line_len (e\<lparr>ed_scroll := n\<rparr>) row = line_len e row" for e row
    by (simp add: line_len_def)
  have hori: "move_horizontal dx (e\<lparr>ed_scroll := n\<rparr>) = (move_horizontal dx e)\<lparr>ed_scroll := n\<rparr>" for dx e
    by (simp add: move_horizontal_def Let_def len)
  show ?thesis
    by (cases k) (auto simp: insert_char_def newline_def backspace_def move_cursor_def vert hori len
        vec_get_def Let_def map_option_bind split: Option.bind_splits)
qed

lemma erase_modal_key:
  "map_option erase_scroll (handle_modal_key cp k (erase_scroll app)) =
     map_option erase_scroll (handle_modal_key cp k app)"
proof (cases "\<exists>e. modal app = Some (ModalEditor e)")
  case True
  then obtain e where e: "modal app = Some (ModalEditor e)" ..
  have "editor_text (e\<lparr>ed_scroll := 0\<rparr>) = editor_text e" by (simp add: editor_text_def)
  with e show ?thesis
    by (cases "editor_key k e") (simp_all add: erase_editor handle_modal_key_def editor_key_scroll)
qed (simp add: erase_other)

lemma erase_control: "erase_scroll (handle_control ev app) = handle_control ev (erase_scroll app)"
proof (cases "\<exists>e. modal app = Some (ModalEditor e)")
  case True
  then obtain e where e: "modal app = Some (ModalEditor e)" ..
  moreover have "modal (handle_control ev app) = modal app"
    by (cases ev) (simp_all add: Let_def)
  ultimately show ?thesis
    by (cases ev) (auto simp: erase_editor Let_def)
next
  case False
  moreover have "modal (handle_control ev app) = modal app"
    by (cases ev) (simp_all add: Let_def)
  ultimately show ?thesis by (simp add: erase_other)
qed

lemma erase_step:
  "map_option erase_scroll (app_step cp lower i (erase_scroll app)) =
     map_option erase_scroll (app_step cp lower i app)"
proof (cases "\<exists>e. modal app = Some (ModalEditor e)")
  case True
  then have "modal app \<noteq> None" "modal (erase_scroll app) \<noteq> None"
    by (auto simp: erase_editor)
  then show ?thesis
    by (cases i) (simp_all add: handle_key_def erase_modal_key erase_control [symmetric])
qed (simp add: erase_other)

lemma length_2D: "length xs = 2 \<Longrightarrow> \<exists>x y. xs = [x, y]"
  by (auto simp: numeral_eq_Suc length_Suc_conv)

lemma length_5D: "length xs = 5 \<Longrightarrow> \<exists>x y z u v. xs = [x, y, z, u, v]"
  by (auto simp: numeral_eq_Suc length_Suc_conv)

lemma layout_two:
  assumes "layout_ok lay"
  shows "\<exists>x y. split_vertical lay [c, d] r = [x, y]" "\<exists>x y. split_horizontal lay [c, d] r = [x, y]"
  using assms by (simp_all add: layout_ok_def length_2D)

lemma layout_five:
  "layout_ok lay \<Longrightarrow> \<exists>x y z u v. split_vertical lay [c1, c2, c3, c4, c5] r = [x, y, z, u, v]"
  by (simp add: layout_ok_def length_5D)

lemma editor_scroll_to_eq: "\<exists>n. editor_scroll_to v e = e\<lparr>ed_scroll := n\<rparr>"
proof -
  have "e\<lparr>ed_scroll := ed_scroll e\<rparr> = e" by simp
  then show ?thesis unfolding editor_scroll_to_def by metis
qed

lemma render_editor_returns:
  assumes "layout_ok (rd_layout env)"
  shows "\<exists>ops n. render_editor env area e = Some (ops, e\<lparr>ed_scroll := n\<rparr>)"
proof -
  let ?inner = "block_inner (rd_layout env) (editor_block e) (editor_rect area)"
  obtain a b where v: "split_vertical (rd_layout env) [AtLeast 1, Fixed 1] ?inner = [a, b]"
    using layout_two [OF assms] by blast
  obtain n where n: "editor_scroll_to (unat (height a)) e = e\<lparr>ed_scroll := n\<rparr>"
    using editor_scroll_to_eq by blast
  show ?thesis
    unfolding render_editor_def Let_def v list.case n by (simp add: case_prod_unfold) blast
qed

lemma render_modal_returns:
  assumes "layout_ok (rd_layout env)"
  shows "\<exists>ops app'. render_modal env area app = Some (ops, app') \<and> erase_scroll app' = erase_scroll app"
proof (cases "modal app")
  case (Some m)
  show ?thesis
  proof (cases m)
    case (ModalEditor e)
    obtain ops n where "render_editor env area e = Some (ops, e\<lparr>ed_scroll := n\<rparr>)"
      using render_editor_returns [OF assms] by blast
    with Some ModalEditor show ?thesis by (simp add: render_modal_def erase_editor)
  qed (use Some in \<open>simp_all add: render_modal_def\<close>)
qed (simp add: render_modal_def)

lemma draw_screen_returns:
  assumes "layout_ok (rd_layout env)"
  shows "\<exists>ops app'. draw_screen env cp area app = Some (ops, app') \<and> erase_scroll app' = erase_scroll app"
proof -
  obtain a b c d e where v: "split_vertical (rd_layout env)
      [Fixed 1, AtLeast 3, Fixed 1, Fixed 1, Fixed 1] area = [a, b, c, d, e]"
    using layout_five [OF assms] by blast
  obtain l r where h: "split_horizontal (rd_layout env) [Percentage 50, Percentage 50] b = [l, r]"
    using layout_two [OF assms] by blast
  show ?thesis
    using render_modal_returns [OF assms, of area app] unfolding draw_screen_def v list.case h by auto
qed

lemma ui_loop_erase:
  assumes "\<And>n. layout_ok (rd_layout (envs n))"
  shows "erase_scroll a = erase_scroll b \<Longrightarrow>
    map_option erase_scroll (ui_loop envs area cp lower ins n a) =
      map_option erase_scroll (app_loop cp lower ins b)"
proof (induction ins arbitrary: n a b)
  case Nil
  then show ?case using draw_screen_returns [OF assms, of n cp "area n" a] by auto
next
  case (Cons i ins)
  obtain ops a' where a': "draw_screen (envs n) cp (area n) a = Some (ops, a')"
    "erase_scroll a' = erase_scroll b"
    using draw_screen_returns [OF assms, of n cp "area n" a] Cons.prems by auto
  have quit: "should_quit a' = should_quit b"
    using a'(2) erase_quit by metis
  have step: "map_option erase_scroll (app_step cp lower i a') = map_option erase_scroll (app_step cp lower i b)"
    using a'(2) erase_step by metis
  show ?case
  proof (cases "should_quit b")
    case True
    with a' quit show ?thesis by simp
  next
    case False
    with a' quit step Cons.IH show ?thesis
      by (cases "app_step cp lower i a'"; cases "app_step cp lower i b") auto
  qed
qed


text \<open>A layout solver that gives every constraint the whole area.\<close>

definition sample_layout :: layout where
  "sample_layout =
     \<lparr>block_inner = (\<lambda>b r. r), split_vertical = (\<lambda>cs r. replicate (length cs) r),
      split_horizontal = (\<lambda>cs r. replicate (length cs) r)\<rparr>"

definition sample_renv :: "unit renv" where
  "sample_renv =
     \<lparr>rd_lower = id, rd_yaml = \<lparr>from_str = (\<lambda>_. Inl []), as_str = (\<lambda>_. None)\<rparr>,
      rd_layout = sample_layout, rd_now = (\<lambda>_ _. 0), rd_clock = (\<lambda>_. None)\<rparr>"

lemma layout_ok_sample: "layout_ok (rd_layout sample_renv)"
  by (simp add: layout_ok_def sample_renv_def sample_layout_def)


section \<open>The selected agent is on the screen\<close>

lemma position_uid:
  assumes "distinct (map ad_uid vis)" "a \<in> set vis"
  shows "\<exists>j < length vis. position (\<lambda>b. ad_uid b = ad_uid a) vis = Some j \<and> vis ! j = a"
proof -
  obtain j where j: "position (\<lambda>b. ad_uid b = ad_uid a) vis = Some j"
    using assms(2) position_None [of "\<lambda>b. ad_uid b = ad_uid a" vis] by (cases "position (\<lambda>b. ad_uid b = ad_uid a) vis") auto
  then have "j < length vis" "ad_uid (vis ! j) = ad_uid a"
    using position_Some [OF j] by simp_all
  moreover obtain i where "i < length vis" "vis ! i = a"
    using assms(2) by (auto simp: in_set_conv_nth)
  ultimately have "vis ! j = a"
    using assms(1) by (metis distinct_conv_nth length_map nth_map)
  with j \<open>j < length vis\<close> show ?thesis by blast
qed

text \<open>The lines of the fleet view below its header, when there are agents.\<close>

lemma fleet_lines_eq:
  assumes "visible (rd_lower env) app = vis" "vis \<noteq> []"
    "map_option ad_uid (selected_agent (rd_lower env) app) = sel"
    "fleet_offset (unat (height area)) sel vis = offset"
  shows "fleet_lines env now area app =
    fleet_header (unat (width area))
      # map (\<lambda>i. fleet_line (unat (width area)) sel (now i) (vis ! (offset + i))) [0..<length vis - offset]"
proof -
  have "enumerate 0 xs = map (\<lambda>i. (i, xs ! i)) [0..<length xs]" for xs :: "agent_detail list"
    by (rule nth_equalityI) (simp_all add: nth_enumerate_eq)
  then show ?thesis
    using assms by (simp add: fleet_lines_def Let_def)
qed

lemma fleet_line_styles:
  "Some (ad_uid b) \<noteq> sel \<Longrightarrow> s \<in> set (fleet_line w sel now b) \<Longrightarrow> span_style s \<noteq> theme_selection"
  "s \<in> set (fleet_header w) \<Longrightarrow> span_style s \<noteq> theme_selection"
  by (auto simp: fleet_line_def fleet_header_def selection_distinct [THEN not_sym])

lemma selected_row_shown:
  assumes "distinct (map ad_uid (visible (rd_lower env) app))"
    and "selected_agent (rd_lower env) app = Some a" and "2 \<le> unat (height area)"
  shows "\<exists>r k. 0 < r \<and> r < unat (height area) \<and> r < length (fleet_lines env now area app)
    \<and> fleet_lines env now area app ! r
        = [styled (pad (fleet_row (now k) a) (unat (width area))) theme_selection]
    \<and> (\<forall>i s. i < length (fleet_lines env now area app) \<and> i \<noteq> r
         \<and> s \<in> set (fleet_lines env now area app ! i) \<longrightarrow> span_style s \<noteq> theme_selection)"
proof -
  define vis where "vis = visible (rd_lower env) app"
  have mem: "a \<in> set vis" using selected_agent_visible [OF assms(2)] by (simp add: vis_def)
  obtain j where j: "j < length vis" "position (\<lambda>b. ad_uid b = ad_uid a) vis = Some j" "vis ! j = a"
    using position_uid [of vis a] assms(1) mem by (auto simp: vis_def)
  define offset where "offset = j - (unat (height area) - 1 - 1)"
  have off: "fleet_offset (unat (height area)) (Some (ad_uid a)) vis = offset"
    by (simp add: fleet_offset_def offset_def j(2) Let_def)
  have le: "offset \<le> j" "j - offset < unat (height area) - 1"
    using assms(3) by (auto simp: offset_def)
  have ls: "fleet_lines env now area app =
    fleet_header (unat (width area)) # map (\<lambda>i. fleet_line (unat (width area)) (Some (ad_uid a)) (now i)
      (vis ! (offset + i))) [0..<length vis - offset]"
    by (rule fleet_lines_eq) (use mem assms(2) off in \<open>auto simp: vis_def\<close>)
  have row: "fleet_lines env now area app ! Suc i
      = fleet_line (unat (width area)) (Some (ad_uid a)) (now i) (vis ! (offset + i))"
    if "i < length vis - offset" for i
    using that by (simp add: ls)
  let ?r = "Suc (j - offset)"
  have "fleet_lines env now area app ! ?r
      = [styled (pad (fleet_row (now (j - offset)) a) (unat (width area))) theme_selection]"
    using row [of "j - offset"] j le by (simp add: fleet_line_def)
  moreover have "span_style s \<noteq> theme_selection"
    if i: "i < length (fleet_lines env now area app)" "i \<noteq> ?r" "s \<in> set (fleet_lines env now area app ! i)" for i s
  proof (cases i)
    case 0
    then show ?thesis using i(3) fleet_line_styles(2) by (simp add: ls)
  next
    case (Suc k)
    then have k: "k < length vis - offset" "offset + k \<noteq> j"
      using i le by (auto simp: ls)
    then have "ad_uid (vis ! (offset + k)) \<noteq> ad_uid a"
      using assms(1) j by (simp add: vis_def [symmetric] distinct_conv_nth)
        (metis add.commute less_diff_conv)
    then show ?thesis
      using i(3) Suc row [OF k(1)] fleet_line_styles(1) by fastforce
  qed
  ultimately show ?thesis
    using le j(1) by (intro exI [of _ ?r] exI [of _ "j - offset"]) (auto simp: ls)
qed

text \<open>
  C17: after any run of the application, in a fleet view of at least two rows the selected agent's row
  is on the screen, whatever the number of agents, and it is the only thing shown in the selection
  style.
\<close>

theorem selected_agent_on_screen:
  assumes "app_loop cp (rd_lower env) ins (app_new cp c) = Some app"
    and "selected_agent (rd_lower env) app = Some a" and "2 \<le> unat (height area)"
  shows "\<exists>r k. 0 < r \<and> r < unat (height area) \<and> r < length (fleet_lines env now area app)
    \<and> fleet_lines env now area app ! r
        = [styled (pad (fleet_row (now k) a) (unat (width area))) theme_selection]
    \<and> (\<forall>i s. i < length (fleet_lines env now area app) \<and> i \<noteq> r
         \<and> s \<in> set (fleet_lines env now area app ! i) \<longrightarrow> span_style s \<noteq> theme_selection)"
proof (rule selected_row_shown [OF _ assms(2,3)])
  have "app_inv app"
    by (rule app_loop_invariant [where P = app_inv, OF _ app_inv_new assms(1)]) (rule app_inv_step)
  then show "distinct (map ad_uid (visible (rd_lower env) app))" by (rule visible_uids_distinct)
qed

lemma selected_agent_on_screen_witness:
  "\<exists>app r. app_loop sample_cp id [InControl (AgentUpserted (sample_detail [97] []))] (app_new sample_cp ()) = Some app
    \<and> r < 2 \<and> fleet_lines sample_renv (\<lambda>_. 0) \<lparr>rx = 0, ry = 0, width = 40, height = 2\<rparr> app ! r
        = [styled (pad (fleet_row 0 (sample_detail [97] [])) 40) theme_selection]"
proof -
  let ?a = "sample_detail [97] []"
  let ?app = "handle_control (AgentUpserted ?a) (app_new sample_cp ())"
  let ?area = "\<lparr>rx = 0, ry = 0, width = 40, height = 2\<rparr> :: rect"
  have run: "app_loop sample_cp (rd_lower sample_renv) [InControl (AgentUpserted ?a)] (app_new sample_cp ()) = Some ?app"
    by (simp add: app_new_def)
  have sel: "selected_agent (rd_lower sample_renv) ?app = Some ?a"
    by (simp add: selected_agent_def visible_def app_new_def Let_def sample_detail_def agent_detail_new_def
        matches_def sample_renv_def List.map_filter_def)
  have h: "2 \<le> unat (height ?area)" "unat (height ?area) = 2" "unat (width ?area) = 40" by simp_all
  from selected_agent_on_screen [OF run sel h(1), of "\<lambda>_. 0"] h(2,3) run
  show ?thesis by (auto simp: sample_renv_def)
qed

section \<open>The cursor of the editor\<close>

lemma editor_scroll_to_window:
  assumes "0 < v"
  shows "ed_scroll (editor_scroll_to v e) \<le> cy e \<and> cy e < ed_scroll (editor_scroll_to v e) + v"
  using assms by (auto simp: editor_scroll_to_def)

lemma editor_scroll_to_simps [simp]:
  "cy (editor_scroll_to v e) = cy e" "cx (editor_scroll_to v e) = cx e"
  "ed_lines (editor_scroll_to v e) = ed_lines e"
  by (simp_all add: editor_scroll_to_def)

lemma unat_add_inside:
  fixes x w :: u16
  assumes "n < unat w" "unat x + unat w < 2 ^ 16"
  shows "unat (x + of_nat n) = unat x + n"
proof -
  have "unat (of_nat n :: u16) = n"
    using assms by (simp add: unat_of_nat)
  with assms show ?thesis by (subst unat_add_lem [THEN iffD1]) simp_all
qed

lemma render_editor_eq:
  assumes "split_vertical (rd_layout env) [AtLeast 1, Fixed 1]
      (block_inner (rd_layout env) (editor_block e) (editor_rect area)) = [r, hint]"
  shows "render_editor env area e =
    Some ([Clear (editor_rect area), DrawBlock (editor_block e) (editor_rect area),
        DrawParagraph (paragraph_new
          (editor_lines (unat (height r)) (editor_scroll_to (unat (height r)) e))) r,
        draw_bar [raw (lit '' F5 Push   Esc Cancel   arrows move   Enter newline '')] hint,
        SetCursor (rx r + of_nat (min (cx e) (unat (width r) - 1)))
          (ry r + (of_nat (cy e) - of_nat (ed_scroll (editor_scroll_to (unat (height r)) e))))],
      editor_scroll_to (unat (height r)) e)"
  unfolding render_editor_def Let_def assms list.case editor_cursor_def prod.case by simp

text \<open>
  C18: whenever the editor's dialog has room for text and its buffer has the line the cursor is on,
  the screen shows that line, and the terminal's cursor is set to a cell of the text area in the
  row of that line.
\<close>

theorem editor_cursor_on_its_line:
  assumes areas: "split_vertical (rd_layout env) [AtLeast 1, Fixed 1]
      (block_inner (rd_layout env) (editor_block e) (editor_rect area)) = [r, hint]"
    and room: "0 < unat (width r)" "0 < unat (height r)"
      "unat (rx r) + unat (width r) < 2 ^ 16" "unat (ry r) + unat (height r) < 2 ^ 16"
    and line: "cy e < length (ed_lines e)"
  shows "\<exists>ops e' x y row. render_editor env area e = Some (ops, e') \<and> SetCursor x y \<in> set ops
    \<and> DrawParagraph (paragraph_new (editor_lines (unat (height r)) e')) r \<in> set ops
    \<and> unat (rx r) \<le> unat x \<and> unat x < unat (rx r) + unat (width r)
    \<and> unat y = unat (ry r) + row \<and> row < unat (height r)
    \<and> row < length (editor_lines (unat (height r)) e')
    \<and> editor_lines (unat (height r)) e' ! row = [styled (ed_lines e ! cy e) theme_text]"
proof -
  let ?e' = "editor_scroll_to (unat (height r)) e"
  let ?col = "min (cx e) (unat (width r) - 1)" and ?row = "cy e - ed_scroll ?e'"
  have win: "ed_scroll ?e' \<le> cy e" "?row < unat (height r)"
    using editor_scroll_to_window [OF room(2), of e] by auto
  have x: "unat (rx r + of_nat ?col) = unat (rx r) + ?col"
    by (rule unat_add_inside) (use room in auto)
  have "of_nat (cy e) - of_nat (ed_scroll ?e') = (of_nat ?row :: u16)"
    using win(1) by simp
  then have y: "unat (ry r + (of_nat (cy e) - of_nat (ed_scroll ?e'))) = unat (ry r) + ?row"
    using unat_add_inside [OF win(2) room(4)] by simp
  have len: "?row < length (editor_lines (unat (height r)) ?e')"
    using win line by (simp add: editor_lines_def)
  then have "editor_lines (unat (height r)) ?e' ! ?row = [styled (ed_lines e ! cy e) theme_text]"
    using win line by (simp add: editor_lines_def)
  moreover have "?col < unat (width r)" using room(1) by auto
  moreover note x y win len
  moreover obtain ops where "render_editor env area e = Some (ops, ?e')"
    "SetCursor (rx r + of_nat ?col) (ry r + (of_nat (cy e) - of_nat (ed_scroll ?e'))) \<in> set ops"
    "DrawParagraph (paragraph_new (editor_lines (unat (height r)) ?e')) r \<in> set ops"
    using render_editor_eq [OF areas] by (metis list.set_intros)
  ultimately show ?thesis by (metis add_less_cancel_left le_add1)
qed

lemma editor_cursor_on_its_line_witness:
  "\<exists>ops e'. render_editor sample_renv \<lparr>rx = 0, ry = 0, width = 80, height = 24\<rparr>
      (editor_new [97] [97] [98, 10, 99]) = Some (ops, e')
    \<and> DrawParagraph (paragraph_new (editor_lines 20 e')) \<lparr>rx = 3, ry = 2, width = 74, height = 20\<rparr> \<in> set ops"
proof -
  let ?e = "editor_new [97] [97] [98, 10, 99]" and ?area = "\<lparr>rx = 0, ry = 0, width = 80, height = 24\<rparr> :: rect"
  let ?r = "\<lparr>rx = 3, ry = 2, width = 74, height = 20\<rparr> :: rect"
  have "editor_rect ?area = ?r" by (simp add: editor_rect_def centered_def)
  then have areas: "split_vertical (rd_layout sample_renv) [AtLeast 1, Fixed 1]
      (block_inner (rd_layout sample_renv) (editor_block ?e) (editor_rect ?area)) = [?r, ?r]"
    by (simp add: sample_renv_def sample_layout_def)
  have "0 < unat (width ?r)" "0 < unat (height ?r)" "unat (rx ?r) + unat (width ?r) < 2 ^ 16"
    "unat (ry ?r) + unat (height ?r) < 2 ^ 16" "cy ?e < length (ed_lines ?e)"
    by (simp_all add: editor_new_def)
  from editor_cursor_on_its_line [OF areas this] show ?thesis by fastforce
qed

section \<open>Rectangles\<close>

definition rect_inside :: "rect \<Rightarrow> rect \<Rightarrow> bool" where
  "rect_inside r area \<longleftrightarrow>
     unat (rx area) \<le> unat (rx r) \<and> unat (rx r) + unat (width r) \<le> unat (rx area) + unat (width area)
     \<and> unat (ry area) \<le> unat (ry r) \<and> unat (ry r) + unat (height r) \<le> unat (ry area) + unat (height area)"

definition screen :: "u16 \<Rightarrow> u16 \<Rightarrow> rect" where
  "screen w h = \<lparr>rx = 0, ry = 0, width = w, height = h\<rparr>"

text \<open>
  C39: the menu the program opens lies inside a terminal of more than 30 columns and more than 15
  rows, and on every smaller terminal it reaches beyond the last column or row: its size is limited
  to the screen's, but it is placed one column and one row off the corner.
\<close>

theorem menu_inside_iff:
  "rect_inside (menu_rect (screen w h) menu_new) (screen w h) \<longleftrightarrow> 30 < unat w \<and> 15 < unat h"
proof -
  have min: "unat (min c x) = min (unat c) (unat x)" for c x :: u16
    by (simp add: min_def word_le_nat_alt)
  have "unat (of_nat (length (entries menu_new)) + 2 :: u16) = 15"
    by (simp add: menu_new_def menu_entries_def)
  then show ?thesis
    by (auto simp: rect_inside_def menu_rect_def screen_def min)
qed

text \<open>A centred dialog never leaves the area it is centred in.\<close>

lemma centered_inside:
  assumes "unat (rx area) + unat (width area) < 2 ^ 16" "unat (ry area) + unat (height area) < 2 ^ 16"
  shows "rect_inside (centered w h area) area"
proof -
  have axis: "unat x \<le> unat (x + (s - min v s) div 2)
      \<and> unat (x + (s - min v s) div 2) + unat (min v s) \<le> unat x + unat s"
    if "unat x + unat s < 2 ^ 16" for x s v :: u16
  proof -
    have "min v s \<le> s" by simp
    then have le: "unat (min v s) \<le> unat s" by (simp only: word_le_nat_alt)
    have d: "unat ((s - min v s) div 2) = (unat s - unat (min v s)) div 2"
      using le by (simp add: unat_div unat_sub word_le_nat_alt)
    moreover have "unat (x + (s - min v s) div 2) = unat x + unat ((s - min v s) div 2)"
      using that d by (subst unat_add_lem [THEN iffD1]) simp_all
    ultimately show ?thesis using le by linarith
  qed
  show ?thesis
    using axis [OF assms(1), of w] axis [OF assms(2), of h]
    by (simp add: rect_inside_def centered_def Let_def)
qed

end
