(* ===== verification/System.thy ===== *)
theory System
  imports Embedded_Props App_Props Telemetry_Props Mock_Agent_Props
begin

text \<open>
  The console as a whole, in embedded mode (\<open>embedded.rs\<close>, function \<open>start\<close>, and the loop of \<open>run\<close>):
  the server's tasks, the translation task, the telemetry poll and the application, which share the
  server's handle and the UID map and communicate over the channel of control events. A step of the
  system is a step of one of them; the tasks interleave freely. The history variable \<open>sy_reports\<close>
  records the reports the connections have handed to the event channel; no step reads it.
\<close>

section \<open>State and steps\<close>

record system =
  sy_app :: "embedded app"
  sy_ctl :: "control_event chan"
  sy_translate :: "control_event option"       \<comment> \<open>the event \<open>translate\<close> waits to send\<close>
  sy_poll :: "rstring list \<times> control_event option" \<comment> \<open>the round's keys, and the event it waits to send\<close>
  sy_store :: telemetry_store
  sy_reports :: "(instance_uid \<times> agent_to_server) list"

record sysenv =
  se_deps :: deps
  se_offer :: "rstring option"
  se_fmt :: "f64 \<Rightarrow> rstring"
  se_lower :: "rstring \<Rightarrow> rstring"

definition sy_server :: "system \<Rightarrow> server" where
  "sy_server s = emb_server (control (sy_app s))"

definition sy_translator :: "system \<Rightarrow> translator" where
  "sy_translator s = emb_translator (control (sy_app s))"

definition set_server :: "server \<Rightarrow> system \<Rightarrow> system" where
  "set_server srv s = s\<lparr>sy_app := (sy_app s)\<lparr>control := (control (sy_app s))\<lparr>emb_server := srv\<rparr>\<rparr>\<rparr>"

definition set_translator :: "translator \<Rightarrow> system \<Rightarrow> system" where
  "set_translator tr s =
     s\<lparr>sy_app := (sy_app s)\<lparr>control := (control (sy_app s))\<lparr>emb_translator := tr\<rparr>\<rparr>\<rparr>"

text \<open>The endpoint that \<open>start\<close> has the server offer for the agents' own telemetry.\<close>

definition otlp_offer :: "rstring \<Rightarrow> rstring option" where
  "otlp_offer otlp_addr = Some (lit ''http://'' @ otlp_addr)"

text \<open>\<open>EmbeddedControlPlane::start\<close> on an address, and the application started on it.\<close>

definition system_start :: "deps \<Rightarrow> rstring \<Rightarrow> system" where
  "system_start d addr =
     \<lparr>sy_app = app_new (embedded_cp d)
        \<lparr>emb_addr = addr, emb_server = server_new, emb_translator = translator_new\<rparr>,
      sy_ctl = chan_new 256, sy_translate = None, sy_poll = ([], None), sy_store = store_new,
      sy_reports = []\<rparr>"

text \<open>The server's own steps: not the handle's, and not the consumer's. A generated UID has 16 bytes.\<close>

fun task_label :: "label \<Rightarrow> bool" where
  "task_label (LOffer u y) = False"
| "task_label (LRestart u) = False"
| "task_label LTake = False"
| "task_label (LRead i r fresh) = uid_ok fresh"
| "task_label _ = True"

text \<open>The report a step hands to the event channel.\<close>

fun surfaced :: "server \<Rightarrow> label \<Rightarrow> (instance_uid \<times> agent_to_server) list" where
  "surfaced srv (LEvent i) =
     (case conns srv i of
        Some c \<Rightarrow> (case c_phase c of SendEvent u m \<Rightarrow> [(u, m)] | _ \<Rightarrow> [])
      | None \<Rightarrow> [])"
| "surfaced srv _ = []"

text \<open>A key carries a \<open>char\<close>, which is a Unicode scalar value.\<close>

fun key_scalar :: "key_code \<Rightarrow> bool" where
  "key_scalar (KChar c) = scalar c"
| "key_scalar _ = True"

datatype sys_label =
    SServer label | STake instant instant | SForward | SPollStart | SPollRead | SPollSend
  | SExport export_request | SKey key_code | SReceive

inductive sys_step :: "sysenv \<Rightarrow> system \<Rightarrow> sys_label \<Rightarrow> system \<Rightarrow> bool" for env :: sysenv where
  server: "server_step (se_deps env) (se_offer env) (sy_server s) l srv \<Longrightarrow> task_label l \<Longrightarrow>
    sys_step env s (SServer l)
      ((set_server srv s)\<lparr>sy_reports := sy_reports s @ surfaced (sy_server s) l\<rparr>)"
| take: "sy_translate s = None \<Longrightarrow> chan_recv (events (sy_server s)) = Some (e, ev') \<Longrightarrow>
    translate (se_deps env) (se_fmt env) t0 t1 e (sy_translator s) = (ce, tr') \<Longrightarrow>
    sys_step env s (STake t0 t1)
      ((set_translator tr' (set_server ((sy_server s)\<lparr>events := ev'\<rparr>) s))\<lparr>sy_translate := Some ce\<rparr>)"
| forward: "sy_translate s = Some ce \<Longrightarrow> chan_try_send ce (sy_ctl s) = Some ctl' \<Longrightarrow>
    sys_step env s SForward (s\<lparr>sy_ctl := ctl', sy_translate := None\<rparr>)"
| poll_start: "sy_poll s = ([], None) \<Longrightarrow>
    sys_step env s SPollStart (s\<lparr>sy_poll := (store_keys (sy_store s), None)\<rparr>)"
| poll_read: "sy_poll s = (k # ks, None) \<Longrightarrow>
    sys_step env s SPollRead (s\<lparr>sy_poll :=
      (ks, map_option (\<lambda>agent. TelemetryEvent k (telemetry_snapshot_of agent)) (snapshot (sy_store s) k))\<rparr>)"
| poll_send: "sy_poll s = (ks, Some ce) \<Longrightarrow> chan_try_send ce (sy_ctl s) = Some ctl' \<Longrightarrow>
    sys_step env s SPollSend (s\<lparr>sy_ctl := ctl', sy_poll := (ks, None)\<rparr>)"
| export: "export (se_fmt env) req (sy_store s) = Some st' \<Longrightarrow>
    sys_step env s (SExport req) (s\<lparr>sy_store := st'\<rparr>)"
| key: "\<not> should_quit (sy_app s) \<Longrightarrow> key_scalar k \<Longrightarrow>
    handle_key (embedded_cp (se_deps env)) (se_lower env) k (sy_app s) = Some app' \<Longrightarrow>
    sys_step env s (SKey k) (s\<lparr>sy_app := app'\<rparr>)"
| receive: "\<not> should_quit (sy_app s) \<Longrightarrow> chan_recv (sy_ctl s) = Some (ce, ctl') \<Longrightarrow>
    sys_step env s SReceive (s\<lparr>sy_app := handle_control ce (sy_app s), sy_ctl := ctl'\<rparr>)"

lemma system_projections [simp]:
  "sy_server (set_server srv s) = srv" "sy_translator (set_server srv s) = sy_translator s"
  "sy_server (set_translator tr s) = sy_server s" "sy_translator (set_translator tr s) = tr"
  "sy_reports (set_server srv s) = sy_reports s" "sy_reports (set_translator tr s) = sy_reports s"
  "sy_ctl (set_server srv s) = sy_ctl s" "sy_ctl (set_translator tr s) = sy_ctl s"
  "sy_translate (set_server srv s) = sy_translate s" "sy_translate (set_translator tr s) = sy_translate s"
  "sy_poll (set_server srv s) = sy_poll s" "sy_poll (set_translator tr s) = sy_poll s"
  "agents (sy_app (set_server srv s)) = agents (sy_app s)"
  "agents (sy_app (set_translator tr s)) = agents (sy_app s)"
  "modal (sy_app (set_server srv s)) = modal (sy_app s)"
  "modal (sy_app (set_translator tr s)) = modal (sy_app s)"
  by (simp_all add: sy_server_def sy_translator_def set_server_def set_translator_def)

lemma system_updates [simp]:
  "sy_server (s\<lparr>sy_reports := r\<rparr>) = sy_server s" "sy_translator (s\<lparr>sy_reports := r\<rparr>) = sy_translator s"
  "sy_server (s\<lparr>sy_translate := t\<rparr>) = sy_server s" "sy_translator (s\<lparr>sy_translate := t\<rparr>) = sy_translator s"
  "sy_server (s\<lparr>sy_ctl := c\<rparr>) = sy_server s" "sy_translator (s\<lparr>sy_ctl := c\<rparr>) = sy_translator s"
  "sy_server (s\<lparr>sy_poll := p\<rparr>) = sy_server s" "sy_translator (s\<lparr>sy_poll := p\<rparr>) = sy_translator s"
  "sy_server (s\<lparr>sy_store := st\<rparr>) = sy_server s" "sy_translator (s\<lparr>sy_store := st\<rparr>) = sy_translator s"
  "sy_server (s\<lparr>sy_app := app\<rparr>) = emb_server (control app)"
  "sy_translator (s\<lparr>sy_app := app\<rparr>) = emb_translator (control app)"
  by (simp_all add: sy_server_def sy_translator_def)

section \<open>What was reported, and what it permits\<close>

type_synonym reports = "(instance_uid \<times> agent_to_server) set"

text \<open>A report under this UID advertised the capability.\<close>

definition granted :: "reports \<Rightarrow> instance_uid \<Rightarrow> agent_capability \<Rightarrow> bool" where
  "granted R u cap \<longleftrightarrow> (\<exists>m. (u, m) \<in> R \<and> agent_has (a2s_capabilities m) cap)"

definition text_ok :: "rstring \<Rightarrow> bool" where
  "text_ok s \<longleftrightarrow> list_all scalar s"

definition view_ok :: "deps \<Rightarrow> reports \<Rightarrow> agent_detail \<Rightarrow> bool" where
  "view_ok d R a \<longleftrightarrow> text_ok (ad_effective_config a)
     \<and> (\<exists>u. uid_ok u \<and> ad_uid a = uid_to_string d u
          \<and> (agent_supports a (lit ''AcceptsRemoteConfig'') \<longrightarrow> granted R u AcceptsRemoteConfig)
          \<and> (agent_supports a (lit ''AcceptsRestartCommand'') \<longrightarrow> granted R u AcceptsRestartCommand))"

fun control_ok :: "deps \<Rightarrow> reports \<Rightarrow> control_event \<Rightarrow> bool" where
  "control_ok d R (AgentUpserted a) = view_ok d R a"
| "control_ok d R _ = True"

fun report_ok :: "reports \<Rightarrow> opamp_event \<Rightarrow> bool" where
  "report_ok R (Message u m) \<longleftrightarrow> uid_ok u \<and> (u, m) \<in> R"
| "report_ok R (Disconnected u) \<longleftrightarrow> uid_ok u"

definition target_ok :: "deps \<Rightarrow> reports \<Rightarrow> agent_capability \<Rightarrow> rstring \<Rightarrow> bool" where
  "target_ok d R cap k \<longleftrightarrow> (\<exists>u. uid_ok u \<and> k = uid_to_string d u \<and> granted R u cap)"

definition editing_ok :: "deps \<Rightarrow> reports \<Rightarrow> editor \<Rightarrow> bool" where
  "editing_ok d R e \<longleftrightarrow> target_ok d R AcceptsRemoteConfig (ed_uid e) \<and> ed_chars scalar e"

text \<open>A message on its way to the agent \<open>cu\<close>.\<close>

definition msg_ok :: "deps \<Rightarrow> reports \<Rightarrow> instance_uid option \<Rightarrow> server_to_agent \<Rightarrow> bool" where
  "msg_ok d R cu m \<longleftrightarrow>
     (s2a_remote_config m \<noteq> None \<longrightarrow>
        (\<exists>u yaml. cu = Some u \<and> granted R u AcceptsRemoteConfig \<and> text_ok yaml \<and> m = config_offer d u yaml))
     \<and> (s2a_command m \<noteq> None \<longrightarrow>
        (\<exists>u. cu = Some u \<and> granted R u AcceptsRestartCommand \<and> m = restart_command u))"

fun phase_msgs :: "phase \<Rightarrow> server_to_agent list" where
  "phase_msgs (SendReply m closing) = [m]"
| "phase_msgs (SendPush m) = [m]"
| "phase_msgs _ = []"

fun out_msgs :: "out_msg list \<Rightarrow> server_to_agent list" where
  "out_msgs [] = []"
| "out_msgs (OutMsg m # ws) = m # out_msgs ws"
| "out_msgs (OutPong p # ws) = out_msgs ws"

text \<open>The messages queued for, being written to, and written to a connection's socket.\<close>

definition conn_msgs :: "conn \<Rightarrow> server_to_agent list" where
  "conn_msgs c = ch_buf (c_push c) @ phase_msgs (c_phase c) @ out_msgs (c_out c)"

fun phase_uid_ok :: "phase \<Rightarrow> bool" where
  "phase_uid_ok (SendEvent u m) = uid_ok u"
| "phase_uid_ok (SendGone u) = uid_ok u"
| "phase_uid_ok _ = True"

definition conn_ok :: "deps \<Rightarrow> reports \<Rightarrow> conn \<Rightarrow> bool" where
  "conn_ok d R c \<longleftrightarrow> list_all (msg_ok d R (c_uid c)) (conn_msgs c)
     \<and> (\<forall>u. c_uid c = Some u \<longrightarrow> uid_ok u) \<and> phase_uid_ok (c_phase c)"

definition srv_ok :: "deps \<Rightarrow> reports \<Rightarrow> server \<Rightarrow> bool" where
  "srv_ok d R srv \<longleftrightarrow> server_inv srv
     \<and> (\<forall>i c. conns srv i = Some c \<longrightarrow> conn_ok d R c)
     \<and> list_all (report_ok R) (ch_buf (events srv))"

definition tr_ok :: "deps \<Rightarrow> reports \<Rightarrow> translator \<Rightarrow> bool" where
  "tr_ok d R tr \<longleftrightarrow> translator_inv d tr
     \<and> (\<forall>u a. hm_get (details tr) u = Some a \<longrightarrow> view_ok d R a)"

definition reports_of :: "system \<Rightarrow> reports" where
  "reports_of s = set (sy_reports s)"

definition sys_inv :: "deps \<Rightarrow> system \<Rightarrow> bool" where
  "sys_inv d s \<longleftrightarrow>
     srv_ok d (reports_of s) (sy_server s) \<and> tr_ok d (reports_of s) (sy_translator s)
     \<and> list_all (control_ok d (reports_of s)) (ch_buf (sy_ctl s))
     \<and> (case sy_translate s of None \<Rightarrow> True | Some ce \<Rightarrow> control_ok d (reports_of s) ce)
     \<and> (case snd (sy_poll s) of None \<Rightarrow> True | Some ce \<Rightarrow> control_ok d (reports_of s) ce)
     \<and> app_inv (sy_app s) \<and> fleet_all (view_ok d (reports_of s)) (agents (sy_app s))
     \<and> dialog_ok (editing_ok d (reports_of s)) (target_ok d (reports_of s) AcceptsRestartCommand)
         (modal (sy_app s))"

end
