(* ===== verification/System_Props.thy ===== *)
theory System_Props
  imports System
begin

text \<open>
  What holds of the console as a whole, in every interleaving of its tasks: an offer or a restart
  on any connection goes to an agent that itself reported the capability for it, and every text the
  console holds or sends is a proper string, so that an agent reads an offer as the text that was
  pushed.
\<close>

section \<open>More reports permit more\<close>

lemma granted_mono: "granted R u cap \<Longrightarrow> R \<subseteq> R' \<Longrightarrow> granted R' u cap"
  by (auto simp: granted_def)

lemma view_ok_mono: "view_ok d R a \<Longrightarrow> R \<subseteq> R' \<Longrightarrow> view_ok d R' a"
  unfolding view_ok_def by (blast intro: granted_mono)

lemma control_ok_mono: "control_ok d R ce \<Longrightarrow> R \<subseteq> R' \<Longrightarrow> control_ok d R' ce"
  by (cases ce) (auto intro: view_ok_mono)

lemma report_ok_mono: "report_ok R e \<Longrightarrow> R \<subseteq> R' \<Longrightarrow> report_ok R' e"
  by (cases e) auto

lemma target_ok_mono: "target_ok d R cap k \<Longrightarrow> R \<subseteq> R' \<Longrightarrow> target_ok d R' cap k"
  unfolding target_ok_def by (blast intro: granted_mono)

lemma editing_ok_mono: "editing_ok d R e \<Longrightarrow> R \<subseteq> R' \<Longrightarrow> editing_ok d R' e"
  by (auto simp: editing_ok_def intro: target_ok_mono)

lemma dialog_ok_mono:
  "dialog_ok P Q m \<Longrightarrow> (\<And>e. P e \<Longrightarrow> P' e) \<Longrightarrow> (\<And>u. Q u \<Longrightarrow> Q' u) \<Longrightarrow> dialog_ok P' Q' m"
  by (cases "(P, Q, m)" rule: dialog_ok.cases) auto

lemma msg_ok_mono: "msg_ok d R cu m \<Longrightarrow> R \<subseteq> R' \<Longrightarrow> msg_ok d R' cu m"
  unfolding msg_ok_def by (blast intro: granted_mono)

lemma conn_ok_mono: "conn_ok d R c \<Longrightarrow> R \<subseteq> R' \<Longrightarrow> conn_ok d R' c"
  unfolding conn_ok_def by (auto simp: list_all_iff intro: msg_ok_mono)

lemma srv_ok_mono: "srv_ok d R srv \<Longrightarrow> R \<subseteq> R' \<Longrightarrow> srv_ok d R' srv"
  unfolding srv_ok_def by (auto simp: list_all_iff intro: conn_ok_mono report_ok_mono)

lemma tr_ok_mono: "tr_ok d R tr \<Longrightarrow> R \<subseteq> R' \<Longrightarrow> tr_ok d R' tr"
  unfolding tr_ok_def by (blast intro: view_ok_mono)

section \<open>The server's steps\<close>

lemma msg_ok_plain:
  "s2a_remote_config m = None \<Longrightarrow> s2a_command m = None \<Longrightarrow> msg_ok d R cu m"
  by (simp add: msg_ok_def)

lemma msg_ok_named: "msg_ok d R None m \<Longrightarrow> msg_ok d R cu m"
  by (auto simp: msg_ok_def)

lemma srv_ok_set_conn:
  assumes "srv_ok d R srv" "server_inv srv'" "conns srv' = (conns srv)(i \<mapsto> c')" "conn_ok d R c'"
    and "list_all (report_ok R) (ch_buf (events srv'))"
  shows "srv_ok d R srv'"
  using assms by (auto simp: srv_ok_def split: if_splits)

lemma out_msgs_append [simp]: "out_msgs (xs @ ys) = out_msgs xs @ out_msgs ys"
  by (induction xs rule: out_msgs.induct) simp_all

lemma conn_ok_fewer:
  assumes "conn_ok d R c" "c_uid c' = c_uid c" "set (conn_msgs c') \<subseteq> set (conn_msgs c)"
    and "phase_uid_ok (c_phase c')"
  shows "conn_ok d R c'"
  using assms by (auto simp: conn_ok_def list_all_iff)

lemma conn_ok_new: "conn_ok d R conn_new"
  by (simp add: conn_ok_def conn_new_def conn_msgs_def)

lemma conn_ok_finish: "conn_ok d R c \<Longrightarrow> conn_ok d R (finish r c)"
  by (rule conn_ok_fewer) (auto simp: finish_def conn_msgs_def)

lemma conn_ok_after_event:
  "conn_ok d R c \<Longrightarrow> conn_ok d R (after_event offer uid a2s c)"
  by (auto simp: conn_ok_def after_event_def conn_msgs_def Let_def msg_ok_plain)

lemma after_write_msgs:
  assumes "after_write (c_phase c) c = Some c'"
  shows "c_uid c' = c_uid c \<and> set (conn_msgs c') \<subseteq> set (conn_msgs c) \<and> phase_uid_ok (c_phase c')"
proof (cases "c_phase c")
  case (SendReply m closing)
  with assms show ?thesis by (cases closing) (simp_all add: conn_msgs_def, force+)
next
  case (SendPong p)
  with assms show ?thesis by (simp add: conn_msgs_def) force
next
  case (SendPush m)
  with assms show ?thesis by (simp add: conn_msgs_def) force
qed (use assms in simp_all)

lemma conn_ok_after_write:
  "conn_ok d R c \<Longrightarrow> after_write (c_phase c) c = Some c' \<Longrightarrow> conn_ok d R c'"
  using after_write_msgs conn_ok_fewer by blast

lemma conn_ok_push_recv:
  assumes "conn_ok d R c" "chan_recv (c_push c) = Some (m, ch')"
  shows "conn_ok d R (c\<lparr>c_phase := SendPush m, c_push := ch'\<rparr>)"
  by (rule conn_ok_fewer [OF assms(1)]) (use chan_recv_buf [OF assms(2)] in \<open>auto simp: conn_msgs_def\<close>)

lemma on_read_uid:
  assumes "on_read d fresh i r (reg, c) = (reg', c')" "c_phase c' = SendEvent u m"
    and "c_phase c = Select" "uid_ok fresh"
  shows "uid_ok u"
proof -
  have "uid_ok (case from_bytes bs of Some u \<Rightarrow> u | None \<Rightarrow> fresh)" for bs
    using assms(4) by (auto simp: from_bytes_def uid_ok_def)
  moreover obtain data a2s where "r = ReadOk (WsBinary data)" "framing_decode d (d_decode_a2s d) data = Inr a2s"
  proof (cases r)
    case (ReadOk w)
    with assms that show thesis
      by (cases w; cases "framing_decode d (d_decode_a2s d) (case w of WsBinary data \<Rightarrow> data)") auto
  qed (use assms in \<open>auto simp: finish_def\<close>)
  ultimately show ?thesis using assms(1,2) by (auto simp: Let_def split: if_splits)
qed

lemma conn_ok_read:
  assumes "conn_ok d R c" "uid_ok fresh" "c_phase c = Select"
    and "on_read d' fresh i r (reg, c) = (reg', c')"
  shows "conn_ok d R c'"
  using assms(4)
proof (cases rule: on_read_cases)
  case (quiet p)
  then show ?thesis
    using assms(3) by (intro conn_ok_fewer [OF assms(1)]) (auto simp: conn_msgs_def)
next
  case (failed e)
  with assms(1) show ?thesis by (simp add: conn_ok_finish)
next
  case (named u a2s)
  have "uid_ok u" by (rule on_read_uid [OF assms(4) _ assms(3,2)]) (simp add: named)
  then show ?thesis
    using named by (intro conn_ok_fewer [OF assms(1)]) (auto simp: conn_msgs_def)
next
  case (first u a2s)
  have "uid_ok u" by (rule on_read_uid [OF assms(4) _ assms(3,2)]) (simp add: first)
  then show ?thesis
    using assms(1,3) first
    by (auto simp: conn_ok_def conn_msgs_def list_all_iff intro: msg_ok_named)
qed

lemma srv_okD:
  assumes "srv_ok d R srv"
  shows "server_inv srv" "conns srv i = Some c \<Longrightarrow> conn_ok d R c" "list_all (report_ok R) (ch_buf (events srv))"
  using assms by (auto simp: srv_ok_def)

lemma srv_ok_task_step:
  assumes step: "server_step d' offer srv l srv'" and l: "task_label l" and ok: "srv_ok d R srv"
  shows "srv_ok d (R \<union> set (surfaced srv l)) srv'"
proof -
  note inv = server_inv_step [OF srv_okD(1) [OF ok] step]
  note evs = srv_okD(3) [OF ok]
  have update: "srv_ok d R srv'"
    if "conns srv' = (conns srv)(i \<mapsto> c')" "conn_ok d R c'" "events srv' = events srv" for i c'
    using srv_ok_set_conn [OF ok inv that(1,2)] evs that(3) by simp
  show ?thesis
    using step l
  proof cases
    case (accept i)
    then show ?thesis using update [of i conn_new] conn_ok_new by simp
  next
    case (handshake_ok i c)
    then show ?thesis
      using update [of i "c\<lparr>c_phase := Select\<rparr>"] conn_ok_fewer [OF srv_okD(2) [OF ok], of i c "c\<lparr>c_phase := Select\<rparr>"]
      by (simp add: conn_msgs_def)
  next
    case (handshake_err i c e)
    then show ?thesis
      using update [of i] conn_ok_finish [OF srv_okD(2) [OF ok]] by simp
  next
    case (read i c fresh r reg' c')
    have "conn_ok d R c'"
      by (rule conn_ok_read [OF srv_okD(2) [OF ok] _ _ read(5)]) (use read l in simp_all)
    with read show ?thesis using update [of i c'] by simp
  next
    case (event_sent i c uid a2s ev')
    let ?R = "R \<union> set (surfaced srv l)"
    have sub: "R \<subseteq> ?R" by simp
    have c: "conn_ok d R c" using srv_okD(2) [OF ok] event_sent by blast
    then have "uid_ok uid" using event_sent(4) by (simp add: conn_ok_def)
    moreover have "(uid, a2s) \<in> ?R" using event_sent by simp
    moreover have "list_all (report_ok ?R) (ch_buf (events srv))"
      using evs report_ok_mono [OF _ sub] by (auto simp: list_all_iff)
    ultimately have "list_all (report_ok ?R) (ch_buf ev')"
      using chan_try_send_buf [OF event_sent(5)] by simp
    with event_sent show ?thesis
      by (intro srv_ok_set_conn [OF srv_ok_mono [OF ok sub] inv, of i "after_event offer uid a2s c"]
          conn_ok_after_event conn_ok_mono [OF c sub]) simp_all
  next
    case (wrote i c c')
    then show ?thesis
      using update [of i c'] conn_ok_after_write [OF srv_okD(2) [OF ok]] by simp
  next
    case (write_err i c e err)
    then show ?thesis
      using update [of i] conn_ok_finish [OF srv_okD(2) [OF ok]] by simp
  next
    case (push_recv i c m ch')
    then show ?thesis
      using update [of i] conn_ok_push_recv [OF srv_okD(2) [OF ok]] by simp
  next
    case (deregister i c uid)
    have c: "conn_ok d R c" using srv_okD(2) [OF ok] deregister by blast
    then have "conn_ok d R (c\<lparr>c_phase := SendGone uid\<rparr>)"
      using deregister by (intro conn_ok_fewer [OF c]) (auto simp: conn_msgs_def conn_ok_def)
    with deregister show ?thesis using update [of i] by simp
  next
    case (unnamed i c)
    then show ?thesis
      using update [of i] conn_ok_finish [OF srv_okD(2) [OF ok]] by simp
  next
    case (gone i c uid ev')
    have c: "conn_ok d R c" using srv_okD(2) [OF ok] gone by blast
    then have "uid_ok uid" using gone by (simp add: conn_ok_def)
    then have "list_all (report_ok R) (ch_buf ev')"
      using evs chan_try_send_buf [OF gone(5)] by simp
    with gone c show ?thesis
      using srv_ok_set_conn [OF ok inv, of i "finish (Inr ()) c"] conn_ok_finish [OF c] by simp
  qed simp_all
qed

lemma srv_ok_push:
  assumes ok: "srv_ok d R srv" and msg: "msg_ok d R (Some u) m"
    and push: "handle_push u m srv = (res, srv')" and inv: "server_inv srv'"
  shows "srv_ok d R srv'"
proof (cases "srv' = srv")
  case False
  then obtain i c ch where i: "hm_get (registry srv) u = Some i" and c: "conns srv i = Some c"
    and ch: "chan_try_send m (c_push c) = Some ch"
    and srv': "srv' = srv\<lparr>conns := (conns srv)(i \<mapsto> c\<lparr>c_push := ch\<rparr>)\<rparr>"
    using push by (auto simp: handle_push_def registry_sender_def split: option.splits)
  have "c_uid c = Some u" using server_inv_route [OF srv_okD(1) [OF ok] i] c by auto
  moreover have "conn_ok d R c" using srv_okD(2) [OF ok c] .
  ultimately have "conn_ok d R (c\<lparr>c_push := ch\<rparr>)"
    using msg chan_try_send_buf [OF ch] by (auto simp: conn_ok_def conn_msgs_def)
  then show ?thesis
    using srv_ok_set_conn [OF ok inv, of i] srv_okD(3) [OF ok] by (simp add: srv')
qed (use ok in simp)

lemma srv_ok_offer:
  assumes "srv_ok d R srv" "granted R u AcceptsRemoteConfig" "text_ok yaml"
    and "offer_remote_config d u yaml srv = (res, srv')"
  shows "srv_ok d R srv'"
proof -
  obtain r where "handle_push u (config_offer d u yaml) srv = (r, srv')"
    using offer_remote_config_push [OF assms(4)] by blast
  moreover have "msg_ok d R (Some u) (config_offer d u yaml)"
    using assms(2,3) by (auto simp: msg_ok_def config_offer_def server_to_agent_default_def)
  ultimately show ?thesis
    using srv_ok_push [OF assms(1)] offer_inv [OF srv_okD(1) [OF assms(1)] assms(4)] by blast
qed

lemma srv_ok_restart:
  assumes "srv_ok d R srv" "granted R u AcceptsRestartCommand" "send_restart u srv = (res, srv')"
  shows "srv_ok d R srv'"
proof -
  have "msg_ok d R (Some u) (restart_command u)"
    using assms(2) by (auto simp: msg_ok_def restart_command_def server_to_agent_default_def)
  then show ?thesis
    using srv_ok_push [OF assms(1), of u "restart_command u"] assms(3)
      restart_inv [OF srv_okD(1) [OF assms(1)] assms(3)]
    by (simp add: send_restart_def)
qed

section \<open>Translation\<close>

lemma text_ok_extract: "text_ok (extract_config e)"
proof -
  have "list_all (list_all scalar) ls \<Longrightarrow> list_all scalar (join config_separator ls)" for ls
    by (induction config_separator ls rule: join.induct) (auto simp: config_separator_def scalar_def lit_def)
  moreover have "list_all (list_all scalar) (map (\<lambda>(_, f). from_utf8_lossy (body f)) m)"
    for m :: agent_config_map
    by (auto simp: list_all_iff from_utf8_lossy_scalar [unfolded list_all_iff] split: prod.split)
  ultimately show ?thesis
    by (simp add: text_ok_def extract_config_def from_utf8_lossy_scalar split: option.split)
qed

lemma supports_described:
  assumes "ad_capabilities a = describe caps"
  shows "agent_supports a (lit ''AcceptsRemoteConfig'') \<Longrightarrow> agent_has caps AcceptsRemoteConfig"
    and "agent_supports a (lit ''AcceptsRestartCommand'') \<Longrightarrow> agent_has caps AcceptsRestartCommand"
  using assms by (auto simp: agent_supports_def describe_def described_capabilities_def)

lemma view_ok_merge:
  assumes "text_ok (ad_effective_config a)" "ad_uid a = uid_to_string d u" "uid_ok u" "(u, m) \<in> R"
  shows "view_ok d R (merge fmt t m a)"
proof -
  have "text_ok (ad_effective_config (merge fmt t m a))"
    using assms(1) text_ok_extract by (simp split: option.split)
  moreover have "agent_supports (merge fmt t m a) (lit ''AcceptsRemoteConfig'') \<Longrightarrow> granted R u AcceptsRemoteConfig"
    "agent_supports (merge fmt t m a) (lit ''AcceptsRestartCommand'') \<Longrightarrow> granted R u AcceptsRestartCommand"
    using assms(4) supports_described [of "merge fmt t m a" "a2s_capabilities m"] by (auto simp: granted_def)
  ultimately show ?thesis
    using assms(2,3) unfolding view_ok_def by auto
qed

lemma tr_ok_translate:
  assumes "tr_ok d R tr" "report_ok R e" "display_ok d"
    and "translate d fmt t0 t1 e tr = (ce, tr')"
  shows "tr_ok d R tr' \<and> control_ok d R ce"
proof -
  have "uid_ok (event_uid e)" using assms(2) by (cases e) simp_all
  then have inv: "translator_inv d tr'"
    using translate_inv [of d tr e fmt t0 t1] assms by (simp add: tr_ok_def)
  show ?thesis
  proof (cases e)
    case (Message u m)
    let ?a = "case hm_get (details tr) u of Some a \<Rightarrow> a | None \<Rightarrow> agent_detail_new t0 (uid_to_string d u)"
    have "text_ok (ad_effective_config ?a)" "ad_uid ?a = uid_to_string d u"
      using assms(1) by (auto simp: tr_ok_def translator_inv_def view_ok_def agent_detail_new_def text_ok_def
          split: option.split)
    then have "view_ok d R (merge fmt t1 m ?a)"
      by (rule view_ok_merge) (use assms(2) Message in simp_all)
    with assms(1,4) inv Message show ?thesis by (auto simp: tr_ok_def Let_def split: if_splits)
  next
    case (Disconnected u)
    with assms(1,4) inv show ?thesis by (auto simp: tr_ok_def Let_def split: if_splits)
  qed
qed

section \<open>Keys\<close>

lemma view_ok_grants:
  assumes "view_ok d R a"
  shows "agent_grants (editing_ok d R) (target_ok d R AcceptsRestartCommand) a"
proof -
  obtain u where u: "uid_ok u" "ad_uid a = uid_to_string d u"
    "agent_supports a (lit ''AcceptsRemoteConfig'') \<longrightarrow> granted R u AcceptsRemoteConfig"
    "agent_supports a (lit ''AcceptsRestartCommand'') \<longrightarrow> granted R u AcceptsRestartCommand"
    using assms by (auto simp: view_ok_def)
  have "ed_chars scalar (editor_new (ad_uid a) (ad_name a) (ad_effective_config a))"
    using assms by (intro editor_new_chars) (simp add: view_ok_def text_ok_def)
  moreover have "ed_uid (editor_new (ad_uid a) (ad_name a) (ad_effective_config a)) = ad_uid a"
    by (simp add: editor_new_def)
  ultimately show ?thesis
    using u unfolding agent_grants_def editing_ok_def target_ok_def by auto
qed

lemma fleet_grants:
  "fleet_all (view_ok d R) ags \<Longrightarrow>
     fleet_all (agent_grants (editing_ok d R) (target_ok d R AcceptsRestartCommand)) ags"
  by (auto simp: fleet_all_def view_ok_grants)

lemma editing_ok_key:
  assumes "key_scalar k" "editing_ok d R e" "editor_key k e = Some e'"
  shows "editing_ok d R e'"
proof -
  have "ed_chars scalar e'"
    by (rule editor_key_chars [of scalar e k]) (use assms in \<open>auto simp: editing_ok_def\<close>)
  with assms(2) editor_key_uid [OF assms(3)] show ?thesis by (simp add: editing_ok_def)
qed

text \<open>The UID a command is routed to is the one its target was displayed with.\<close>

lemma target_routed:
  assumes "tr_ok d R tr" "display_ok d" "target_ok d R cap k" "hm_get (uids tr) k = Some u"
  shows "granted R u cap"
proof -
  obtain v where v: "uid_ok v" "k = uid_to_string d v" "granted R v cap"
    using assms(3) by (auto simp: target_ok_def)
  have "k = uid_to_string d u" "uid_ok u"
    using assms(1,4) by (auto simp: tr_ok_def translator_inv_def)
  with v uid_to_string_eq [OF assms(2)] show ?thesis by metis
qed

lemma push_effect:
  assumes "srv_ok d R (emb_server c)" "tr_ok d R (emb_translator c)" "display_ok d"
    and "target_ok d R AcceptsRemoteConfig k" "text_ok yaml"
  shows "srv_ok d R (emb_server (snd (embedded_push_config d k yaml c)))
    \<and> emb_translator (snd (embedded_push_config d k yaml c)) = emb_translator c"
proof (cases "hm_get (uids (emb_translator c)) k")
  case (Some u)
  have "granted R u AcceptsRemoteConfig"
    using target_routed [OF assms(2,3,4) Some] .
  then show ?thesis
    using Some srv_ok_offer [OF assms(1) _ assms(5), of u]
    by (auto simp: embedded_push_config_def split: prod.split sum.split)
qed (use assms(1) in \<open>simp add: embedded_push_config_def\<close>)

lemma restart_effect:
  assumes "srv_ok d R (emb_server c)" "tr_ok d R (emb_translator c)" "display_ok d"
    and "target_ok d R AcceptsRestartCommand k"
  shows "srv_ok d R (emb_server (snd (embedded_restart k c)))
    \<and> emb_translator (snd (embedded_restart k c)) = emb_translator c"
proof (cases "hm_get (uids (emb_translator c)) k")
  case (Some u)
  have "granted R u AcceptsRestartCommand"
    using target_routed [OF assms(2,3,4) Some] .
  then show ?thesis
    using Some srv_ok_restart [OF assms(1), of u]
    by (auto simp: embedded_restart_def split: prod.split sum.split)
qed (use assms(1) in \<open>simp add: embedded_restart_def\<close>)

lemma control_effect_ok:
  assumes "srv_ok d R (emb_server (control app))" "tr_ok d R (emb_translator (control app))" "display_ok d"
    and "dialog_ok (editing_ok d R) (target_ok d R AcceptsRestartCommand) (modal app)"
    and "control_effect (embedded_cp d) app c"
  shows "srv_ok d R (emb_server c) \<and> tr_ok d R (emb_translator c)"
proof -
  have nl: "scalar nl" by (simp add: scalar_def)
  consider "c = control app"
    | e where "modal app = Some (ModalEditor e)"
        "c = snd (embedded_push_config d (ed_uid e) (editor_text e) (control app))"
    | t b uid where "modal app = Some (Confirm t b uid)" "c = snd (embedded_restart uid (control app))"
    using assms(5) by (auto simp: control_effect_def embedded_cp_def)
  then show ?thesis
  proof cases
    case (2 e)
    then have "target_ok d R AcceptsRemoteConfig (ed_uid e)" "text_ok (editor_text e)"
      using assms(4) editor_text_chars [of scalar e, OF _ nl] by (simp_all add: editing_ok_def text_ok_def)
    with push_effect [OF assms(1-3), of "ed_uid e" "editor_text e"] 2 assms(2) show ?thesis by simp
  next
    case (3 t b uid)
    with assms(4) have "target_ok d R AcceptsRestartCommand uid" by simp
    with restart_effect [OF assms(1-3), of uid] 3 assms(2) show ?thesis by simp
  qed (use assms in simp)
qed

section \<open>The whole system\<close>

lemma sys_inv_start: "sys_inv d (system_start d addr)"
proof -
  have "srv_ok d {} server_new"
    using server_inv_init by (simp add: srv_ok_def) (simp add: server_new_def)
  moreover have "tr_ok d {} translator_new"
    using translator_inv_new by (simp add: tr_ok_def) (simp add: translator_new_def)
  ultimately show ?thesis
    by (simp add: sys_inv_def system_start_def reports_of_def app_inv_new sy_server_def sy_translator_def)
      (simp add: app_new_def fleet_all_def)
qed

lemma reports_of_simps [simp]:
  "reports_of (s\<lparr>sy_app := app\<rparr>) = reports_of s" "reports_of (s\<lparr>sy_ctl := ctl\<rparr>) = reports_of s"
  "reports_of (s\<lparr>sy_translate := t\<rparr>) = reports_of s" "reports_of (s\<lparr>sy_poll := p\<rparr>) = reports_of s"
  "reports_of (s\<lparr>sy_store := st\<rparr>) = reports_of s"
  "reports_of (set_server srv s) = reports_of s" "reports_of (set_translator tr s) = reports_of s"
  by (simp_all add: reports_of_def)

lemma sys_inv_reports:
  assumes "R \<subseteq> R'"
  shows "list_all (control_ok d R) ces \<Longrightarrow> list_all (control_ok d R') ces"
    and "fleet_all (view_ok d R) ags \<Longrightarrow> fleet_all (view_ok d R') ags"
    and "dialog_ok (editing_ok d R) (target_ok d R cap) m \<Longrightarrow> dialog_ok (editing_ok d R') (target_ok d R' cap) m"
proof -
  show "list_all (control_ok d R) ces \<Longrightarrow> list_all (control_ok d R') ces"
    using control_ok_mono [OF _ assms] by (auto simp: list_all_iff)
  show "fleet_all (view_ok d R) ags \<Longrightarrow> fleet_all (view_ok d R') ags"
    using view_ok_mono [OF _ assms] by (auto simp: fleet_all_def)
  show "dialog_ok (editing_ok d R) (target_ok d R cap) m \<Longrightarrow> dialog_ok (editing_ok d R') (target_ok d R' cap) m"
    by (erule dialog_ok_mono) (erule editing_ok_mono [OF _ assms] target_ok_mono [OF _ assms])+
qed

lemma app_inv_same: "app_inv app \<Longrightarrow> app_inv (app\<lparr>control := c\<rparr>)"
  by (simp add: app_inv_def)

lemma sys_inv_server:
  assumes inv: "sys_inv d s" and step: "server_step d offer (sy_server s) l srv" and l: "task_label l"
  shows "sys_inv d ((set_server srv s)\<lparr>sy_reports := sy_reports s @ surfaced (sy_server s) l\<rparr>)"
proof -
  let ?t = "(set_server srv s)\<lparr>sy_reports := sy_reports s @ surfaced (sy_server s) l\<rparr>"
  let ?R = "reports_of s" and ?R' = "reports_of s \<union> set (surfaced (sy_server s) l)"
  have R: "reports_of ?t = ?R'" by (simp add: reports_of_def)
  have sub: "?R \<subseteq> ?R'" by simp
  note i = inv [unfolded sys_inv_def]
  have app: "app_inv (sy_app ?t)" using i by (simp add: set_server_def app_inv_same)
  have "srv_ok d ?R' srv" by (rule srv_ok_task_step [OF step l]) (use i in simp)
  moreover have "tr_ok d ?R' (sy_translator s)" by (rule tr_ok_mono [OF _ sub]) (use i in simp)
  moreover have "case sy_translate s of None \<Rightarrow> True | Some ce \<Rightarrow> control_ok d ?R' ce"
    "case snd (sy_poll s) of None \<Rightarrow> True | Some ce \<Rightarrow> control_ok d ?R' ce"
    using i control_ok_mono [OF _ sub] by (auto split: option.splits)
  ultimately show ?thesis
    using i app sys_inv_reports [OF sub, of d] unfolding sys_inv_def R by simp
qed

lemma sys_inv_take:
  assumes inv: "sys_inv d s" and d: "display_ok d"
    and recv: "chan_recv (events (sy_server s)) = Some (e, ev')"
    and tr: "translate d fmt t0 t1 e (sy_translator s) = (ce, tr')"
  shows "sys_inv d ((set_translator tr' (set_server ((sy_server s)\<lparr>events := ev'\<rparr>) s))\<lparr>sy_translate := Some ce\<rparr>)"
    (is "sys_inv d ?t")
proof -
  note i = inv [unfolded sys_inv_def]
  have R: "reports_of ?t = reports_of s" by (simp add: reports_of_def)
  have app: "app_inv (sy_app ?t)"
    using i by (simp add: set_server_def set_translator_def app_inv_same)
  have ok: "srv_ok d (reports_of s) (sy_server s)" using i by simp
  have buf: "ch_buf (events (sy_server s)) = e # ch_buf ev'" using chan_recv_buf [OF recv] .
  have "report_ok (reports_of s) e" using srv_okD(3) [OF ok] buf by simp
  then have "tr_ok d (reports_of s) tr' \<and> control_ok d (reports_of s) ce"
    using tr_ok_translate [OF _ _ d tr] i by simp
  moreover have "server_inv ((sy_server s)\<lparr>events := ev'\<rparr>)"
    using server_inv_step [OF srv_okD(1) [OF ok] server_step.take [OF recv]] .
  then have "srv_ok d (reports_of s) ((sy_server s)\<lparr>events := ev'\<rparr>)"
    using ok buf by (simp add: srv_ok_def)
  ultimately show ?thesis
    using i app unfolding sys_inv_def R by simp
qed

lemma sys_inv_key:
  assumes inv: "sys_inv d s" and d: "display_ok d" and k: "key_scalar k"
    and step: "handle_key (embedded_cp d) lower k (sy_app s) = Some app'"
  shows "sys_inv d (s\<lparr>sy_app := app'\<rparr>)"
proof -
  note i = inv [unfolded sys_inv_def]
  have R: "reports_of (s\<lparr>sy_app := app'\<rparr>) = reports_of s" by (simp add: reports_of_def)
  have app: "app_inv (sy_app s)" using i by simp
  have app': "app_inv app'"
    by (rule app_inv_step [OF app, of "embedded_cp d" lower "InKey k"]) (use step in simp)
  have eff: "dialog_ok (editing_ok d (reports_of s)) (target_ok d (reports_of s) AcceptsRestartCommand) (modal app')
      \<and> agents app' = agents (sy_app s) \<and> control_effect (embedded_cp d) (sy_app s) (control app')"
    by (rule handle_key_effect [OF app fleet_grants _ _ step])
      (use i editing_ok_key [OF k] in auto)
  have "srv_ok d (reports_of s) (emb_server (control app')) \<and> tr_ok d (reports_of s) (emb_translator (control app'))"
    by (rule control_effect_ok [of d "reports_of s" "sy_app s"])
      (use i eff d in \<open>simp_all add: sy_server_def sy_translator_def\<close>)
  with i app' eff show ?thesis unfolding sys_inv_def R by simp
qed

lemma sys_inv_receive:
  assumes inv: "sys_inv d s" and recv: "chan_recv (sy_ctl s) = Some (ce, ctl')"
  shows "sys_inv d (s\<lparr>sy_app := handle_control ce (sy_app s), sy_ctl := ctl'\<rparr>)" (is "sys_inv d ?t")
proof -
  note i = inv [unfolded sys_inv_def]
  have R: "reports_of ?t = reports_of s" by (simp add: reports_of_def)
  have buf: "ch_buf (sy_ctl s) = ce # ch_buf ctl'" using chan_recv_buf [OF recv] .
  then have ce: "control_ok d (reports_of s) ce" using i by simp
  have "fleet_all (view_ok d (reports_of s)) (agents (handle_control ce (sy_app s)))"
    by (rule fleet_all_control) (use i ce in auto)
  with i buf app_inv_control [of "sy_app s" ce] show ?thesis
    unfolding sys_inv_def R by (simp add: sy_server_def sy_translator_def)
qed

lemma sys_inv_step:
  assumes d: "display_ok (se_deps env)" and inv: "sys_inv (se_deps env) s" and step: "sys_step env s l t"
  shows "sys_inv (se_deps env) t"
  using step
proof cases
  case (server l srv)
  then show ?thesis using sys_inv_server [OF inv] by blast
next
  case (take e ev' t0 t1 ce tr')
  then show ?thesis using sys_inv_take [OF inv d] by blast
next
  case (forward ce ctl')
  then show ?thesis
    using inv chan_try_send_buf [of ce "sy_ctl s" ctl'] by (simp add: sys_inv_def split: option.splits)
next
  case poll_start
  then show ?thesis using inv by (simp add: sys_inv_def split: option.splits)
next
  case (poll_read k ks)
  then show ?thesis
    using inv by (cases "snapshot (sy_store s) k") (simp_all add: sys_inv_def split: option.splits)
next
  case (poll_send ks ce ctl')
  then show ?thesis
    using inv chan_try_send_buf [of ce "sy_ctl s" ctl'] by (simp add: sys_inv_def split: option.splits)
next
  case (export req st')
  then show ?thesis using inv by (simp add: sys_inv_def split: option.splits)
next
  case (key k app')
  then show ?thesis using sys_inv_key [OF inv d] by blast
next
  case (receive ce ctl')
  then show ?thesis using sys_inv_receive [OF inv] by blast
qed

text \<open>The contract of the whole: its invariant holds in every reachable state.\<close>

interpretation sys: invariant_system "sys_step env" "system_start (se_deps env) addr"
    "\<lambda>s. display_ok (se_deps env) \<longrightarrow> sys_inv (se_deps env) s" for env addr
  by unfold_locales (auto intro: sys_inv_start sys_inv_step)

lemmas sys_inv_reachable = sys.reachable_inv [THEN mp, rotated]

lemma conn_msgs_ok:
  assumes "display_ok (se_deps env)" "reachable (sys_step env) (system_start (se_deps env) addr) s"
    and "conns (sy_server s) i = Some c" "m \<in> set (conn_msgs c)"
  shows "msg_ok (se_deps env) (reports_of s) (c_uid c) m"
  using sys_inv_reachable [OF assms(1,2)] assms(3,4)
  by (auto simp: sys_inv_def srv_ok_def conn_ok_def list_all_iff)

section \<open>A sample run\<close>

text \<open>
  One agent that accepts remote configurations connects and reports; the console shows it, and the
  user opens the editor and pushes.
\<close>

definition sys_report :: agent_to_server where
  "sys_report = agent_to_server_default\<lparr>a2s_instance_uid := replicate 16 0, a2s_capabilities := 2\<rparr>"

definition sys_env :: sysenv where
  "sys_env =
     \<lparr>se_deps = sample_deps\<lparr>d_decode_a2s := (\<lambda>_. Inr sys_report)\<rparr>, se_offer = None,
      se_fmt = (\<lambda>_. []), se_lower = id\<rparr>"

definition sys_conn :: conn where
  "sys_conn = after_event None sample_uid sys_report
     (conn_new\<lparr>c_uid := Some sample_uid, c_phase := SendEvent sample_uid sys_report\<rparr>)"

definition sys_srv :: "opamp_event list \<Rightarrow> server" where
  "sys_srv evs =
     \<lparr>registry = [(sample_uid, 0)], conns = [0 \<mapsto> sys_conn],
      events = \<lparr>ch_cap = 256, ch_buf = evs, ch_open = True\<rparr>\<rparr>"

definition sys_start :: system where
  "sys_start = system_start (se_deps sys_env) []"

lemma sys_env_display: "display_ok (se_deps sys_env)"
  using display_ok_sample by (simp add: sys_env_def display_ok_def)

lemma sys_uid: "uid_ok sample_uid"
  by (simp add: uid_ok_def sample_uid_def)

lemma sys_server_reach:
  assumes "reachable (sys_step env) s0 s" "server_step (se_deps env) (se_offer env) (sy_server s) l srv"
    and "task_label l" "t = (set_server srv s)\<lparr>sy_reports := sy_reports s @ surfaced (sy_server s) l\<rparr>"
  shows "reachable (sys_step env) s0 t"
  unfolding assms(4) by (rule reach_step [OF assms(1) sys_step.server [OF assms(2,3)]])

lemma same_app: "sy_app s = app' \<Longrightarrow> s\<lparr>sy_app := app'\<rparr> = s"
  by (drule sym) simp

lemma sys_keys_reach:
  "reachable (sys_step env) s0 s \<Longrightarrow> list_all key_scalar ks \<Longrightarrow>
   app_loop (embedded_cp (se_deps env)) (se_lower env) (map InKey ks) (sy_app s) = Some app' \<Longrightarrow>
   reachable (sys_step env) s0 (s\<lparr>sy_app := app'\<rparr>)"
proof (induction ks arbitrary: s)
  case (Cons k ks)
  show ?case
  proof (cases "should_quit (sy_app s)")
    case False
    then obtain app1 where app1: "handle_key (embedded_cp (se_deps env)) (se_lower env) k (sy_app s) = Some app1"
      "app_loop (embedded_cp (se_deps env)) (se_lower env) (map InKey ks) app1 = Some app'"
      using Cons.prems(3) by (auto simp: bind_eq_Some_conv)
    have "reachable (sys_step env) s0 (s\<lparr>sy_app := app1\<rparr>)"
      using Cons.prems(2) by (intro reach_step [OF Cons.prems(1) sys_step.key [OF False _ app1(1)]]) simp
    with Cons.IH [of "s\<lparr>sy_app := app1\<rparr>"] Cons.prems(2) app1(2) show ?thesis by simp
  qed (use Cons.prems in \<open>simp add: same_app\<close>)
qed (simp add: same_app)

lemma sys_connected:
  "reachable (sys_step sys_env) sys_start
     ((set_server (sys_srv [Message sample_uid sys_report]) sys_start)\<lparr>sy_reports := [(sample_uid, sys_report)]\<rparr>)"
proof -
  let ?d = "se_deps sys_env" and ?u = sample_uid
  let ?R = "reachable (sys_step sys_env) sys_start"
  let ?frame = "framing_encode ?d (d_encode_a2s ?d) sys_report"
  let ?c2 = "conn_new\<lparr>c_phase := Select\<rparr>"
  let ?c3 = "conn_new\<lparr>c_uid := Some ?u, c_phase := SendEvent ?u sys_report\<rparr>"
  let ?v1 = "set_conn 0 conn_new server_new" and ?v2 = "set_conn 0 ?c2 server_new"
  let ?v3 = "set_conn 0 ?c3 (server_new\<lparr>registry := [(?u, 0)]\<rparr>)"
  have frame: "framing_decode ?d (d_decode_a2s ?d) ?frame = Inr sys_report"
    by (rule framing_roundtrip) (use varint_ok_sample in \<open>simp_all add: sys_env_def varint_ok_def\<close>)
  have uid: "from_bytes (a2s_instance_uid sys_report) = Some ?u"
    by (simp add: from_bytes_def sys_report_def sample_uid_def agent_to_server_default_def)
  have srv0: "sy_server sys_start = server_new" "sy_reports sys_start = []"
    by (simp_all add: sys_start_def system_start_def sy_server_def app_new_def)
  note same = set_server_def sy_server_def
  have start: "?R (set_server server_new sys_start)"
    using reach_init [of "sys_step sys_env" sys_start]
    by (simp add: set_server_def sys_start_def system_start_def app_new_def)
  have r1: "?R (set_server ?v1 sys_start)"
    by (rule sys_server_reach [OF start, of "LAccept 0" ?v1])
      (simp_all add: same srv0 server_step.accept server_new_def)
  have r2: "?R (set_server ?v2 sys_start)"
  proof (rule sys_server_reach [OF r1, of "LHandshake 0 None"])
    show "server_step ?d (se_offer sys_env) (sy_server (set_server ?v1 sys_start)) (LHandshake 0 None)
        (set_conn 0 ?c2 ?v1)"
      by (simp only: system_projections, rule server_step.handshake_ok) (simp_all add: conn_new_def)
  qed (simp_all add: same srv0 set_conn_def)
  have r3: "?R (set_server ?v3 sys_start)"
  proof (rule sys_server_reach [OF r2, of "LRead 0 (ReadOk (WsBinary ?frame)) ?u"])
    show "server_step ?d (se_offer sys_env) (sy_server (set_server ?v2 sys_start))
        (LRead 0 (ReadOk (WsBinary ?frame)) ?u) (set_conn 0 ?c3 (?v2\<lparr>registry := [(?u, 0)]\<rparr>))"
      by (simp only: system_projections, rule server_step.read [where c = ?c2])
        (simp_all add: frame uid conn_new_def server_new_def hm_defs Let_def)
  qed (simp_all add: same srv0 set_conn_def sys_uid)
  show ?thesis
  proof (rule sys_server_reach [OF r3, of "LEvent 0"])
    show "server_step ?d (se_offer sys_env) (sy_server (set_server ?v3 sys_start)) (LEvent 0)
        (set_conn 0 (after_event (se_offer sys_env) ?u sys_report ?c3)
          (?v3\<lparr>events := \<lparr>ch_cap = 256, ch_buf = [Message ?u sys_report], ch_open = True\<rparr>\<rparr>))"
      by (simp only: system_projections, rule server_step.event_sent [where c = ?c3])
        (simp_all add: chan_try_send_def server_new_def chan_new_def)
  qed (simp_all add: same srv0 set_conn_def sys_srv_def sys_conn_def sys_env_def server_new_def)
qed

text \<open>The view of the agent, and the application once it shows it.\<close>

definition sys_key :: rstring where
  "sys_key = uid_to_string (se_deps sys_env) sample_uid"

definition sys_view :: agent_detail where
  "sys_view = merge (\<lambda>_. []) 0 sys_report (agent_detail_new 0 sys_key)"

definition sys_tr :: translator where
  "sys_tr = \<lparr>details = [(sample_uid, sys_view)], uids = [(sys_key, sample_uid)]\<rparr>"

definition sys_app :: "embedded app" where
  "sys_app = handle_control (AgentUpserted sys_view)
     ((app_new (embedded_cp (se_deps sys_env))
         \<lparr>emb_addr = [], emb_server = server_new, emb_translator = translator_new\<rparr>)
       \<lparr>control := \<lparr>emb_addr = [], emb_server = sys_srv [], emb_translator = sys_tr\<rparr>\<rparr>)"

lemma sys_view_simps:
  "ad_uid sys_view = sys_key" "ad_name sys_view = sys_key" "ad_effective_config sys_view = []"
  "ad_capabilities sys_view = describe 2"
  by (simp_all add: sys_view_def sys_report_def agent_to_server_default_def agent_detail_new_def)

lemma sys_view_supports: "agent_supports sys_view (lit ''AcceptsRemoteConfig'')"
  by (simp add: agent_supports_def sys_view_simps describe_def described_capabilities_def agent_has_bit)

lemma sys_shown:
  "\<exists>s. reachable (sys_step sys_env) sys_start s \<and> sy_app s = sys_app
     \<and> sy_reports s = [(sample_uid, sys_report)]"
proof -
  let ?R = "reachable (sys_step sys_env) sys_start"
  let ?s1 = "(set_server (sys_srv [Message sample_uid sys_report]) sys_start)
    \<lparr>sy_reports := [(sample_uid, sys_report)]\<rparr>"
  let ?s2 = "(set_translator sys_tr (set_server ((sy_server ?s1)\<lparr>events := (events (sy_server ?s1))\<lparr>ch_buf := []\<rparr>\<rparr>) ?s1))
    \<lparr>sy_translate := Some (AgentUpserted sys_view)\<rparr>"
  have "translate (se_deps sys_env) (se_fmt sys_env) 0 0 (Message sample_uid sys_report) (sy_translator ?s1)
      = (AgentUpserted sys_view, sys_tr)"
    by (simp add: sys_start_def system_start_def sy_translator_def set_server_def app_new_def translator_new_def
        sys_view_def sys_tr_def sys_key_def hm_defs Let_def sys_env_def)
  moreover have "chan_recv (events (sy_server ?s1)) =
      Some (Message sample_uid sys_report, (events (sy_server ?s1))\<lparr>ch_buf := []\<rparr>)"
    by (simp add: sys_srv_def chan_recv_def)
  moreover have "sy_translate ?s1 = None"
    by (simp add: sys_start_def system_start_def set_server_def)
  ultimately have r2: "?R ?s2"
    by (intro reach_step [OF sys_connected sys_step.take])
  let ?ctl = "\<lparr>ch_cap = 256, ch_buf = [AgentUpserted sys_view], ch_open = True\<rparr>"
  have "sy_ctl ?s2 = chan_new 256" by (simp add: sys_start_def system_start_def)
  then have r3: "?R (?s2\<lparr>sy_ctl := ?ctl, sy_translate := None\<rparr>)"
    by (intro reach_step [OF r2 sys_step.forward]) (simp_all add: chan_try_send_def chan_new_def)
  let ?s3 = "?s2\<lparr>sy_ctl := ?ctl, sy_translate := None\<rparr>"
  have app3: "sy_app ?s3 = (app_new (embedded_cp (se_deps sys_env))
         \<lparr>emb_addr = [], emb_server = server_new, emb_translator = translator_new\<rparr>)
       \<lparr>control := \<lparr>emb_addr = [], emb_server = sys_srv [], emb_translator = sys_tr\<rparr>\<rparr>"
    by (simp add: set_translator_def set_server_def sys_start_def system_start_def app_new_def sys_srv_def
        sy_server_def)
  have r4: "?R (?s3\<lparr>sy_app := handle_control (AgentUpserted sys_view) (sy_app ?s3), sy_ctl := ?ctl\<lparr>ch_buf := []\<rparr>\<rparr>)"
    by (rule reach_step [OF r3 sys_step.receive]) (simp_all only: app3, simp_all add: app_new_def chan_recv_def)
  show ?thesis
    using r4 unfolding app3 sys_app_def [symmetric] by (intro exI conjI) (assumption, simp_all)
qed

text \<open>The editor is opened with F4, a letter is typed, and F5 pushes.\<close>

lemma sys_pushed:
  "\<exists>s c. reachable (sys_step sys_env) sys_start s \<and> conns (sy_server s) 0 = Some c
     \<and> config_offer (se_deps sys_env) sample_uid [65] \<in> set (conn_msgs c)
     \<and> sy_reports s = [(sample_uid, sys_report)]
     \<and> hm_get (agents (sy_app s)) sys_key = Some sys_view"
proof -
  let ?d = "se_deps sys_env" and ?cp = "embedded_cp (se_deps sys_env)"
  obtain s where s: "reachable (sys_step sys_env) sys_start s" "sy_app s = sys_app"
    "sy_reports s = [(sample_uid, sys_report)]"
    using sys_shown by blast
  have rest: "at_rest sys_app"
    by (simp add: sys_app_def at_rest_def app_new_def Let_def)
  have sel: "selected_agent (se_lower sys_env) sys_app = Some sys_view"
    by (simp add: sys_app_def selected_agent_def visible_def app_new_def Let_def matches_def
        sys_view_simps List.map_filter_def)
      (simp add: sys_env_def)
  define app' where "app' = do_push ?cp sys_key [65] sys_app"
  have run: "app_loop ?cp (se_lower sys_env) (map InKey [KF 4, KChar 65, KF 5]) (sy_app s) = Some app'"
    using edit_and_push_run [OF rest sel sys_view_supports, of "[65]" ?cp]
    by (simp add: s(2) app'_def sys_view_simps)
  have reach: "reachable (sys_step sys_env) sys_start (s\<lparr>sy_app := app'\<rparr>)"
    by (rule sys_keys_reach [OF s(1) _ run]) (simp add: scalar_def)
  let ?c = "sys_conn\<lparr>c_push := (c_push sys_conn)\<lparr>ch_buf := [config_offer ?d sample_uid [65]]\<rparr>\<rparr>"
  have push: "chan_try_send m (c_push sys_conn) = Some ((c_push sys_conn)\<lparr>ch_buf := [m]\<rparr>)" for m
    by (simp add: sys_conn_def after_event_def conn_new_def chan_new_def chan_try_send_def Let_def)
  have ctl: "control sys_app = \<lparr>emb_addr = [], emb_server = sys_srv [], emb_translator = sys_tr\<rparr>"
    by (simp add: sys_app_def del: handle_control.simps)
  have "conns (emb_server (control app')) 0 = Some ?c"
    unfolding app'_def do_push_control ctl
    by (simp add: embedded_cp_def embedded_push_config_def sys_tr_def hm_defs offer_remote_config_def
        handle_push_def registry_sender_def sys_srv_def push Let_def)
  moreover have "hm_get (agents app') sys_key = Some sys_view"
  proof -
    have "agents app' = agents sys_app"
      by (simp add: app'_def do_push_def Let_def split: prod.split sum.split)
    then show ?thesis by (simp add: sys_app_def sys_view_simps Let_def app_new_def)
  qed
  ultimately show ?thesis
    using reach s(3)
    by (intro exI [of _ "s\<lparr>sy_app := app'\<rparr>"] exI [of _ ?c]) (simp add: conn_msgs_def)
qed

section \<open>Properties\<close>

text \<open>
  C3: in every interleaving of the console's tasks, whatever the agents send and the user types, a
  connection has a configuration offer queued, in transit or sent only if it is the connection of
  an agent under whose UID a report advertised that it accepts remote configurations, and the offer
  is addressed to that agent; and a restart command only if a report advertised that it accepts
  those.
\<close>

theorem system_commands_authorised:
  assumes "display_ok (se_deps env)" "reachable (sys_step env) (system_start (se_deps env) addr) s"
    and "conns (sy_server s) i = Some c" "m \<in> set (conn_msgs c)"
  shows "(s2a_remote_config m \<noteq> None \<longrightarrow>
        (\<exists>u r yaml. c_uid c = Some u \<and> m = config_offer (se_deps env) u yaml
           \<and> (u, r) \<in> set (sy_reports s) \<and> agent_has (a2s_capabilities r) AcceptsRemoteConfig))
    \<and> (s2a_command m \<noteq> None \<longrightarrow>
        (\<exists>u r. c_uid c = Some u \<and> m = restart_command u
           \<and> (u, r) \<in> set (sy_reports s) \<and> agent_has (a2s_capabilities r) AcceptsRestartCommand))"
  using conn_msgs_ok [OF assms] unfolding msg_ok_def granted_def reports_of_def by blast


lemma system_commands_authorised_witness:
  "\<exists>s c u r yaml. reachable (sys_step sys_env) sys_start s \<and> conns (sy_server s) 0 = Some c
     \<and> config_offer (se_deps sys_env) sample_uid [65] \<in> set (conn_msgs c) \<and> c_uid c = Some u
     \<and> config_offer (se_deps sys_env) sample_uid [65] = config_offer (se_deps sys_env) u yaml
     \<and> (u, r) \<in> set (sy_reports s) \<and> agent_has (a2s_capabilities r) AcceptsRemoteConfig"
proof -
  obtain s c where s: "reachable (sys_step sys_env) (system_start (se_deps sys_env) []) s"
    "conns (sy_server s) 0 = Some c" "config_offer (se_deps sys_env) sample_uid [65] \<in> set (conn_msgs c)"
    using sys_pushed by (auto simp: sys_start_def)
  have "s2a_remote_config (config_offer (se_deps sys_env) sample_uid [65]) \<noteq> None"
    by (simp add: config_offer_def)
  with system_commands_authorised [OF sys_env_display s] s show ?thesis
    unfolding sys_start_def by blast
qed


end
